(* ===== verification/Prelude.thy ===== *)
theory Prelude
  imports Main "HOL-Library.Sublist"
begin

text \<open>
  Shared vocabulary of the development: bytes and UTF-8 strings as character lists, results
  as sums with Rust's \<open>?\<close> operator, the 64-bit arithmetic of the standard library
  (checked, saturating and wrapping), the string predicates the recorder's validators use,
  and the newline framing of \<open>BufRead::read_until\<close> on a length-limited reader.
  \<open>usize\<close> is 64 bits wide, as on the only supported build target (Linux x86-64).
\<close>

named_theorems result_simps \<open>unfolding of the result combinators\<close>
named_theorems arith64_simps \<open>definitions of the 64-bit operations\<close>

type_synonym bytes = "char list"
type_synonym str = "char list"
type_synonym uuid = nat

section \<open>Results\<close>

definition and_then :: "'e + 'a \<Rightarrow> ('a \<Rightarrow> 'e + 'b) \<Rightarrow> 'e + 'b" where
  "and_then r f = (case r of Inl e \<Rightarrow> Inl e | Inr x \<Rightarrow> f x)"

definition ensure :: "bool \<Rightarrow> 'e \<Rightarrow> 'e + unit" where
  "ensure b e = (if b then Inr () else Inl e)"

definition map_err :: "('e \<Rightarrow> 'f) \<Rightarrow> 'e + 'a \<Rightarrow> 'f + 'a" where
  "map_err f r = (case r of Inl e \<Rightarrow> Inl (f e) | Inr x \<Rightarrow> Inr x)"

definition ok_or :: "'a option \<Rightarrow> 'e \<Rightarrow> 'e + 'a" where
  "ok_or x e = (case x of None \<Rightarrow> Inl e | Some y \<Rightarrow> Inr y)"

definition is_ok :: "'e + 'a \<Rightarrow> bool" where
  "is_ok r = (case r of Inl _ \<Rightarrow> False | Inr _ \<Rightarrow> True)"

lemma and_then_simps [simp]:
  "and_then (Inl e) f = Inl e"
  "and_then (Inr x) f = f x"
  by (simp_all add: and_then_def)

lemma and_then_eq_Inr: "and_then r f = Inr y \<longleftrightarrow> (\<exists>x. r = Inr x \<and> f x = Inr y)"
  by (cases r) auto

lemma and_then_eq_Inl: "and_then r f = Inl e \<longleftrightarrow> r = Inl e \<or> (\<exists>x. r = Inr x \<and> f x = Inl e)"
  by (cases r) auto

lemma ensure_simps [simp]:
  "ensure True e = Inr ()"
  "ensure False e = Inl e"
  by (simp_all add: ensure_def)

lemma ensure_eq_Inr [simp]: "ensure b e = Inr u \<longleftrightarrow> b"
  by (simp add: ensure_def)

lemma map_err_simps [simp]:
  "map_err f (Inl e) = Inl (f e)"
  "map_err f (Inr x) = Inr x"
  by (simp_all add: map_err_def)

lemma map_err_eq_Inr [simp]: "map_err f r = Inr x \<longleftrightarrow> r = Inr x"
  by (cases r) auto

lemma ok_or_simps [simp]:
  "ok_or None e = Inl e"
  "ok_or (Some y) e = Inr y"
  by (simp_all add: ok_or_def)

lemma ok_or_eq_Inr [simp]: "ok_or x e = Inr y \<longleftrightarrow> x = Some y"
  by (cases x) auto

lemma is_ok_simps [simp]: "is_ok (Inl e) = False" "is_ok (Inr x) = True"
  by (simp_all add: is_ok_def)

lemma is_ok_iff: "is_ok r \<longleftrightarrow> (\<exists>x. r = Inr x)"
  by (cases r) auto

lemma if_Inl_eq_Inr: "(if b then Inl e else r) = Inr y \<longleftrightarrow> \<not> b \<and> r = Inr y"
  by simp

lemmas [result_simps] = and_then_eq_Inr and_then_eq_Inl if_Inl_eq_Inr

text \<open>
  \<open>std::io::Error\<close>: its kind and its message. Messages keep the literal words of the source;
  the values that \<open>format!\<close> interpolates into them are left out.
\<close>

datatype io_kind =
  NotFound | PermissionDenied | AlreadyExists | InvalidInput | InvalidData | UnexpectedEof | Other

datatype io_error = IoError (io_error_kind: io_kind) (io_error_message: str)

section \<open>64-bit arithmetic\<close>

definition U64_MAX :: nat where
  "U64_MAX = 18446744073709551615"

definition saturating_add :: "nat \<Rightarrow> nat \<Rightarrow> nat" where
  "saturating_add a b = min U64_MAX (a + b)"

definition checked_add :: "nat \<Rightarrow> nat \<Rightarrow> nat option" where
  "checked_add a b = (if a + b \<le> U64_MAX then Some (a + b) else None)"

definition wrapping_add :: "nat \<Rightarrow> nat \<Rightarrow> nat" where
  "wrapping_add a b = (a + b) mod (U64_MAX + 1)"

definition wrapping_sub :: "nat \<Rightarrow> nat \<Rightarrow> nat" where
  "wrapping_sub a b = (a + (U64_MAX + 1) - b mod (U64_MAX + 1)) mod (U64_MAX + 1)"

text \<open>\<open>u64::try_from(x).unwrap_or(u64::MAX)\<close>\<close>

definition u64_of_usize :: "nat \<Rightarrow> nat" where
  "u64_of_usize n = min U64_MAX n"

lemmas [arith64_simps] = saturating_add_def checked_add_def u64_of_usize_def

lemma saturating_add_exact [simp]: "a + b \<le> U64_MAX \<Longrightarrow> saturating_add a b = a + b"
  by (simp add: saturating_add_def)

lemma saturating_add_le [simp]: "saturating_add a b \<le> U64_MAX"
  by (simp add: saturating_add_def)

lemma checked_add_Some [simp]: "checked_add a b = Some c \<longleftrightarrow> c = a + b \<and> a + b \<le> U64_MAX"
  by (auto simp: checked_add_def)

lemma wrapping_add_exact: "a + b \<le> U64_MAX \<Longrightarrow> wrapping_add a b = a + b"
  by (simp add: wrapping_add_def)

lemma wrapping_sub_exact: "b \<le> a \<Longrightarrow> a \<le> U64_MAX \<Longrightarrow> wrapping_sub a b = a - b"
proof -
  assume le: "b \<le> a" and a: "a \<le> U64_MAX"
  then have "b mod (U64_MAX + 1) = b" by simp
  moreover have "a + (U64_MAX + 1) - b = (a - b) + (U64_MAX + 1)" using le by simp
  moreover have "(a - b) mod (U64_MAX + 1) = a - b" using a by simp
  ultimately show ?thesis unfolding wrapping_sub_def by (metis mod_add_self2)
qed

lemma u64_of_usize_exact [simp]: "n \<le> U64_MAX \<Longrightarrow> u64_of_usize n = n"
  by (simp add: u64_of_usize_def)

text \<open>\<open>u64::to_be_bytes\<close>\<close>

definition to_be_bytes :: "nat \<Rightarrow> bytes" where
  "to_be_bytes n = map (\<lambda>i. char_of (n div 256 ^ i)) (rev [0..<8])"

lemma length_to_be_bytes [simp]: "length (to_be_bytes n) = 8"
  by (simp add: to_be_bytes_def)

lemma to_be_bytes_inject:
  assumes "to_be_bytes a = to_be_bytes b" and "a \<le> U64_MAX" and "b \<le> U64_MAX"
  shows "a = b"
proof -
  have digit: "a div 256 ^ i mod 256 = b div 256 ^ i mod 256" if "i < 8" for i :: nat
  proof -
    have "char_of (a div 256 ^ i) = (char_of (b div 256 ^ i) :: char)"
      using assms(1) that by (auto simp: to_be_bytes_def)
    then show ?thesis by (metis of_char_of)
  qed
  have step: "a div 256 ^ i = b div 256 ^ i" if "a div 256 ^ Suc i = b div 256 ^ Suc i" "i < 8" for i :: nat
  proof -
    have "a div 256 ^ i = 256 * (a div 256 ^ i div 256) + a div 256 ^ i mod 256" by simp
    also have "\<dots> = 256 * (b div 256 ^ i div 256) + b div 256 ^ i mod 256"
      using that digit[of i] by (simp add: div_mult2_eq[symmetric] mult.commute)
    also have "\<dots> = b div 256 ^ i" by simp
    finally show ?thesis .
  qed
  have "a div 256 ^ 8 = b div 256 ^ 8" using assms(2,3) by (simp add: U64_MAX_def)
  then have "a div 256 ^ (8 - k) = b div 256 ^ (8 - k)" if "k \<le> 8" for k :: nat
    using that
  proof (induction k)
    case (Suc k)
    then have "a div 256 ^ Suc (8 - Suc k) = b div 256 ^ Suc (8 - Suc k)"
      by (metis Suc_diff_le Suc_leD diff_Suc_Suc)
    then show ?case using step[of "8 - Suc k"] by simp
  qed simp
  from this[of 8] show ?thesis by simp
qed

section \<open>Bytes and strings\<close>

abbreviation newline :: char where "newline \<equiv> CHR 0x0A"
abbreviation carriage_return :: char where "carriage_return \<equiv> CHR 0x0D"

definition byte_val :: "char \<Rightarrow> nat" where
  "byte_val c = of_char c"

definition in_byte_range :: "nat \<Rightarrow> nat \<Rightarrow> char \<Rightarrow> bool" where
  "in_byte_range lo hi c \<longleftrightarrow> lo \<le> byte_val c \<and> byte_val c \<le> hi"

definition is_ascii_digit :: "char \<Rightarrow> bool" where
  "is_ascii_digit c = in_byte_range 48 57 c"

definition is_ascii_lowercase :: "char \<Rightarrow> bool" where
  "is_ascii_lowercase c = in_byte_range 97 122 c"

definition is_ascii_uppercase :: "char \<Rightarrow> bool" where
  "is_ascii_uppercase c = in_byte_range 65 90 c"

definition is_ascii_hexdigit :: "char \<Rightarrow> bool" where
  "is_ascii_hexdigit c \<longleftrightarrow> is_ascii_digit c \<or> in_byte_range 97 102 c \<or> in_byte_range 65 70 c"

text \<open>\<open>byte.is_ascii_digit() || (b'a'..=b'f').contains(&byte)\<close>\<close>

definition is_lower_hex :: "char \<Rightarrow> bool" where
  "is_lower_hex c \<longleftrightarrow> is_ascii_digit c \<or> in_byte_range 97 102 c"

definition ascii_lower :: "char \<Rightarrow> char" where
  "ascii_lower c = (if is_ascii_uppercase c then char_of (byte_val c + 32) else c)"

definition to_ascii_lowercase :: "str \<Rightarrow> str" where
  "to_ascii_lowercase s = map ascii_lower s"

text \<open>
  \<open>value.chars().any(char::is_control)\<close> on the UTF-8 bytes of a string: the control
  characters are U+0000 to U+001F, U+007F and U+0080 to U+009F; the last range is encoded as
  the byte 0xC2 followed by a byte from 0x80 to 0x9F.
\<close>

fun any_control :: "str \<Rightarrow> bool" where
  "any_control [] = False"
| "any_control (c # cs) =
     (byte_val c < 32 \<or> byte_val c = 127
      \<or> (byte_val c = 194 \<and> (case cs of [] \<Rightarrow> False | d # _ \<Rightarrow> in_byte_range 128 159 d))
      \<or> any_control cs)"

lemma any_control_no_low: "\<not> any_control s \<Longrightarrow> c \<in> set s \<Longrightarrow> 32 \<le> byte_val c"
  by (induction s) auto

lemma any_control_no_newline: "\<not> any_control s \<Longrightarrow> newline \<notin> set s"
  using any_control_no_low[of s newline] by (auto simp: byte_val_def)

text \<open>\<open>strip_prefix\<close>, \<open>starts_with\<close> and \<open>ends_with\<close>\<close>

fun strip_prefix :: "'a list \<Rightarrow> 'a list \<Rightarrow> 'a list option" where
  "strip_prefix [] s = Some s"
| "strip_prefix (p # ps) [] = None"
| "strip_prefix (p # ps) (c # cs) = (if p = c then strip_prefix ps cs else None)"

definition starts_with :: "'a list \<Rightarrow> 'a list \<Rightarrow> bool" where
  "starts_with s p = (strip_prefix p s \<noteq> None)"

definition ends_with :: "'a list \<Rightarrow> 'a list \<Rightarrow> bool" where
  "ends_with s p = starts_with (rev s) (rev p)"

lemma strip_prefix_append [simp]: "strip_prefix p (p @ s) = Some s"
  by (induction p) auto

lemma strip_prefix_Some: "strip_prefix p s = Some t \<longleftrightarrow> s = p @ t"
  by (induction p s rule: strip_prefix.induct) auto

lemma starts_with_iff: "starts_with s p \<longleftrightarrow> (\<exists>t. s = p @ t)"
  by (auto simp: starts_with_def strip_prefix_Some)

lemma ends_with_iff: "ends_with s p \<longleftrightarrow> (\<exists>t. s = t @ p)"
  by (metis ends_with_def rev_append rev_rev_ident starts_with_iff)

text \<open>\<open>slice::split\<close> and \<open>str::split\<close> on a separator predicate\<close>

fun split_on :: "('a \<Rightarrow> bool) \<Rightarrow> 'a list \<Rightarrow> 'a list list" where
  "split_on p [] = [[]]"
| "split_on p (x # xs) =
     (if p x then [] # split_on p xs
      else (case split_on p xs of [] \<Rightarrow> [[x]] | y # ys \<Rightarrow> (x # y) # ys))"

lemma split_on_not_Nil [simp]: "split_on p xs \<noteq> []"
  by (induction xs) (auto split: list.splits)

lemma split_on_no_sep: "ys \<in> set (split_on p xs) \<Longrightarrow> y \<in> set ys \<Longrightarrow> \<not> p y"
proof (induction xs arbitrary: ys)
  case (Cons x xs)
  then show ?case by (cases "split_on p xs") (fastforce split: if_splits)+
qed auto

lemma split_on_single: "\<forall>x\<in>set xs. \<not> p x \<Longrightarrow> split_on p xs = [xs]"
  by (induction xs) auto

lemma split_on_append_sep:
  "p s \<Longrightarrow> split_on p (xs @ s # ys) = split_on p xs @ split_on p ys"
  by (induction xs) (auto split: list.splits)

text \<open>Decimal formatting of an unsigned integer (\<open>Display\<close>).\<close>

fun decimal :: "nat \<Rightarrow> str" where
  "decimal n = (if n < 10 then [char_of (48 + n)] else decimal (n div 10) @ [char_of (48 + n mod 10)])"

declare decimal.simps [simp del]

lemma decimal_digits: "c \<in> set (decimal n) \<Longrightarrow> is_ascii_digit c"
proof (induction n rule: decimal.induct)
  case (1 n)
  show ?case
  proof (cases "n < 10")
    case True
    with 1 show ?thesis
      by (auto simp: decimal.simps[of n] is_ascii_digit_def in_byte_range_def byte_val_def)
  next
    case False
    have "is_ascii_digit (char_of (48 + n mod 10))"
    proof -
      have "(48 + n mod 10) mod 256 = 48 + n mod 10" by (simp add: mod_less)
      then show ?thesis by (simp add: is_ascii_digit_def in_byte_range_def byte_val_def)
    qed
    with 1 False show ?thesis by (auto simp: decimal.simps[of n])
  qed
qed

lemma decimal_not_Nil [simp]: "decimal n \<noteq> []"
  by (simp add: decimal.simps[of n])

lemma decimal_length: "n < 10 ^ k \<Longrightarrow> length (decimal n) \<le> max 1 k"
proof (induction n arbitrary: k rule: decimal.induct)
  case (1 n)
  show ?case
  proof (cases "n < 10")
    case True
    then show ?thesis by (simp add: decimal.simps[of n])
  next
    case False
    with 1(2) obtain j where k: "k = Suc j" by (cases k) auto
    with 1(2) have "n div 10 < 10 ^ j" by (simp add: less_mult_imp_div_less mult.commute)
    with 1(1) False have "length (decimal (n div 10)) \<le> max 1 j" by simp
    moreover have "0 < j" using False 1(2) k by (cases j) auto
    ultimately show ?thesis using False k by (simp add: decimal.simps[of n])
  qed
qed

text \<open>\<open>str::parse\<close> for an unsigned type with the given maximum: an optional plus sign and one or
  more digits, no overflow.\<close>

fun parse_digits :: "nat \<Rightarrow> nat \<Rightarrow> str \<Rightarrow> nat option" where
  "parse_digits maximum acc [] = Some acc"
| "parse_digits maximum acc (c # cs) =
     (if \<not> is_ascii_digit c then None
      else let v = acc * 10 + (byte_val c - 48) in
           if v > maximum then None else parse_digits maximum v cs)"

definition parse_uint :: "nat \<Rightarrow> str \<Rightarrow> nat option" where
  "parse_uint maximum s =
     (case s of [] \<Rightarrow> None
      | c # cs \<Rightarrow> (if c = CHR ''+'' then (if cs = [] then None else parse_digits maximum 0 cs)
                   else parse_digits maximum 0 s))"

lemma parse_digits_le: "acc \<le> maximum \<Longrightarrow> parse_digits maximum acc s = Some n \<Longrightarrow> n \<le> maximum"
proof (induction s arbitrary: acc)
  case (Cons c s)
  then show ?case by (fastforce simp: Let_def not_less split: if_splits)
qed simp

lemma parse_uint_le: "parse_uint maximum s = Some n \<Longrightarrow> n \<le> maximum"
  by (auto simp del: parse_digits.simps simp: parse_uint_def split: list.splits if_splits
      intro: parse_digits_le[of 0 maximum _ n])

lemma parse_digits_decimal:
  "n + a * 10 ^ length (decimal n) \<le> m \<Longrightarrow>
   parse_digits m a (decimal n @ cs) = parse_digits m (n + a * 10 ^ length (decimal n)) cs"
proof (induction n arbitrary: a cs rule: decimal.induct)
  case (1 n)
  have digit: "is_ascii_digit (char_of (48 + k))" "byte_val (char_of (48 + k)) - 48 = k" if "k < 10" for k
    using that by (simp_all add: is_ascii_digit_def in_byte_range_def byte_val_def)
  show ?case
  proof (cases "n < 10")
    case True
    then show ?thesis using 1(2) digit[of n]
      by (simp add: decimal.simps[of n] Let_def add.commute mult.commute)
  next
    case False
    let ?l = "length (decimal (n div 10))"
    have len: "length (decimal n) = Suc ?l" using False by (simp add: decimal.simps[of n])
    have split: "n + a * 10 ^ Suc ?l = (n div 10 + a * 10 ^ ?l) * 10 + n mod 10" by (simp add: algebra_simps)
    have "n div 10 + a * 10 ^ ?l \<le> m" using 1(2) len split by simp
    then have "parse_digits m a (decimal (n div 10) @ char_of (48 + n mod 10) # cs)
        = parse_digits m (n div 10 + a * 10 ^ ?l) (char_of (48 + n mod 10) # cs)"
      using 1(1)[OF False, of a] by simp
    also have "\<dots> = parse_digits m (n + a * 10 ^ Suc ?l) cs"
      using 1(2) digit[of "n mod 10"]
      unfolding len parse_digits.simps Let_def digit(2)[OF mod_less_divisor[OF zero_less_numeral]] split[symmetric]
      by simp
    finally show ?thesis using False len by (simp add: decimal.simps[of n] del: power_Suc)
  qed
qed

lemma parse_uint_decimal:
  assumes "n \<le> m"
  shows "parse_uint m (decimal n) = Some n"
proof (cases "decimal n")
  case (Cons c cs)
  have "c \<noteq> CHR ''+''"
    using decimal_digits[of c n] Cons by (auto simp: is_ascii_digit_def in_byte_range_def byte_val_def)
  then show ?thesis using parse_digits_decimal[of n 0 m "[]"] assms Cons by (simp add: parse_uint_def)
qed simp

lemma decimal_no_newline: "newline \<notin> set (decimal n)" "CHR ''c'' \<notin> set (decimal n)"
  using decimal_digits[of newline n] decimal_digits[of "CHR ''c''" n]
  by (auto simp: is_ascii_digit_def in_byte_range_def byte_val_def)

text \<open>\<open>str::from_utf8\<close> succeeds exactly on well-formed UTF-8: no overlong forms, no
  surrogates, nothing above U+10FFFF.\<close>

definition continuation :: "char \<Rightarrow> bool" where
  "continuation c = in_byte_range 128 191 c"

fun utf8_valid :: "bytes \<Rightarrow> bool" where
  "utf8_valid [] = True"
| "utf8_valid (a # bs) =
     (if byte_val a < 128 then utf8_valid bs
      else if in_byte_range 194 223 a then
        (case bs of b # cs \<Rightarrow> continuation b \<and> utf8_valid cs | _ \<Rightarrow> False)
      else if in_byte_range 224 239 a then
        (case bs of b # c # cs \<Rightarrow>
           (if byte_val a = 224 then in_byte_range 160 191 b
            else if byte_val a = 237 then in_byte_range 128 159 b
            else continuation b) \<and> continuation c \<and> utf8_valid cs
         | _ \<Rightarrow> False)
      else if in_byte_range 240 244 a then
        (case bs of b # c # d # cs \<Rightarrow>
           (if byte_val a = 240 then in_byte_range 144 191 b
            else if byte_val a = 244 then in_byte_range 128 143 b
            else continuation b) \<and> continuation c \<and> continuation d \<and> utf8_valid cs
         | _ \<Rightarrow> False)
      else False)"

section \<open>Newline framing\<close>

text \<open>
  \<open>reader.take(limit).read_until(b'\n', buffer)\<close>: the bytes up to and including the first
  newline, at most \<open>limit\<close> of them, and the bytes that stay in the reader. The second
  component is what the next call reads from.
\<close>

fun read_until :: "nat \<Rightarrow> bytes \<Rightarrow> bytes \<times> bytes" where
  "read_until 0 bs = ([], bs)"
| "read_until (Suc n) [] = ([], [])"
| "read_until (Suc n) (b # bs) =
     (if b = newline then ([b], bs)
      else (case read_until n bs of (line, rest) \<Rightarrow> (b # line, rest)))"

lemma read_until_append: "read_until n bs = (line, rest) \<Longrightarrow> bs = line @ rest"
  by (induction n bs arbitrary: line rest rule: read_until.induct) (auto split: if_splits prod.splits)

lemma read_until_length: "read_until n bs = (line, rest) \<Longrightarrow> length line \<le> n"
  by (induction n bs arbitrary: line rest rule: read_until.induct) (auto split: if_splits prod.splits)

lemma read_until_empty: "read_until n bs = ([], rest) \<Longrightarrow> n = 0 \<or> bs = []"
  by (cases "(n, bs)" rule: read_until.cases) (auto split: if_splits prod.splits)

lemma read_until_shorter:
  "read_until n bs = (line, rest) \<Longrightarrow> line \<noteq> [] \<Longrightarrow> length rest < length bs"
  using read_until_append by fastforce

lemma read_until_line:
  "newline \<notin> set l \<Longrightarrow> length l < n \<Longrightarrow> read_until n (l @ newline # rest) = (l @ [newline], rest)"
proof (induction l arbitrary: n)
  case Nil
  then show ?case by (cases n) auto
next
  case (Cons c l)
  then obtain m where "n = Suc m" by (cases n) auto
  with Cons show ?case by auto
qed

lemma read_until_tail:
  "newline \<notin> set l \<Longrightarrow> read_until n l = (take n l, drop n l)"
proof (induction l arbitrary: n)
  case Nil
  then show ?case by (cases n) auto
next
  case (Cons c l)
  then show ?case by (cases n) auto
qed

lemma read_until_last:
  "read_until n bs = (line, rest) \<Longrightarrow> line \<noteq> [] \<Longrightarrow> last line = newline \<Longrightarrow>
   \<exists>l. line = l @ [newline] \<and> newline \<notin> set l"
proof (induction n bs arbitrary: line rest rule: read_until.induct)
  case (3 n b bs)
  show ?case
  proof (cases "b = newline")
    case True
    with 3 show ?thesis by auto
  next
    case False
    then obtain l r where lr: "read_until n bs = (l, r)" and line: "line = b # l"
      using 3 by (auto split: prod.splits)
    with False 3 have "l \<noteq> []" "last l = newline" by (auto split: if_splits)
    with 3(1)[OF False lr] obtain l' where "l = l' @ [newline]" "newline \<notin> set l'" by auto
    with False line show ?thesis by (intro exI[of _ "b # l'"]) auto
  qed
qed auto

lemma read_until_extend:
  "read_until n bs = (line, rest) \<Longrightarrow> line \<noteq> [] \<Longrightarrow> last line = newline \<Longrightarrow>
   read_until n (bs @ ms) = (line, rest @ ms)"
proof (induction n bs arbitrary: line rest rule: read_until.induct)
  case (3 n b bs)
  show ?case
  proof (cases "b = newline")
    case False
    then obtain l where l: "read_until n bs = (l, rest)" "line = b # l"
      using 3(2) by (auto split: prod.splits)
    with False 3 show ?thesis by (cases "l = []") (auto split: if_splits)
  qed (use 3 in auto)
qed auto

end
