(* ===== verification/Json_Input.thy ===== *)
theory Json_Input
  imports Prelude
begin

text \<open>
  The JSON complexity preflight of \<open>src/input.rs\<close>. The preflight is a byte-level scanner that tracks string literals,
  nesting depth and structural tokens; it is characterised by a declarative reading of the
  bytes that lie outside string literals.
\<close>

section \<open>The complexity scanner\<close>

definition MAX_JSON_NESTING_DEPTH :: nat where "MAX_JSON_NESTING_DEPTH = 64"
definition MAX_JSON_STRUCTURAL_TOKENS :: nat where "MAX_JSON_STRUCTURAL_TOKENS = 100000"
definition MAX_STORED_JSON_NESTING_DEPTH :: nat where
  "MAX_STORED_JSON_NESTING_DEPTH = MAX_JSON_NESTING_DEPTH + 16"
definition MAX_STORED_JSON_STRUCTURAL_TOKENS :: nat where
  "MAX_STORED_JSON_STRUCTURAL_TOKENS = MAX_JSON_STRUCTURAL_TOKENS + 4096"

text \<open>The loop variables of \<open>validate_json_complexity_with_limits\<close>.\<close>

record json_scan =
  in_string :: bool
  escaped :: bool
  depth :: nat
  tokens :: nat

definition scan_start :: json_scan where
  "scan_start = \<lparr>in_string = False, escaped = False, depth = 0, tokens = 0\<rparr>"

definition nesting_error :: io_error where
  "nesting_error = IoError InvalidData ''JSON exceeds the nesting safety limit''"

definition token_error :: io_error where
  "token_error = IoError InvalidData ''JSON exceeds the structural safety limit''"

text \<open>One iteration of the loop: \<open>continue\<close> inside a string, the match on the byte, and
  the token check that ends the iteration.\<close>

definition scan_step :: "nat \<Rightarrow> nat \<Rightarrow> json_scan \<Rightarrow> char \<Rightarrow> io_error + json_scan" where
  "scan_step maximum_depth maximum_tokens s b =
     (if in_string s then
        Inr (if escaped s then s\<lparr>escaped := False\<rparr>
             else if b = CHR 0x5C then s\<lparr>escaped := True\<rparr>
             else if b = CHR 0x22 then s\<lparr>in_string := False\<rparr>
             else s)
      else
        and_then
          (if b = CHR 0x22 then Inr (s\<lparr>in_string := True\<rparr>)
           else if b = CHR ''{'' \<or> b = CHR ''['' then
             (let s' = s\<lparr>depth := saturating_add (depth s) 1\<rparr>
              in if depth s' > maximum_depth then Inl nesting_error
                 else Inr (s'\<lparr>tokens := saturating_add (tokens s') 1\<rparr>))
           else if b = CHR ''}'' \<or> b = CHR '']'' then Inr (s\<lparr>depth := depth s - 1\<rparr>)
           else if b = CHR '','' \<or> b = CHR '':'' then Inr (s\<lparr>tokens := saturating_add (tokens s) 1\<rparr>)
           else Inr s)
          (\<lambda>s'. if tokens s' > maximum_tokens then Inl token_error else Inr s'))"

fun scan_bytes :: "nat \<Rightarrow> nat \<Rightarrow> json_scan \<Rightarrow> bytes \<Rightarrow> io_error + unit" where
  "scan_bytes D T s [] = Inr ()"
| "scan_bytes D T s (b # bs) = and_then (scan_step D T s b) (\<lambda>s'. scan_bytes D T s' bs)"

definition validate_json_complexity_with_limits :: "bytes \<Rightarrow> nat \<Rightarrow> nat \<Rightarrow> io_error + unit" where
  "validate_json_complexity_with_limits bs maximum_depth maximum_tokens =
     scan_bytes maximum_depth maximum_tokens scan_start bs"

definition validate_json_complexity :: "bytes \<Rightarrow> io_error + unit" where
  "validate_json_complexity bs =
     validate_json_complexity_with_limits bs MAX_JSON_NESTING_DEPTH MAX_JSON_STRUCTURAL_TOKENS"

definition validate_stored_json_complexity :: "bytes \<Rightarrow> io_error + unit" where
  "validate_stored_json_complexity bs =
     validate_json_complexity_with_limits bs MAX_STORED_JSON_NESTING_DEPTH
       MAX_STORED_JSON_STRUCTURAL_TOKENS"

section \<open>What the scanner accepts\<close>

text \<open>The bytes outside string literals; the two flags say whether reading starts inside a
  literal and whether the previous byte was an unescaped backslash.\<close>

fun outside_strings :: "bool \<Rightarrow> bool \<Rightarrow> bytes \<Rightarrow> bytes" where
  "outside_strings s e [] = []"
| "outside_strings True True (b # bs) = outside_strings True False bs"
| "outside_strings True False (b # bs) =
     (if b = CHR 0x5C then outside_strings True True bs
      else if b = CHR 0x22 then outside_strings False False bs
      else outside_strings True False bs)"
| "outside_strings False e (b # bs) =
     (if b = CHR 0x22 then outside_strings True e bs else b # outside_strings False e bs)"

definition opens :: "char \<Rightarrow> bool" where "opens b \<longleftrightarrow> b = CHR ''{'' \<or> b = CHR ''[''"
definition closes :: "char \<Rightarrow> bool" where "closes b \<longleftrightarrow> b = CHR ''}'' \<or> b = CHR '']''"
definition separates :: "char \<Rightarrow> bool" where "separates b \<longleftrightarrow> b = CHR '','' \<or> b = CHR '':''"

text \<open>Nesting depth after reading structural bytes from a given depth (an unmatched closer at
  depth zero is ignored), and the greatest depth reached on the way.\<close>

fun max_nesting :: "nat \<Rightarrow> bytes \<Rightarrow> nat" where
  "max_nesting d [] = d"
| "max_nesting d (b # bs) =
     max d (max_nesting (if opens b then d + 1 else if closes b then d - 1 else d) bs)"

definition structural_tokens :: "bytes \<Rightarrow> nat" where
  "structural_tokens bs = length (filter (\<lambda>b. opens b \<or> separates b) bs)"

lemma max_nesting_ge: "d \<le> max_nesting d bs"
  by (induction bs arbitrary: d) auto

lemma scan_bytes_iff:
  assumes "D < U64_MAX" "T < U64_MAX" "depth s \<le> D" "tokens s \<le> T" "\<not> in_string s \<longrightarrow> \<not> escaped s"
  shows "scan_bytes D T s bs = Inr () \<longleftrightarrow>
     max_nesting (depth s) (outside_strings (in_string s) (escaped s) bs) \<le> D
     \<and> tokens s + structural_tokens (outside_strings (in_string s) (escaped s) bs) \<le> T"
  using assms(3-5)
proof (induction bs arbitrary: s)
  case Nil
  then show ?case by (simp add: structural_tokens_def)
next
  case (Cons b bs)
  note IH = Cons.IH
  show ?case
  proof (cases "in_string s")
    case True
    with Cons.prems show ?thesis
      by (cases "escaped s") (auto simp: scan_step_def IH)
  next
    case False
    with Cons.prems have e: "\<not> escaped s" by simp
    consider "b = CHR 0x22" | "opens b" | "closes b" | "separates b"
      | "b \<noteq> CHR 0x22" "\<not> opens b" "\<not> closes b" "\<not> separates b" by blast
    then show ?thesis
    proof cases
      case 1
      with False e Cons.prems show ?thesis by (simp add: scan_step_def IH)
    next
      case 2
      have sat: "saturating_add (depth s) (Suc 0) = depth s + 1"
        "saturating_add (tokens s) (Suc 0) = tokens s + 1"
        using assms(1,2) Cons.prems by simp_all
      have b: "b \<noteq> CHR 0x22" "b = CHR ''{'' \<or> b = CHR ''[''" using 2 by (auto simp: opens_def)
      show ?thesis
      proof (cases "depth s + 1 \<le> D \<and> tokens s + 1 \<le> T")
        case True
        with 2 b False e Cons.prems show ?thesis
          by (simp add: scan_step_def Let_def sat IH structural_tokens_def)
      next
        case over: False
        then show ?thesis
          using 2 b False e max_nesting_ge[of "depth s + 1" "outside_strings False False bs"]
          by (auto simp: scan_step_def Let_def sat structural_tokens_def)
      qed
    next
      case 3
      then have b: "b \<noteq> CHR 0x22" "\<not> (b = CHR ''{'' \<or> b = CHR ''['')" "b = CHR ''}'' \<or> b = CHR '']''"
        "\<not> opens b" "\<not> separates b" by (auto simp: closes_def opens_def separates_def)
      with False e Cons.prems 3 show ?thesis
        by (simp add: scan_step_def IH structural_tokens_def)
    next
      case 4
      then have b: "b \<noteq> CHR 0x22" "\<not> (b = CHR ''{'' \<or> b = CHR ''['')" "\<not> (b = CHR ''}'' \<or> b = CHR '']'')"
        "b = CHR '','' \<or> b = CHR '':''" "\<not> opens b" "\<not> closes b"
        by (auto simp: closes_def opens_def separates_def)
      have sat: "saturating_add (tokens s) (Suc 0) = tokens s + 1" using assms(2) Cons.prems by simp
      show ?thesis
        using b False e Cons.prems 4
        by (auto simp: scan_step_def IH structural_tokens_def sat)
    next
      case 5
      then have b: "\<not> (b = CHR ''{'' \<or> b = CHR ''['')" "\<not> (b = CHR ''}'' \<or> b = CHR '']'')"
        "\<not> (b = CHR '','' \<or> b = CHR '':'')" by (auto simp: closes_def opens_def separates_def)
      with 5 False e Cons.prems show ?thesis
        by (simp add: scan_step_def IH structural_tokens_def)
    qed
  qed
qed

lemma validate_with_limits_iff:
  "D < U64_MAX \<Longrightarrow> T < U64_MAX \<Longrightarrow>
   validate_json_complexity_with_limits bs D T = Inr () \<longleftrightarrow>
     max_nesting 0 (outside_strings False False bs) \<le> D
     \<and> structural_tokens (outside_strings False False bs) \<le> T"
  using scan_bytes_iff[of D T scan_start bs]
  by (simp add: validate_json_complexity_with_limits_def scan_start_def)

text \<open>A trailing newline, which framing adds, never changes the verdict.\<close>

lemma outside_strings_newline:
  "outside_strings s e (bs @ [newline]) = outside_strings s e bs
   \<or> outside_strings s e (bs @ [newline]) = outside_strings s e bs @ [newline]"
proof (induction s e bs rule: outside_strings.induct)
  case (1 s e)
  show ?case by (cases s; cases e) simp_all
qed auto

lemma max_nesting_newline: "max_nesting d (bs @ [newline]) = max_nesting d bs"
  by (induction bs arbitrary: d) (auto simp: opens_def closes_def)

lemma structural_tokens_newline: "structural_tokens (bs @ [newline]) = structural_tokens bs"
  by (simp add: structural_tokens_def opens_def separates_def)

lemma validate_with_limits_newline:
  "D < U64_MAX \<Longrightarrow> T < U64_MAX \<Longrightarrow>
   validate_json_complexity_with_limits (bs @ [newline]) D T = Inr () \<longleftrightarrow>
   validate_json_complexity_with_limits bs D T = Inr ()"
  using outside_strings_newline[of False False bs]
  by (auto simp: validate_with_limits_iff max_nesting_newline structural_tokens_newline)

lemmas json_limits = MAX_JSON_NESTING_DEPTH_def MAX_JSON_STRUCTURAL_TOKENS_def
  MAX_STORED_JSON_NESTING_DEPTH_def MAX_STORED_JSON_STRUCTURAL_TOKENS_def U64_MAX_def

lemma validate_stored_newline [simp]:
  "validate_stored_json_complexity (bs @ [newline]) = Inr () \<longleftrightarrow>
   validate_stored_json_complexity bs = Inr ()"
  unfolding validate_stored_json_complexity_def
  by (rule validate_with_limits_newline) (simp_all add: json_limits)

lemma validate_newline [simp]:
  "validate_json_complexity (bs @ [newline]) = Inr () \<longleftrightarrow> validate_json_complexity bs = Inr ()"
  unfolding validate_json_complexity_def
  by (rule validate_with_limits_newline) (simp_all add: json_limits)

text \<open>C21: the preflight accepts exactly the inputs whose structure, read outside string
  literals, nests at most \<open>D\<close> deep and has at most \<open>T\<close> openers and separators.\<close>

theorem json_complexity_exact:
  assumes "D < U64_MAX" and "T < U64_MAX"
  shows "validate_json_complexity_with_limits bs D T = Inr () \<longleftrightarrow>
     max_nesting 0 (outside_strings False False bs) \<le> D
     \<and> structural_tokens (outside_strings False False bs) \<le> T"
  using assms by (rule validate_with_limits_iff)

text \<open>A string literal that contains brackets and an escaped quote counts as no structure.\<close>

theorem json_complexity_exact_witness:
  "validate_json_complexity_with_limits ''{[:'' 1 5 \<noteq> Inr () \<and>
   validate_json_complexity_with_limits ''{:[]}'' 2 3 = Inr ()"
  using json_complexity_exact[of 1 5 "''{[:''"] json_complexity_exact[of 2 3 "''{:[]}''"]
  by (simp add: U64_MAX_def opens_def closes_def separates_def structural_tokens_def)

end
