(* ===== verification/Libraries.thy ===== *)
theory Libraries
  imports Prelude
begin

text \<open>
  The third-party crates the recorder calls, as parameters: one record of functions, an
  argument of every definition that uses them, and the documented laws the theorems rely on
  as named predicates. Nothing here is defined by the development itself except the small
  concrete instance \<open>demo_crates\<close>, on which witnesses evaluate.
  \<^item> \<open>sha2\<close>: \<open>sha256\<close>; \<open>hex\<close>: \<open>hex_encode\<close>, \<open>hex_decode\<close>;
    \<open>base64\<close> (\<open>STANDARD_NO_PAD\<close>): \<open>b64_encode\<close>, \<open>b64_decode\<close>;
  \<^item> \<open>chacha20poly1305\<close>: \<open>aead_seal key nonce aad msg\<close> and
    \<open>aead_open key nonce aad ciphertext\<close> (\<open>None\<close> is the crate's error);
  \<^item> \<open>hkdf\<close>: \<open>hkdf_expand salt ikm info\<close> with 32 bytes of output;
  \<^item> \<open>zstd\<close>: \<open>zstd_compress\<close> at the recorder's level, and \<open>zstd_read c n\<close>, at most
    \<open>n\<close> bytes read from the streaming decoder over \<open>c\<close>;
  \<^item> \<open>uuid\<close>: \<open>uuid_version\<close> (\<open>get_version_num\<close>); a UUID is its 128-bit value, nil is 0.
\<close>

record crates =
  sha256 :: "bytes \<Rightarrow> bytes"
  hex_encode :: "bytes \<Rightarrow> str"
  hex_decode :: "str \<Rightarrow> bytes option"
  b64_encode :: "bytes \<Rightarrow> str"
  b64_decode :: "str \<Rightarrow> bytes option"
  aead_seal :: "bytes \<Rightarrow> bytes \<Rightarrow> bytes \<Rightarrow> bytes \<Rightarrow> bytes option"
  aead_open :: "bytes \<Rightarrow> bytes \<Rightarrow> bytes \<Rightarrow> bytes \<Rightarrow> bytes option"
  hkdf_expand :: "bytes \<Rightarrow> bytes \<Rightarrow> bytes \<Rightarrow> bytes option"
  zstd_compress :: "bytes \<Rightarrow> bytes option"
  zstd_read :: "bytes \<Rightarrow> nat \<Rightarrow> bytes option"
  uuid_version :: "uuid \<Rightarrow> nat"

section \<open>Documented laws\<close>

definition sha256_law :: "('x) crates_scheme \<Rightarrow> bool" where
  "sha256_law L \<longleftrightarrow> (\<forall>m. length (sha256 L m) = 32)"

definition hex_law :: "('x) crates_scheme \<Rightarrow> bool" where
  "hex_law L \<longleftrightarrow> (\<forall>m. hex_decode L (hex_encode L m) = Some m
     \<and> length (hex_encode L m) = 2 * length m \<and> (\<forall>c\<in>set (hex_encode L m). is_lower_hex c))"

definition base64_law :: "('x) crates_scheme \<Rightarrow> bool" where
  "base64_law L \<longleftrightarrow> (\<forall>m. b64_decode L (b64_encode L m) = Some m)"

text \<open>XChaCha20-Poly1305 is deterministic in key, nonce and associated data: opening succeeds
  exactly on what sealing produces there, and a sealed message is 16 bytes longer.\<close>

definition aead_law :: "('x) crates_scheme \<Rightarrow> bool" where
  "aead_law L \<longleftrightarrow> (\<forall>k n a m c. aead_open L k n a c = Some m \<longleftrightarrow> aead_seal L k n a m = Some c)
     \<and> (\<forall>k n a m c. aead_seal L k n a m = Some c \<longrightarrow> length c = length m + 16)"

definition hkdf_law :: "('x) crates_scheme \<Rightarrow> bool" where
  "hkdf_law L \<longleftrightarrow> (\<forall>s i f k. hkdf_expand L s i f = Some k \<longrightarrow> length k = 32)"

definition zstd_law :: "('x) crates_scheme \<Rightarrow> bool" where
  "zstd_law L \<longleftrightarrow> (\<forall>m c n. zstd_compress L m = Some c \<longrightarrow> zstd_read L c n = Some (take n m))"

lemma aead_open_seal: "aead_law L \<Longrightarrow> aead_seal L k n a m = Some c \<Longrightarrow> aead_open L k n a c = Some m"
  by (simp add: aead_law_def)

lemma aead_seal_length: "aead_law L \<Longrightarrow> aead_seal L k n a m = Some c \<Longrightarrow> length c = length m + 16"
  by (auto simp: aead_law_def)

lemma hex_length: "hex_law L \<Longrightarrow> length (hex_encode L m) = 2 * length m"
  by (simp add: hex_law_def)

lemma hex_chars: "hex_law L \<Longrightarrow> c \<in> set (hex_encode L m) \<Longrightarrow> is_lower_hex c"
  by (auto simp: hex_law_def)

lemma hex_roundtrip: "hex_law L \<Longrightarrow> hex_decode L (hex_encode L m) = Some m"
  by (simp add: hex_law_def)

lemma hex_inject: "hex_law L \<Longrightarrow> hex_encode L m = hex_encode L m' \<longleftrightarrow> m = m'"
  by (metis hex_roundtrip option.inject)

lemma b64_roundtrip: "base64_law L \<Longrightarrow> b64_decode L (b64_encode L m) = Some m"
  by (simp add: base64_law_def)

section \<open>A concrete instance for witnesses\<close>

text \<open>A checksum in place of SHA-256, hexadecimal coding as the crates define it, the identity
  for base64 and zstd, and a sealing that appends sixteen tag bytes.\<close>

definition hex_digit :: "nat \<Rightarrow> char" where
  "hex_digit n = (if n < 10 then char_of (48 + n) else char_of (87 + n))"

fun unhex_digit :: "char \<Rightarrow> nat option" where
  "unhex_digit c =
     (if is_ascii_digit c then Some (byte_val c - 48)
      else if in_byte_range 97 102 c then Some (byte_val c - 87)
      else None)"

fun demo_hex :: "bytes \<Rightarrow> str" where
  "demo_hex [] = []"
| "demo_hex (b # bs) = hex_digit (byte_val b div 16) # hex_digit (byte_val b mod 16) # demo_hex bs"

fun demo_unhex :: "str \<Rightarrow> bytes option" where
  "demo_unhex [] = Some []"
| "demo_unhex [c] = None"
| "demo_unhex (c # d # cs) =
     (case (unhex_digit c, unhex_digit d, demo_unhex cs) of
        (Some h, Some l, Some bs) \<Rightarrow> Some (char_of (16 * h + l) # bs) | _ \<Rightarrow> None)"

definition demo_tag :: bytes where "demo_tag = replicate 16 (CHR ''t'')"

definition demo_crates :: crates where
  "demo_crates =
     \<lparr>sha256 = (\<lambda>m. replicate 31 (CHR ''h'') @ [char_of (length m)]),
      hex_encode = demo_hex, hex_decode = demo_unhex,
      b64_encode = id, b64_decode = Some,
      aead_seal = (\<lambda>k n a m. Some (m @ demo_tag)),
      aead_open = (\<lambda>k n a c. if drop (length c - 16) c = demo_tag
                             then Some (take (length c - 16) c) else None),
      hkdf_expand = (\<lambda>s i f. Some (replicate 32 (CHR ''k''))),
      zstd_compress = Some, zstd_read = (\<lambda>c n. Some (take n c)),
      uuid_version = (\<lambda>u. 7)\<rparr>"

lemma hex_digit_val: "n < 16 \<Longrightarrow> byte_val (hex_digit n) = (if n < 10 then 48 + n else 87 + n)"
  by (simp add: hex_digit_def byte_val_def)

lemma unhex_hex_digit: "n < 16 \<Longrightarrow> unhex_digit (hex_digit n) = Some n"
  by (auto simp: hex_digit_val is_ascii_digit_def in_byte_range_def)

lemma byte_val_less: "byte_val c < 256"
  unfolding byte_val_def by (rule nat_of_char_less_256)

lemma hex_digit_lower: "n < 16 \<Longrightarrow> is_lower_hex (hex_digit n)"
  by (auto simp: hex_digit_val is_lower_hex_def is_ascii_digit_def in_byte_range_def)

lemma demo_unhex_hex: "demo_unhex (demo_hex bs) = Some bs"
proof (induction bs)
  case (Cons b bs)
  have "byte_val b div 16 < 16" using byte_val_less[of b] by simp
  moreover have "(char_of (16 * (byte_val b div 16) + byte_val b mod 16) :: char) = b"
    by (simp add: byte_val_def)
  ultimately show ?case using Cons by (simp add: unhex_hex_digit del: unhex_digit.simps)
qed simp

lemma demo_hex_chars: "c \<in> set (demo_hex bs) \<Longrightarrow> is_lower_hex c"
proof (induction bs)
  case (Cons b bs)
  have "byte_val b div 16 < 16" using byte_val_less[of b] by simp
  with Cons show ?case by (auto simp: hex_digit_lower)
qed simp

lemma demo_hex_length: "length (demo_hex bs) = 2 * length bs"
  by (induction bs) auto

lemma demo_laws [simp]:
  "sha256_law demo_crates" "hex_law demo_crates" "base64_law demo_crates" "aead_law demo_crates"
  "hkdf_law demo_crates" "zstd_law demo_crates"
proof -
  show "sha256_law demo_crates" by (simp add: sha256_law_def demo_crates_def)
  show "hex_law demo_crates"
    by (auto simp: hex_law_def demo_crates_def demo_unhex_hex demo_hex_length demo_hex_chars)
  show "base64_law demo_crates" by (simp add: base64_law_def demo_crates_def)
  have tag: "length demo_tag = 16" by (simp add: demo_tag_def)
  have "c = m @ demo_tag"
    if "drop (length c - 16) c = demo_tag" "take (length c - 16) c = m" for c m :: bytes
    using that append_take_drop_id[of "length c - 16" c] by simp
  with tag show "aead_law demo_crates" by (auto simp: aead_law_def demo_crates_def)
  show "hkdf_law demo_crates" by (simp add: hkdf_law_def demo_crates_def)
  show "zstd_law demo_crates" by (simp add: zstd_law_def demo_crates_def)
qed

end
