(* ===== verification/Model.thy ===== *)
theory Model
  imports Libraries
begin

text \<open>
  The data model of \<open>src/model.rs\<close>: payload references, event identifiers, pending events
  and the append-only event envelope with its validation. \<open>serde_json::Value\<close> is its public
  enum; an object is the list of its entries in iteration order (key order, since the crate is
  built without \<open>preserve_order\<close>). Wall-clock times are nanoseconds since the epoch.
\<close>

section \<open>JSON values\<close>

text \<open>Values are taken as the codec carries them: an optional field that holds \<open>null\<close> is the same
  as one that is absent, and a floating-point number is the one its decimal form reads back as.\<close>

text \<open>A binary floating-point number: not a number, an infinity with its sign, or
  mantissa and binary exponent.\<close>

datatype float_num = FNaN | FInf bool | FNum int int

datatype json_number = PosInt nat | NegInt int | FloatNumber float_num

datatype json =
  JNull | JBool bool | JNumber json_number | JString str | JArray "json list"
| JObject "(str \<times> json) list"

definition json_get :: "json \<Rightarrow> str \<Rightarrow> json option" where
  "json_get v k = (case v of JObject kvs \<Rightarrow> map_of kvs k | _ \<Rightarrow> None)"

definition as_str :: "json \<Rightarrow> str option" where
  "as_str v = (case v of JString s \<Rightarrow> Some s | _ \<Rightarrow> None)"

definition as_u64 :: "json \<Rightarrow> nat option" where
  "as_u64 v = (case v of JNumber (PosInt n) \<Rightarrow> Some n | _ \<Rightarrow> None)"

definition as_bool :: "json \<Rightarrow> bool option" where
  "as_bool v = (case v of JBool b \<Rightarrow> Some b | _ \<Rightarrow> None)"

definition as_array :: "json \<Rightarrow> json list option" where
  "as_array v = (case v of JArray vs \<Rightarrow> Some vs | _ \<Rightarrow> None)"

definition as_object :: "json \<Rightarrow> (str \<times> json) list option" where
  "as_object v = (case v of JObject kvs \<Rightarrow> Some kvs | _ \<Rightarrow> None)"

lemma as_str_eq_Some: "as_str v = Some x \<longleftrightarrow> v = JString x"
  by (cases v) (auto simp: as_str_def)

section \<open>Events\<close>

definition SCHEMA_VERSION :: nat where "SCHEMA_VERSION = 1"

record payload_ref =
  pr_sha256 :: str
  pr_size :: nat
  pr_media_type :: "str option"
  pr_truncated :: bool

record event_ids =
  task_id :: "str option"
  session_id :: "str option"
  turn_id :: "str option"
  inference_id :: "str option"
  attempt_id :: "str option"
  connection_id :: "str option"
  parent_id :: "str option"
  pid :: "nat option"
  container_id :: "str option"

definition default_event_ids :: event_ids where
  "default_event_ids =
     \<lparr>task_id = None, session_id = None, turn_id = None, inference_id = None, attempt_id = None,
      connection_id = None, parent_id = None, pid = None, container_id = None\<rparr>"

datatype terminal_state = Complete | Error | Cancelled | Incomplete

record redaction_record =
  rr_policy :: str
  rr_fields :: "str list"
  rr_omitted :: "str list"

record pending_event =
  pe_run_id :: str
  pe_source :: str
  pe_kind :: str
  pe_ids :: event_ids
  pe_observed_at :: int
  pe_monotonic_ns :: nat
  pe_raw :: "payload_ref option"
  pe_normalized :: "json option"
  pe_redaction :: redaction_record
  pe_confidence :: "float_num option"
  pe_evidence :: "str list"
  pe_terminal_state :: "terminal_state option"

text \<open>\<open>PendingEvent::new\<close>; \<open>now\<close> is \<open>Utc::now()\<close>.\<close>

definition new_pending_event :: "int \<Rightarrow> str \<Rightarrow> str \<Rightarrow> str \<Rightarrow> pending_event" where
  "new_pending_event now run_id source kind =
     \<lparr>pe_run_id = run_id, pe_source = source, pe_kind = kind, pe_ids = default_event_ids,
      pe_observed_at = now, pe_monotonic_ns = 0, pe_raw = None, pe_normalized = None,
      pe_redaction = \<lparr>rr_policy = ''default'', rr_fields = [], rr_omitted = []\<rparr>,
      pe_confidence = None, pe_evidence = [], pe_terminal_state = None\<rparr>"

record event_envelope =
  schema_version :: nat
  event_id :: uuid
  sequence :: nat
  run_id :: str
  ids :: event_ids
  source :: str
  event :: str
  monotonic_ns :: nat
  wall_time :: int
  raw :: "payload_ref option"
  normalized :: "json option"
  redaction :: redaction_record
  confidence :: "float_num option"
  evidence :: "str list"
  terminal_state :: "terminal_state option"

text \<open>\<open>EventEnvelope::from_pending\<close>; \<open>uid\<close> is the fresh \<open>Uuid::now_v7()\<close>.\<close>

definition from_pending :: "uuid \<Rightarrow> nat \<Rightarrow> pending_event \<Rightarrow> event_envelope" where
  "from_pending uid seq e =
     \<lparr>schema_version = SCHEMA_VERSION, event_id = uid, sequence = seq, run_id = pe_run_id e,
      ids = pe_ids e, source = pe_source e, event = pe_kind e, monotonic_ns = pe_monotonic_ns e,
      wall_time = pe_observed_at e, raw = pe_raw e, normalized = pe_normalized e,
      redaction = pe_redaction e, confidence = pe_confidence e, evidence = pe_evidence e,
      terminal_state = pe_terminal_state e\<rparr>"

section \<open>Validation\<close>

definition validate_text :: "str \<Rightarrow> str \<Rightarrow> nat \<Rightarrow> str + unit" where
  "validate_text name value max_bytes =
     (if value = [] \<or> length value > max_bytes \<or> any_control value
      then Inl (name @ '' is empty, too long, or contains control characters'')
      else Inr ())"

fun validate_texts :: "str \<Rightarrow> str list \<Rightarrow> nat \<Rightarrow> str + unit" where
  "validate_texts name [] max_bytes = Inr ()"
| "validate_texts name (v # vs) max_bytes =
     and_then (validate_text name v max_bytes) (\<lambda>_. validate_texts name vs max_bytes)"

definition validate_text_list :: "str \<Rightarrow> str list \<Rightarrow> nat \<Rightarrow> nat \<Rightarrow> str + unit" where
  "validate_text_list name values maximum_items maximum_bytes =
     (if length values > maximum_items then Inl (name @ '' list has too many items'')
      else validate_texts name values maximum_bytes)"

definition validate_optional_text :: "str \<Rightarrow> str option \<Rightarrow> nat \<Rightarrow> str + unit" where
  "validate_optional_text name value max_bytes =
     (case value of None \<Rightarrow> Inr () | Some v \<Rightarrow> validate_text name v max_bytes)"

text \<open>\<open>EventIds::validate\<close>: the array of named identifiers in the source's order, then the
  process identifier.\<close>

fun validate_named_ids :: "(str \<times> str option) list \<Rightarrow> str + unit" where
  "validate_named_ids [] = Inr ()"
| "validate_named_ids ((name, value) # rest) =
     and_then (validate_optional_text name value 1024) (\<lambda>_. validate_named_ids rest)"

definition validate_event_ids :: "event_ids \<Rightarrow> str + unit" where
  "validate_event_ids i =
     and_then
       (validate_named_ids
         [(''task ID'', task_id i), (''session ID'', session_id i), (''turn ID'', turn_id i),
          (''inference ID'', inference_id i), (''attempt ID'', attempt_id i),
          (''connection ID'', connection_id i), (''parent ID'', parent_id i),
          (''container ID'', container_id i)])
       (\<lambda>_. if pid i = Some 0 then Inl ''process ID must be positive'' else Inr ())"

text \<open>\<open>(0.0..=1.0).contains(&confidence)\<close>; a NaN compares false.\<close>

definition in_unit_interval :: "float_num \<Rightarrow> bool" where
  "in_unit_interval x =
     (case x of FNaN \<Rightarrow> False | FInf _ \<Rightarrow> False
      | FNum m e \<Rightarrow> 0 \<le> m \<and> (if 0 \<le> e then m * 2 ^ nat e \<le> 1 else m \<le> 2 ^ nat (- e)))"

definition validate_payload_ref :: "payload_ref \<Rightarrow> str + unit" where
  "validate_payload_ref r =
     and_then (ok_or (strip_prefix ''sha256:'' (pr_sha256 r))
                 ''payload reference must use the sha256: prefix'')
       (\<lambda>hash. if length hash \<noteq> 64 \<or> \<not> list_all is_lower_hex hash
          then Inl ''payload reference contains an invalid SHA-256 digest''
          else (case pr_media_type r of
             None \<Rightarrow> Inr ()
           | Some m \<Rightarrow>
              if m = [] \<or> length m > 1024
                 \<or> list_ex (\<lambda>c. c = CHR 0x00 \<or> c = carriage_return \<or> c = newline) m
              then Inl ''payload media type is too long or contains delimiters''
              else Inr ()))"

definition validate_envelope :: "('x) crates_scheme \<Rightarrow> event_envelope \<Rightarrow> str + unit" where
  "validate_envelope L e =
     (if schema_version e \<noteq> SCHEMA_VERSION then Inl ''unsupported event schema version''
      else if sequence e = 0 then Inl ''event sequence must be positive''
      else if event_id e = 0 then Inl ''event ID must not be nil''
      else if uuid_version L (event_id e) \<noteq> 7 then Inl ''event ID must be a time-ordered UUIDv7''
      else
        and_then (validate_text ''run ID'' (run_id e) 256) (\<lambda>_.
        and_then (validate_text ''event source'' (source e) 128) (\<lambda>_.
        and_then (validate_text ''event name'' (event e) 256) (\<lambda>_.
        and_then (validate_event_ids (ids e)) (\<lambda>_.
        and_then (case confidence e of
                    Some c \<Rightarrow> (if \<not> in_unit_interval c
                       then Inl ''event confidence must be between zero and one'' else Inr ())
                  | None \<Rightarrow> Inr ()) (\<lambda>_.
        and_then (case raw e of Some r \<Rightarrow> validate_payload_ref r | None \<Rightarrow> Inr ()) (\<lambda>_.
        and_then (validate_text ''redaction policy'' (rr_policy (redaction e)) 128) (\<lambda>_.
        and_then (validate_text_list ''redacted field'' (rr_fields (redaction e)) 1024 1024) (\<lambda>_.
        and_then (validate_text_list ''omitted field'' (rr_omitted (redaction e)) 1024 1024) (\<lambda>_.
        validate_text_list ''evidence label'' (evidence e) 256 1024))))))))))"

section \<open>Lemmas\<close>

definition valid_text :: "str \<Rightarrow> nat \<Rightarrow> bool" where
  "valid_text value max_bytes \<longleftrightarrow> value \<noteq> [] \<and> length value \<le> max_bytes \<and> \<not> any_control value"

lemma validate_text_ok [simp]: "validate_text name v n = Inr () \<longleftrightarrow> valid_text v n"
  by (auto simp: validate_text_def valid_text_def)

lemma validate_texts_ok: "validate_texts name vs n = Inr () \<longleftrightarrow> (\<forall>v\<in>set vs. valid_text v n)"
  by (induction vs) (auto simp: and_then_eq_Inr)

lemma validate_text_list_ok:
  "validate_text_list name vs items n = Inr () \<longleftrightarrow> length vs \<le> items \<and> (\<forall>v\<in>set vs. valid_text v n)"
  by (auto simp: validate_text_list_def validate_texts_ok)

lemma validate_envelope_sequence: "validate_envelope L e = Inr () \<Longrightarrow> 0 < sequence e"
  by (auto simp: validate_envelope_def split: if_splits)

lemma validate_envelope_run_id: "validate_envelope L e = Inr () \<Longrightarrow> valid_text (run_id e) 256"
  by (auto simp: validate_envelope_def and_then_eq_Inr split: if_splits)

lemma validate_envelope_redaction:
  "validate_envelope L e = Inr () \<Longrightarrow>
   length (rr_fields (redaction e)) \<le> 1024 \<and> (\<forall>v\<in>set (rr_fields (redaction e)). valid_text v 1024)"
  by (auto simp: validate_envelope_def and_then_eq_Inr validate_text_list_ok split: if_splits)

lemma from_pending_simps [simp]:
  "sequence (from_pending u n e) = n" "event_id (from_pending u n e) = u"
  "run_id (from_pending u n e) = pe_run_id e"
  by (simp_all add: from_pending_def)

end
