(* ===== verification/Sse.thy ===== *)
theory Sse
  imports Prelude
begin

text \<open>
  The incremental server-sent-events parser of \<open>src/sse.rs\<close>: the buffer with its size limit,
  the search for the blank line that ends an event, the field parser, and \<open>push\<close>, which
  drains every complete event from the buffer.
\<close>

section \<open>Model\<close>

record sse_event =
  sse_raw :: bytes
  sse_name :: "str option"
  sse_id :: "str option"
  sse_retry_ms :: "nat option"
  sse_data :: bytes
  sse_valid_utf8 :: bool

datatype sse_error = EventTooLarge nat

record sse_parser =
  sse_buffer :: bytes
  max_event_bytes :: nat

definition new_sse_parser :: "nat \<Rightarrow> sse_parser" where
  "new_sse_parser limit = \<lparr>sse_buffer = [], max_event_bytes = limit\<rparr>"

definition DEFAULT_MAX_EVENT_BYTES :: nat where
  "DEFAULT_MAX_EVENT_BYTES = 8 * 1024 * 1024"

definition default_sse_parser :: sse_parser where
  "default_sse_parser = new_sse_parser DEFAULT_MAX_EVENT_BYTES"

text \<open>The loop of \<open>find_event_end\<close>: the index, the count of consecutive line ends, and the
  bytes from the index on. A CR LF pair is consumed as one line end.\<close>

definition line_step :: "char \<Rightarrow> bytes \<Rightarrow> nat" where
  "line_step b bs = (if b = carriage_return \<and> take 1 bs = [newline] then 2 else 1)"

definition line_count :: "char \<Rightarrow> nat \<Rightarrow> nat" where
  "line_count b n = (if b = carriage_return \<or> b = newline then n + 1 else 0)"

fun event_end :: "nat \<Rightarrow> nat \<Rightarrow> bytes \<Rightarrow> nat option" where
  "event_end index consecutive [] = None"
| "event_end index consecutive (b # bs) =
     (if line_count b consecutive \<ge> 2 then Some (index + line_step b bs)
      else event_end (index + line_step b bs) (line_count b consecutive)
             (drop (line_step b bs - 1) bs))"

definition find_event_end :: "bytes \<Rightarrow> nat option" where
  "find_event_end bs = event_end 0 0 bs"

text \<open>The mutable locals of \<open>parse_event\<close>.\<close>

record sse_fields =
  f_event :: "str option"
  f_id :: "str option"
  f_retry_ms :: "nat option"
  f_data_lines :: "bytes list"
  f_valid_utf8 :: bool

text \<open>A line as field name and value: the text before the first colon and the text after it
  with one leading space removed, or the whole line with an empty value.\<close>

definition split_field :: "bytes \<Rightarrow> bytes \<times> bytes" where
  "split_field line =
     (if CHR '':'' \<in> set line then
        (let field = takeWhile (\<lambda>c. c \<noteq> CHR '':'') line;
             value = drop (length field + 1) line
         in (field, (case value of CHR '' '' # rest \<Rightarrow> rest | _ \<Rightarrow> value)))
      else (line, []))"

definition parse_line :: "sse_fields \<Rightarrow> bytes \<Rightarrow> sse_fields" where
  "parse_line f line =
     (if line = [] \<or> take 1 line = '':'' then f
      else
        (case split_field line of (field, value) \<Rightarrow>
           if field = ''event'' then
             (if utf8_valid value then f\<lparr>f_event := Some value\<rparr> else f\<lparr>f_valid_utf8 := False\<rparr>)
           else if field = ''id'' then
             (if utf8_valid value \<and> CHR 0x00 \<notin> set value then f\<lparr>f_id := Some value\<rparr>
              else f\<lparr>f_valid_utf8 := False\<rparr>)
           else if field = ''retry'' then
             f\<lparr>f_retry_ms := (if utf8_valid value then parse_uint U64_MAX value else None)\<rparr>
           else if field = ''data'' then
             (let f' = (if utf8_valid value then f else f\<lparr>f_valid_utf8 := False\<rparr>)
              in f'\<lparr>f_data_lines := f_data_lines f' @ [value]\<rparr>)
           else f))"

definition is_line_end :: "char \<Rightarrow> bool" where
  "is_line_end c \<longleftrightarrow> c = newline \<or> c = carriage_return"

fun join_lines :: "bytes list \<Rightarrow> bytes" where
  "join_lines [] = []"
| "join_lines [l] = l"
| "join_lines (l # ls) = l @ newline # join_lines ls"

definition parse_event :: "bytes \<Rightarrow> sse_event" where
  "parse_event raw_bytes =
     (let f = foldl parse_line
                \<lparr>f_event = None, f_id = None, f_retry_ms = None, f_data_lines = [], f_valid_utf8 = True\<rparr>
                (split_on is_line_end raw_bytes)
      in \<lparr>sse_raw = raw_bytes, sse_name = f_event f, sse_id = f_id f, sse_retry_ms = f_retry_ms f,
          sse_data = join_lines (f_data_lines f), sse_valid_utf8 = f_valid_utf8 f\<rparr>)"

lemma line_step_le: "1 \<le> line_step b bs \<and> line_step b bs \<le> 1 + length bs"
  by (cases bs) (auto simp: line_step_def)

lemma event_end_bounds: "event_end i n bs = Some k \<Longrightarrow> i < k \<and> k \<le> i + length bs"
proof (induction i n bs rule: event_end.induct)
  case (2 i n b bs)
  with line_step_le[of b bs] show ?case by (cases "line_count b n \<ge> 2") auto
qed simp

lemma find_event_end_bounds: "find_event_end bs = Some k \<Longrightarrow> 0 < k \<and> k \<le> length bs"
  using event_end_bounds[of 0 0 bs k] by (simp add: find_event_end_def)

text \<open>The \<open>while let\<close> loop of \<open>push\<close>: the remaining buffer and the outcome. An oversized
  event clears the buffer.\<close>

function drain_events :: "nat \<Rightarrow> bytes \<Rightarrow> sse_event list \<Rightarrow> bytes \<times> (sse_error + sse_event list)" where
  "drain_events limit buf output =
     (case find_event_end buf of
        None \<Rightarrow> (buf, Inr output)
      | Some e \<Rightarrow>
          if e > limit then ([], Inl (EventTooLarge limit))
          else drain_events limit (drop e buf) (output @ [parse_event (take e buf)]))"
  by pat_completeness auto
termination
  by (relation "measure (\<lambda>(limit, buf, output). length buf)") (auto dest!: find_event_end_bounds)

declare drain_events.simps [simp del]

definition push :: "sse_parser \<Rightarrow> bytes \<Rightarrow> sse_parser \<times> (sse_error + sse_event list)" where
  "push p bs =
     (case drain_events (max_event_bytes p) (sse_buffer p @ bs) [] of
        (buf, Inl e) \<Rightarrow> (p\<lparr>sse_buffer := buf\<rparr>, Inl e)
      | (buf, Inr output) \<Rightarrow>
          if length buf > max_event_bytes p
          then (p\<lparr>sse_buffer := []\<rparr>, Inl (EventTooLarge (max_event_bytes p)))
          else (p\<lparr>sse_buffer := buf\<rparr>, Inr output))"

definition finish :: "sse_parser \<Rightarrow> bytes option" where
  "finish p = (if sse_buffer p = [] then None else Some (sse_buffer p))"

section \<open>Where events end\<close>

text \<open>A chunk boundary that separates the two bytes of a CR LF line end.\<close>

definition splits_crlf :: "bytes \<Rightarrow> bytes \<Rightarrow> bool" where
  "splits_crlf xs ys \<longleftrightarrow> xs \<noteq> [] \<and> last xs = carriage_return \<and> take 1 ys = [newline]"

lemma splits_crlf_step:
  "\<not> splits_crlf (b # bs) ys \<Longrightarrow> \<not> splits_crlf (drop (line_step b bs - 1) bs) ys"
  by (cases bs) (auto simp: splits_crlf_def line_step_def split: if_splits)

lemma line_step_append: "\<not> splits_crlf (b # bs) ys \<Longrightarrow> line_step b (bs @ ys) = line_step b bs"
  by (cases bs) (auto simp: splits_crlf_def line_step_def)

lemma line_step_within [simp]: "line_step b bs - Suc (length bs) = 0"
  using line_step_le[of b bs] by simp

lemma event_end_extend:
  "event_end i n xs = Some k \<Longrightarrow> \<not> splits_crlf xs ys \<Longrightarrow> event_end i n (xs @ ys) = Some k"
proof (induction i n xs rule: event_end.induct)
  case (2 i n b bs)
  then show ?case
    using splits_crlf_step[of b bs ys]
    by (cases "line_count b n \<ge> 2") (simp_all add: line_step_append)
qed simp

lemma event_end_beyond:
  "event_end i n xs = None \<Longrightarrow> event_end i n (xs @ ys) = Some k \<Longrightarrow> \<not> splits_crlf xs ys \<Longrightarrow>
   i + length xs < k"
proof (induction i n xs rule: event_end.induct)
  case (1 i n)
  then show ?case using event_end_bounds[of i n ys k] by simp
next
  case (2 i n b bs)
  then have small: "\<not> line_count b n \<ge> 2" by (auto split: if_splits)
  with 2 splits_crlf_step[of b bs ys]
  have "i + line_step b bs + length (drop (line_step b bs - 1) bs) < k"
    by (simp add: line_step_append)
  then show ?case using line_step_le[of b bs] by simp
qed

lemma line_step_take: "line_step b bs \<le> Suc m \<Longrightarrow> line_step b (take m bs) = line_step b bs"
  by (cases m; cases bs) (auto simp: line_step_def split: if_splits)

lemma event_end_take: "event_end i n bs = Some k \<Longrightarrow> event_end i n (take (k - i) bs) = Some k"
proof (induction i n bs rule: event_end.induct)
  case (2 i n b bs)
  have k: "i + line_step b bs \<le> k"
    using 2(2) event_end_bounds[of "i + line_step b bs" "line_count b n" "drop (line_step b bs - 1) bs" k]
    by (auto split: if_splits)
  obtain m where m: "k - i = Suc m" using k line_step_le[of b bs] by (cases "k - i") auto
  with k have step: "line_step b (take m bs) = line_step b bs" by (simp add: line_step_take)
  have "m - (line_step b bs - 1) = k - (i + line_step b bs)"
    using m k line_step_le[of b bs] by simp
  then have "drop (line_step b bs - 1) (take m bs) = take (k - (i + line_step b bs)) (drop (line_step b bs - 1) bs)"
    by (simp add: drop_take)
  with 2 m step show ?case by (auto split: if_splits)
qed simp

lemmas find_event_end_extend = event_end_extend[of 0 0, folded find_event_end_def]
lemmas find_event_end_beyond = event_end_beyond[of 0 0, folded find_event_end_def, simplified]
lemmas find_event_end_take = event_end_take[of 0 0, folded find_event_end_def, simplified]

section \<open>Draining the buffer\<close>

lemma drain_output:
  "drain_events limit buf out = (rest, r) \<Longrightarrow>
   drain_events limit buf (pre @ out) = (rest, case r of Inl e \<Rightarrow> Inl e | Inr evs \<Rightarrow> Inr (pre @ evs))"
proof (induction limit buf out rule: drain_events.induct)
  case (1 limit buf out)
  note unfold = drain_events.simps[of limit buf]
  show ?case
  proof (cases "find_event_end buf")
    case None
    with 1(2) have "rest = buf" "r = Inr out" by (simp_all add: unfold)
    with None show ?thesis by (simp add: drain_events.simps)
  next
    case (Some e)
    with 1 show ?thesis by (cases "e > limit") (auto simp: unfold)
  qed
qed

lemma drain_append:
  assumes "drain_events limit xs out = (rest, Inr evs)" and "\<not> splits_crlf xs ys"
  shows "drain_events limit (xs @ ys) out = drain_events limit (rest @ ys) evs
         \<and> \<not> splits_crlf rest ys \<and> find_event_end rest = None"
  using assms
proof (induction limit xs out rule: drain_events.induct)
  case (1 limit buf out)
  show ?case
  proof (cases "find_event_end buf")
    case None
    with 1 show ?thesis by (auto simp: drain_events.simps[of limit buf])
  next
    case (Some e)
    then have e: "e \<le> length buf" "find_event_end (buf @ ys) = Some e"
      using find_event_end_bounds find_event_end_extend[OF Some 1(3)] by auto
    with Some 1(2) have small: "\<not> e > limit" by (auto simp: drain_events.simps[of limit buf])
    moreover have "\<not> splits_crlf (drop e buf) ys"
      using 1(3) by (cases "e < length buf") (auto simp: splits_crlf_def)
    ultimately show ?thesis
      using 1(1)[OF Some] 1(2) Some e
      by (simp add: drain_events.simps[of limit buf] drain_events.simps[of limit "buf @ ys"])
  qed
qed

lemma drain_append_error:
  assumes "drain_events limit xs out = (rest, Inl err)" and "\<not> splits_crlf xs ys"
  shows "drain_events limit (xs @ ys) out = (rest, Inl err)"
  using assms
proof (induction limit xs out rule: drain_events.induct)
  case (1 limit buf out)
  obtain e where Some: "find_event_end buf = Some e"
    using 1(2) by (cases "find_event_end buf") (auto simp: drain_events.simps[of limit buf])
  then have e: "e \<le> length buf" "find_event_end (buf @ ys) = Some e"
    using find_event_end_bounds find_event_end_extend[OF Some 1(3)] by auto
  moreover have "\<not> splits_crlf (drop e buf) ys"
    using 1(3) by (cases "e < length buf") (auto simp: splits_crlf_def)
  ultimately show ?case
    using 1(1)[OF Some] 1(2) Some
    by (cases "e > limit")
      (simp_all add: drain_events.simps[of limit buf] drain_events.simps[of limit "buf @ ys"])
qed

lemma drain_error_limit: "drain_events limit buf out = (rest, Inl err) \<Longrightarrow> rest = [] \<and> err = EventTooLarge limit"
proof (induction limit buf out rule: drain_events.induct)
  case (1 limit buf out)
  then show ?case
    by (cases "find_event_end buf") (auto simp: drain_events.simps[of limit buf] split: if_splits)
qed

lemma drain_overfull:
  assumes "find_event_end buf = None" "limit < length buf" "\<not> splits_crlf buf ys"
  shows "case drain_events limit (buf @ ys) out of (rest, Inl e) \<Rightarrow> True | (rest, Inr evs) \<Rightarrow> limit < length rest"
proof (cases "find_event_end (buf @ ys)")
  case None
  with assms show ?thesis by (simp add: drain_events.simps)
next
  case (Some k)
  with assms have "length buf < k" by (intro find_event_end_beyond)
  with assms Some show ?thesis by (simp add: drain_events.simps[of limit "buf @ ys"])
qed

text \<open>Every event produced so far is well formed: it is the parse of its raw bytes, which are
  not empty, end at their first blank line and respect the limit.\<close>

definition event_ok :: "nat \<Rightarrow> sse_event \<Rightarrow> bool" where
  "event_ok limit ev \<longleftrightarrow> ev = parse_event (sse_raw ev) \<and> length (sse_raw ev) \<le> limit
     \<and> find_event_end (sse_raw ev) = Some (length (sse_raw ev))"

lemma sse_raw_parse_event [simp]: "sse_raw (parse_event bs) = bs"
  by (simp add: parse_event_def Let_def)

lemma drain_invariant:
  assumes "drain_events limit buf out = (rest, Inr evs)" and "\<forall>ev\<in>set out. event_ok limit ev"
  shows "concat (map sse_raw out) @ buf = concat (map sse_raw evs) @ rest
         \<and> find_event_end rest = None \<and> (\<forall>ev\<in>set evs. event_ok limit ev)"
  using assms
proof (induction limit buf out rule: drain_events.induct)
  case (1 limit buf out)
  show ?case
  proof (cases "find_event_end buf")
    case None
    with 1 show ?thesis by (auto simp: drain_events.simps[of limit buf])
  next
    case (Some e)
    then have e: "e \<le> length buf" using find_event_end_bounds by blast
    from Some 1(2) have small: "\<not> e > limit" by (auto simp: drain_events.simps[of limit buf])
    have "event_ok limit (parse_event (take e buf))"
      using Some e small find_event_end_take[OF Some] by (simp add: event_ok_def)
    with 1(1)[OF Some small] 1(2,3) Some small
    have "concat (map sse_raw (out @ [parse_event (take e buf)])) @ drop e buf = concat (map sse_raw evs) @ rest
         \<and> find_event_end rest = None \<and> (\<forall>ev\<in>set evs. event_ok limit ev)"
      by (simp add: drain_events.simps[of limit buf])
    then show ?thesis by simp
  qed
qed

lemma push_buffer:
  assumes "push p bs = (p', Inr evs)"
  shows "\<exists>out. sse_buffer p @ bs = out @ sse_buffer p'"
proof -
  obtain rest where "drain_events (max_event_bytes p) (sse_buffer p @ bs) [] = (rest, Inr evs)" "p' = p\<lparr>sse_buffer := rest\<rparr>"
    using assms by (auto simp: push_def split: prod.splits sum.splits if_splits)
  then show ?thesis using drain_invariant by fastforce
qed

section \<open>Chunks\<close>

text \<open>Two chunks, the boundary between which does not separate a CR from its LF.\<close>

lemma push_append:
  assumes "\<not> splits_crlf (sse_buffer p @ a) b"
  shows "push p (a @ b) =
     (case push p a of
        (p1, Inl e) \<Rightarrow> (p1, Inl e)
      | (p1, Inr e1) \<Rightarrow>
          (case push p1 b of (p2, Inl e) \<Rightarrow> (p2, Inl e) | (p2, Inr e2) \<Rightarrow> (p2, Inr (e1 @ e2))))"
proof -
  let ?m = "max_event_bytes p" and ?x = "sse_buffer p @ a"
  obtain rest r where d: "drain_events ?m ?x [] = (rest, r)" by fastforce
  show ?thesis
  proof (cases r)
    case (Inl e)
    with d drain_append_error[OF _ assms] have "drain_events ?m (?x @ b) [] = (rest, Inl e)" by simp
    with d Inl show ?thesis by (simp add: push_def)
  next
    case (Inr evs)
    with d drain_append[OF _ assms]
    have ab: "drain_events ?m (?x @ b) [] = drain_events ?m (rest @ b) evs"
      and rest: "\<not> splits_crlf rest b" "find_event_end rest = None" by auto
    show ?thesis
    proof (cases "length rest \<le> ?m")
      case True
      obtain rest' r' where d': "drain_events ?m (rest @ b) [] = (rest', r')" by fastforce
      from drain_output[OF d', of evs] ab d d' Inr True show ?thesis
        by (cases r') (simp_all add: push_def)
    next
      case False
      then have over: "?m < length rest" by simp
      show ?thesis
        using drain_overfull[OF rest(2) over rest(1), of evs] ab d Inr False
        by (auto simp: push_def split: prod.splits sum.splits dest: drain_error_limit)
    qed
  qed
qed

text \<open>The bytes of a stream pushed chunk by chunk up to the first error: the parser, the events
  delivered and the error.\<close>

fun push_chunks :: "sse_parser \<Rightarrow> bytes list \<Rightarrow> sse_parser \<times> sse_event list \<times> sse_error option" where
  "push_chunks p [] = (p, [], None)"
| "push_chunks p (c # cs) =
     (case push p c of
        (p1, Inl e) \<Rightarrow> (p1, [], Some e)
      | (p1, Inr evs) \<Rightarrow> (case push_chunks p1 cs of (p2, evs', err) \<Rightarrow> (p2, evs @ evs', err)))"

text \<open>No boundary between the chunks separates a CR from its LF, after the bytes \<open>before\<close>.\<close>

fun keeps_pairs :: "bytes \<Rightarrow> bytes list \<Rightarrow> bool" where
  "keeps_pairs before [] = True"
| "keeps_pairs before (c # cs) = (\<not> splits_crlf (before @ c) (concat cs) \<and> keeps_pairs (before @ c) cs)"

lemma keeps_pairs_suffix: "keeps_pairs (out @ before) cs \<Longrightarrow> keeps_pairs before cs"
proof (induction cs arbitrary: before)
  case (Cons c cs)
  have "keeps_pairs (out @ (before @ c)) cs" using Cons.prems by simp
  then have "keeps_pairs (before @ c) cs" by (rule Cons.IH)
  moreover have "\<not> splits_crlf (before @ c) (concat cs)" using Cons.prems by (auto simp: splits_crlf_def last_append split: if_splits)
  ultimately show ?case by simp
qed simp

section \<open>Properties\<close>

text \<open>C17: A successful \<open>push\<close> loses, invents and reorders no byte: the raw bytes of the emitted events
  followed by what stays buffered are exactly the old buffer followed by the new bytes; each
  event is the parse of its raw bytes, ends at its first blank line and respects the limit;
  what stays buffered holds no complete event and respects the limit too.\<close>

theorem push_lossless:
  assumes "push p bs = (p', Inr evs)"
  shows "concat (map sse_raw evs) @ sse_buffer p' = sse_buffer p @ bs
     \<and> (\<forall>ev\<in>set evs. event_ok (max_event_bytes p) ev)
     \<and> find_event_end (sse_buffer p') = None \<and> length (sse_buffer p') \<le> max_event_bytes p
     \<and> max_event_bytes p' = max_event_bytes p"
proof -
  obtain rest where d: "drain_events (max_event_bytes p) (sse_buffer p @ bs) [] = (rest, Inr evs)"
    and p': "p' = p\<lparr>sse_buffer := rest\<rparr>" "length rest \<le> max_event_bytes p"
    using assms by (auto simp: push_def split: prod.splits sum.splits if_splits)
  from drain_invariant[OF d] p' show ?thesis by simp
qed

theorem push_lossless_witness:
  "let p = new_sse_parser 64; (p', r) = push p ''data: a\<newline>\<newline>dat'' in
     r = Inr [parse_event ''data: a\<newline>\<newline>''] \<and> sse_buffer p' = ''dat''
     \<and> concat (map sse_raw [parse_event ''data: a\<newline>\<newline>'']) @ sse_buffer p' = ''data: a\<newline>\<newline>dat''"
proof -
  have "push (new_sse_parser 64) ''data: a\<newline>\<newline>dat'' =
      (\<lparr>sse_buffer = ''dat'', max_event_bytes = 64\<rparr>, Inr [parse_event ''data: a\<newline>\<newline>''])"
    by (simp add: push_def new_sse_parser_def drain_events.simps find_event_end_def line_step_def line_count_def)
  from push_lossless[OF this] this show ?thesis by (simp add: new_sse_parser_def)
qed

text \<open>C18: Chunking does not matter away from CR LF pairs. When no boundary separates a CR from its LF, the
  chunks of a stream pushed one after the other end in the parser and the error, if any, of the
  stream pushed at once; without an error they deliver the same events, and with one the single
  push delivers none of the events that the earlier chunks completed.\<close>

theorem push_chunking:
  assumes "cs \<noteq> []" "keeps_pairs (sse_buffer p) cs"
  shows "push p (concat cs) =
     (case push_chunks p cs of (p', evs, None) \<Rightarrow> (p', Inr evs) | (p', _, Some e) \<Rightarrow> (p', Inl e))"
  using assms
proof (induction cs arbitrary: p)
  case (Cons c cs)
  show ?case
  proof (cases "push p c")
    case (Pair p1 r)
    show ?thesis
    proof (cases "cs = [] \<or> \<not> is_ok r")
      case True
      then consider "cs = []" | e where "r = Inl e" by (cases r) auto
      then show ?thesis
      proof cases
        case 1
        then show ?thesis using Pair by (cases r) simp_all
      next
        case 2
        then show ?thesis using Pair push_append[of p c "concat cs"] Cons.prems(2) by simp
      qed
    next
      case False
      then obtain evs where r: "r = Inr evs" by (auto simp: is_ok_iff)
      obtain out where "sse_buffer p @ c = out @ sse_buffer p1" using push_buffer Pair r by blast
      then have "keeps_pairs (sse_buffer p1) cs" using Cons.prems(2) keeps_pairs_suffix by auto
      with Cons.IH False have "push p1 (concat cs) =
          (case push_chunks p1 cs of (p', evs, None) \<Rightarrow> (p', Inr evs) | (p', _, Some e) \<Rightarrow> (p', Inl e))" by blast
      then show ?thesis
        using push_append[of p c "concat cs"] Cons.prems(2) Pair r by (auto split: prod.splits option.splits)
    qed
  qed
qed simp

text \<open>Two events, the second too large: in three chunks the first is delivered, in one it is not.\<close>

theorem push_chunking_witness:
  "keeps_pairs (sse_buffer (new_sse_parser 10)) [''data: a\<newline>'', ''\<newline>data: '', ''too long\<newline>\<newline>'']
   \<and> push_chunks (new_sse_parser 10) [''data: a\<newline>'', ''\<newline>data: '', ''too long\<newline>\<newline>'']
       = (new_sse_parser 10, [parse_event ''data: a\<newline>\<newline>''], Some (EventTooLarge 10))
   \<and> push (new_sse_parser 10) (''data: a\<newline>'' @ ''\<newline>data: '' @ ''too long\<newline>\<newline>'')
       = (new_sse_parser 10, Inl (EventTooLarge 10))"
proof -
  let ?cs = "[''data: a\<newline>'', ''\<newline>data: '', ''too long\<newline>\<newline>'']"
  have pairs: "keeps_pairs (sse_buffer (new_sse_parser 10)) ?cs" by (simp add: splits_crlf_def new_sse_parser_def)
  have "push_chunks (new_sse_parser 10) ?cs = (new_sse_parser 10, [parse_event ''data: a\<newline>\<newline>''], Some (EventTooLarge 10))"
    by (simp add: push_def new_sse_parser_def drain_events.simps find_event_end_def line_step_def line_count_def)
  then show ?thesis using push_chunking[of ?cs "new_sse_parser 10"] pairs by simp
qed

lemma event_end_cr:
  "event_end i n (xs @ [carriage_return, newline]) = Some (i + length xs + 2) \<Longrightarrow>
   event_end i n (xs @ [carriage_return]) = Some (i + length xs + 1)"
proof (induction i n xs rule: event_end.induct)
  case (1 i n)
  then show ?case by (auto simp: line_step_def line_count_def split: if_splits)
next
  case (2 i n b bs)
  have step: "line_step b (bs @ [carriage_return, newline]) = line_step b bs" "line_step b (bs @ [carriage_return]) = line_step b bs"
    by (cases bs; simp add: line_step_def)+
  have "\<not> line_count b n \<ge> 2" using 2(2) line_step_le[of b bs] by (auto simp: step split: if_splits)
  moreover have "i + line_step b bs + length (drop (line_step b bs - 1) bs) = Suc (i + length bs)"
    using line_step_le[of b bs] by simp
  ultimately show ?case using 2 line_step_le[of b bs] by (simp add: step)
qed

lemma find_event_end_nothing [simp]: "find_event_end [] = None" "find_event_end [newline] = None"
  by (simp_all add: find_event_end_def line_step_def line_count_def)

lemma push_one_event:
  assumes "find_event_end (sse_buffer p @ bs) = Some (length (sse_buffer p @ bs))" "length (sse_buffer p @ bs) \<le> max_event_bytes p"
  shows "push p bs = (p\<lparr>sse_buffer := []\<rparr>, Inr [parse_event (sse_buffer p @ bs)])"
  using assms by (simp add: push_def drain_events.simps[of _ "sse_buffer p @ bs"] drain_events.simps[of _ "[]"])

lemma parse_event_trailing_newline:
  "parse_event (xs @ [carriage_return, newline]) = (parse_event (xs @ [carriage_return]))\<lparr>sse_raw := xs @ [carriage_return, newline]\<rparr>"
proof -
  have ends: "is_line_end newline" "is_line_end carriage_return" by (simp_all add: is_line_end_def)
  have "split_on is_line_end (xs @ [carriage_return, newline]) = split_on is_line_end (xs @ [carriage_return]) @ [[]]"
    using split_on_append_sep[of is_line_end carriage_return xs "[]"] split_on_append_sep[of is_line_end carriage_return xs "[newline]"]
      split_on_append_sep[of is_line_end newline "[]" "[]"] ends by simp
  then show ?thesis by (simp add: parse_event_def parse_line_def Let_def)
qed

text \<open>C19: The exception at CR LF pairs. When an event ends in a CR LF pair and the pair is split between two
  chunks, the event is emitted at the CR, with the same fields as in one chunk and without the LF
  in its raw bytes; the LF stays behind, and a stream that ends there finishes with an
  unterminated one-byte fragment although in one chunk it leaves none. \<open>find_event_end\<close> takes a
  CR at the end of the buffer for a whole line end.\<close>

theorem crlf_terminator_split:
  assumes "find_event_end (sse_buffer p @ a @ [carriage_return, newline]) = Some (length (sse_buffer p @ a) + 2)"
    and "length (sse_buffer p @ a) + 2 \<le> max_event_bytes p"
  shows "\<exists>ev. push p (a @ [carriage_return, newline]) =
           (p\<lparr>sse_buffer := []\<rparr>, Inr [ev\<lparr>sse_raw := sse_buffer p @ a @ [carriage_return, newline]\<rparr>])
     \<and> finish (fst (push p (a @ [carriage_return, newline]))) = None
     \<and> sse_raw ev = sse_buffer p @ a @ [carriage_return]
     \<and> push_chunks p [a @ [carriage_return], [newline]] = (p\<lparr>sse_buffer := [newline]\<rparr>, [ev], None)
     \<and> finish (fst (push_chunks p [a @ [carriage_return], [newline]])) = Some [newline]"
proof -
  let ?ev = "parse_event ((sse_buffer p @ a) @ [carriage_return])"
  have whole: "push p (a @ [carriage_return, newline]) =
      (p\<lparr>sse_buffer := []\<rparr>, Inr [parse_event ((sse_buffer p @ a) @ [carriage_return, newline])])"
    using push_one_event[of p "a @ [carriage_return, newline]"] assms by simp
  have "find_event_end ((sse_buffer p @ a) @ [carriage_return]) = Some (length (sse_buffer p @ a) + 1)"
    using event_end_cr[of 0 0 "sse_buffer p @ a"] assms(1) by (simp add: find_event_end_def)
  then have "push p (a @ [carriage_return]) = (p\<lparr>sse_buffer := []\<rparr>, Inr [?ev])"
    using push_one_event[of p "a @ [carriage_return]"] assms(2) by simp
  moreover have "push (p\<lparr>sse_buffer := []\<rparr>) [newline] = (p\<lparr>sse_buffer := [newline]\<rparr>, Inr [])"
    using assms(2) by (simp add: push_def drain_events.simps)
  ultimately show ?thesis
    using whole parse_event_trailing_newline[of "sse_buffer p @ a"]
    by (intro exI[of _ ?ev]) (simp add: finish_def)
qed

theorem crlf_terminator_split_witness:
  "\<exists>ev. push default_sse_parser (''data: x'' @ [carriage_return, newline, carriage_return, newline]) =
      (default_sse_parser, Inr [ev\<lparr>sse_raw := ''data: x'' @ [carriage_return, newline, carriage_return, newline]\<rparr>])
    \<and> push_chunks default_sse_parser [''data: x'' @ [carriage_return, newline, carriage_return], [newline]] =
      (default_sse_parser\<lparr>sse_buffer := [newline]\<rparr>, [ev], None)"
proof -
  have "find_event_end (''data: x'' @ [carriage_return, newline, carriage_return, newline]) = Some 11"
    by (simp add: find_event_end_def line_step_def line_count_def)
  then show ?thesis
    using crlf_terminator_split[of default_sse_parser "''data: x'' @ [carriage_return, newline]"]
    by (auto simp: default_sse_parser_def new_sse_parser_def DEFAULT_MAX_EVENT_BYTES_def)
qed

section \<open>Field parsing\<close>

text \<open>An event with a name and data lines, written with any of the three line ends of the
  SSE format.\<close>

definition sse_line_end :: "bytes \<Rightarrow> bool" where
  "sse_line_end eol \<longleftrightarrow> eol = [newline] \<or> eol = [carriage_return] \<or> eol = [carriage_return, newline]"

definition render_event :: "bytes \<Rightarrow> str \<Rightarrow> bytes list \<Rightarrow> bytes" where
  "render_event eol name lines =
     ''event: '' @ name @ eol @ concat (map (\<lambda>l. ''data: '' @ l @ eol) lines) @ eol"

lemma foldl_split_line:
  assumes "sse_line_end eol" and "\<forall>c\<in>set line. \<not> is_line_end c"
  shows "foldl parse_line f (split_on is_line_end (line @ eol @ rest)) =
         foldl parse_line (parse_line f line) (split_on is_line_end rest)"
proof -
  have nil: "parse_line g [] = g" for g by (simp add: parse_line_def)
  have "foldl parse_line f (split_on is_line_end (line @ c # r)) =
        foldl parse_line (parse_line f line) (split_on is_line_end r)" if "is_line_end c" for c r
    using that assms(2) by (simp add: split_on_append_sep split_on_single)
  moreover have "is_line_end newline" "is_line_end carriage_return" by (simp_all add: is_line_end_def)
  ultimately show ?thesis using assms(1) nil by (auto simp: sse_line_end_def)
qed

lemma parse_line_data:
  "utf8_valid l \<Longrightarrow> parse_line f (''data: '' @ l) = f\<lparr>f_data_lines := f_data_lines f @ [l]\<rparr>"
  by (simp add: parse_line_def split_field_def)

lemma parse_line_event: "utf8_valid n \<Longrightarrow> parse_line f (''event: '' @ n) = f\<lparr>f_event := Some n\<rparr>"
  by (simp add: parse_line_def split_field_def)

lemma foldl_data_lines:
  assumes "sse_line_end eol" and "\<forall>l\<in>set ls. utf8_valid l \<and> (\<forall>c\<in>set l. \<not> is_line_end c)"
  shows "foldl parse_line f (split_on is_line_end (concat (map (\<lambda>l. ''data: '' @ l @ eol) ls) @ rest)) =
         foldl parse_line (f\<lparr>f_data_lines := f_data_lines f @ ls\<rparr>) (split_on is_line_end rest)"
  using assms(2)
proof (induction ls arbitrary: f)
  case (Cons l ls)
  have "\<forall>c\<in>set (''data: '' @ l). \<not> is_line_end c" using Cons.prems by (auto simp: is_line_end_def)
  from foldl_split_line[OF assms(1) this] Cons show ?case
    by (simp add: parse_line_data del: append_Cons) (simp add: parse_line_data)
qed simp

text \<open>C20: what \<open>render_event\<close> writes is what \<open>parse_event\<close> reads, for each of the three line
  ends: the event name, the data lines joined by newlines, and a clean UTF-8 flag.\<close>

theorem parse_render_event:
  assumes "sse_line_end eol" and "utf8_valid name" and "\<forall>c\<in>set name. \<not> is_line_end c"
    and "\<forall>l\<in>set lines. utf8_valid l \<and> (\<forall>c\<in>set l. \<not> is_line_end c)"
  shows "parse_event (render_event eol name lines) =
     \<lparr>sse_raw = render_event eol name lines, sse_name = Some name, sse_id = None,
      sse_retry_ms = None, sse_data = join_lines lines, sse_valid_utf8 = True\<rparr>"
proof -
  let ?f0 = "\<lparr>f_event = None, f_id = None, f_retry_ms = None, f_data_lines = [], f_valid_utf8 = True\<rparr>"
  have name: "\<forall>c\<in>set (''event: '' @ name). \<not> is_line_end c" using assms(3) by (auto simp: is_line_end_def)
  have end_lines: "foldl parse_line g (split_on is_line_end ([] @ eol @ [])) = g" for g
    by (subst foldl_split_line[OF assms(1)]) (simp_all add: parse_line_def)
  have "foldl parse_line ?f0 (split_on is_line_end (render_event eol name lines)) =
        ?f0\<lparr>f_event := Some name, f_data_lines := lines\<rparr>"
    using foldl_split_line[OF assms(1) name, of ?f0 "concat (map (\<lambda>l. ''data: '' @ l @ eol) lines) @ eol"]
      foldl_data_lines[OF assms(1,4), of "?f0\<lparr>f_event := Some name\<rparr>" eol] end_lines
    by (simp only: render_event_def parse_line_event[OF assms(2)] append_assoc append_Nil append_Nil2) simp
  then show ?thesis by (simp add: parse_event_def)
qed

theorem parse_render_event_witness:
  "sse_data (parse_event (render_event [carriage_return, newline] ''delta'' [''a'', ''b''])) = ''a\<newline>b''"
  using parse_render_event[of "[carriage_return, newline]" "''delta''" "[''a'', ''b'']"]
  by (simp add: sse_line_end_def is_line_end_def byte_val_def)

end
