(* ===== verification/Ordered_Maps.thy ===== *)
theory Ordered_Maps
  imports Prelude "HOL-Library.Char_ord" "HOL-Library.List_Lexorder"
begin

text \<open>
  \<open>BTreeMap\<close> and \<open>BTreeSet\<close> of the standard library. A map is the list of its entries in key
  order, a set the sorted list of its elements; strings are ordered by their bytes. The
  interface the recorder's components use is the locale \<open>keyed_map\<close>, interpreted on the entry
  lists, with the counting idiom \<open>*map.entry(k).or_default() += n\<close> proved once inside it.
\<close>

section \<open>Entry lists\<close>

fun bt_insert :: "'k::linorder \<Rightarrow> 'v \<Rightarrow> ('k \<times> 'v) list \<Rightarrow> ('k \<times> 'v) list" where
  "bt_insert k v [] = [(k, v)]"
| "bt_insert k v ((k', v') # m) =
     (if k < k' then (k, v) # (k', v') # m
      else if k = k' then (k, v) # m
      else (k', v') # bt_insert k v m)"

fun bt_remove :: "'k \<Rightarrow> ('k \<times> 'v) list \<Rightarrow> ('k \<times> 'v) list" where
  "bt_remove k [] = []"
| "bt_remove k ((k', v') # m) = (if k = k' then m else (k', v') # bt_remove k m)"

definition bt_keys :: "('k \<times> 'v) list \<Rightarrow> 'k list" where "bt_keys m = map fst m"

lemma bt_keys_simps [simp]: "bt_keys [] = []" "bt_keys ((k, v) # m) = k # bt_keys m"
  by (simp_all add: bt_keys_def)

definition bt_wf :: "('k::linorder \<times> 'v) list \<Rightarrow> bool" where
  "bt_wf m \<longleftrightarrow> sorted (bt_keys m) \<and> distinct (bt_keys m)"

lemma map_of_bt_insert [simp]: "map_of (bt_insert k v m) = (map_of m)(k \<mapsto> v)"
  by (induction m) auto

lemma keys_bt_insert [simp]: "set (bt_keys (bt_insert k v m)) = insert k (set (bt_keys m))"
  by (induction k v m rule: bt_insert.induct) auto

lemma bt_wf_Nil [simp]: "bt_wf []"
  by (simp add: bt_wf_def bt_keys_def)

lemma bt_wf_Cons: "bt_wf ((k, v) # m) \<longleftrightarrow> bt_wf m \<and> (\<forall>k'\<in>set (bt_keys m). k < k')"
  by (auto simp: bt_wf_def bt_keys_def order.strict_iff_order)

lemma bt_wf_insert [simp]: "bt_wf m \<Longrightarrow> bt_wf (bt_insert k v m)"
proof (induction m)
  case Nil
  then show ?case by (simp add: bt_wf_def bt_keys_def)
next
  case (Cons e m)
  obtain k' v' where e: "e = (k', v')" by fastforce
  from Cons show ?case
    unfolding e
    by (cases k k' rule: linorder_cases)
      (simp_all add: bt_wf_Cons, meson less_trans, meson order.asym)
qed

lemma map_of_bt_remove:
  "distinct (bt_keys m) \<Longrightarrow> map_of (bt_remove k m) = (map_of m)(k := None)"
proof (induction m)
  case (Cons e m)
  obtain k' v' where e: "e = (k', v')" by fastforce
  have "map_of m k' = None" using Cons.prems e by (simp add: bt_keys_def map_of_eq_None_iff)
  then show ?case using Cons e by (auto simp: bt_keys_def fun_eq_iff)
qed (simp add: fun_eq_iff)

lemma bt_keys_remove: "set (bt_keys (bt_remove k m)) \<subseteq> set (bt_keys m)"
  by (induction k m rule: bt_remove.induct) auto

lemma bt_wf_remove [simp]: "bt_wf m \<Longrightarrow> bt_wf (bt_remove k m)"
proof (induction m)
  case (Cons e m)
  obtain k' v' where e: "e = (k', v')" by fastforce
  from Cons bt_keys_remove[of k m] show ?case unfolding e by (auto simp: bt_wf_Cons)
qed simp

lemma dom_map_of_bt: "dom (map_of m) = set (bt_keys m)"
  by (simp add: bt_keys_def dom_map_of_conv_image_fst)

text \<open>A map is determined by its entries.\<close>

lemma bt_wf_ext:
  assumes "bt_wf m" "bt_wf m'" "map_of m = map_of m'"
  shows "m = m'"
proof -
  have keys: "bt_keys m = bt_keys m'"
    using assms dom_map_of_bt[of m] dom_map_of_bt[of m']
    by (intro sorted_distinct_set_unique) (simp_all add: bt_wf_def)
  then have "map (\<lambda>k. (k, the (map_of m k))) (bt_keys m) = map (\<lambda>k. (k, the (map_of m' k))) (bt_keys m')"
    using assms(3) by simp
  moreover have "map (\<lambda>k. (k, the (map_of n k))) (bt_keys n) = n" if "bt_wf n" for n
  proof -
    have "map_of n (fst e) = Some (snd e)" if "e \<in> set n" for e
      using that \<open>bt_wf n\<close> by (intro map_of_is_SomeI) (simp_all add: bt_wf_def bt_keys_def)
    then show ?thesis by (simp add: bt_keys_def map_idI)
  qed
  ultimately show ?thesis using assms(1,2) by metis
qed

section \<open>The interface\<close>

locale keyed_map =
  fixes lookup :: "'m \<Rightarrow> 'k \<Rightarrow> 'v option"
    and insert_entry :: "'k \<Rightarrow> 'v \<Rightarrow> 'm \<Rightarrow> 'm"
    and remove_entry :: "'k \<Rightarrow> 'm \<Rightarrow> 'm"
    and empty_map :: 'm
    and wf_map :: "'m \<Rightarrow> bool"
  assumes lookup_empty: "lookup empty_map k = None"
    and wf_empty: "wf_map empty_map"
    and lookup_insert: "wf_map m \<Longrightarrow> lookup (insert_entry k v m) k' = (if k' = k then Some v else lookup m k')"
    and wf_insert: "wf_map m \<Longrightarrow> wf_map (insert_entry k v m)"
    and lookup_remove: "wf_map m \<Longrightarrow> lookup (remove_entry k m) k' = (if k' = k then None else lookup m k')"
    and wf_remove: "wf_map m \<Longrightarrow> wf_map (remove_entry k m)"
begin

text \<open>\<open>map.entry(k).or_insert(d)\<close> followed by an update of the slot.\<close>

lemma lookup_update_or:
  "wf_map m \<Longrightarrow>
   lookup (insert_entry k (f (case lookup m k of None \<Rightarrow> d | Some v \<Rightarrow> v)) m) k' =
     (if k' = k then Some (f (case lookup m k of None \<Rightarrow> d | Some v \<Rightarrow> v)) else lookup m k')"
  by (simp add: lookup_insert)

lemma wf_fold_insert:
  "wf_map m \<Longrightarrow> wf_map (fold (\<lambda>x m. insert_entry (key x) (val x m) m) xs m)"
  by (induction xs arbitrary: m) (simp_all add: wf_insert)

text \<open>Counting keys with \<open>entry(k).or_default() += 1\<close> over a list gives, for every key, its
  old count plus its number of occurrences.\<close>

lemma lookup_fold_count:
  assumes inj: "\<And>n. of_count (to_count n) = n" and "wf_map m"
  shows "(case lookup (fold (\<lambda>k m. insert_entry k
              (to_count (Suc (case lookup m k of None \<Rightarrow> 0 | Some v \<Rightarrow> of_count v))) m) ks m) k
          of None \<Rightarrow> 0 | Some v \<Rightarrow> of_count v)
       = (case lookup m k of None \<Rightarrow> 0 | Some v \<Rightarrow> of_count v) + count_list ks k"
  using assms(2)
proof (induction ks arbitrary: m)
  case (Cons x ks)
  then show ?case by (simp add: wf_insert lookup_insert inj)
qed simp

end

interpretation bt: keyed_map map_of bt_insert bt_remove "[]" "bt_wf :: ('k::linorder \<times> 'v) list \<Rightarrow> bool"
proof unfold_locales
  show "map_of (bt_remove k m) k' = (if k' = k then None else map_of m k')"
    if "bt_wf m" for m :: "('k \<times> 'v) list" and k k'
    using that by (simp add: map_of_bt_remove bt_wf_def)
qed simp_all

section \<open>Counters and sets\<close>

definition bt_get_or :: "'v \<Rightarrow> ('k \<times> 'v) list \<Rightarrow> 'k \<Rightarrow> 'v" where
  "bt_get_or d m k = (case map_of m k of None \<Rightarrow> d | Some v \<Rightarrow> v)"

text \<open>\<open>*map.entry(k).or_default() += 1\<close>\<close>

definition bt_increment :: "'k::linorder \<Rightarrow> ('k \<times> nat) list \<Rightarrow> ('k \<times> nat) list" where
  "bt_increment k m = bt_insert k (Suc (bt_get_or 0 m k)) m"

lemma bt_wf_increment [simp]: "bt_wf m \<Longrightarrow> bt_wf (bt_increment k m)"
  by (simp add: bt_increment_def)

lemma bt_get_or_increment_fold:
  "bt_wf m \<Longrightarrow> bt_get_or 0 (fold bt_increment ks m) k = bt_get_or 0 m k + count_list ks k"
proof -
  assume wf: "bt_wf m"
  have increment: "bt_increment =
      (\<lambda>k m. bt_insert k (Suc (case map_of m k of None \<Rightarrow> 0 | Some v \<Rightarrow> v)) m)"
    by (intro ext) (simp add: bt_increment_def bt_get_or_def)
  show ?thesis
    using bt.lookup_fold_count[of "\<lambda>n. n" "\<lambda>n. n" m ks k, OF refl wf]
    unfolding increment bt_get_or_def .
qed

lemma bt_wf_increment_fold [simp]: "bt_wf m \<Longrightarrow> bt_wf (fold bt_increment ks m)"
  by (induction ks arbitrary: m) simp_all

lemma keys_increment_fold: "set (bt_keys (fold bt_increment ks m)) = set (bt_keys m) \<union> set ks"
  by (induction ks arbitrary: m) (auto simp: bt_increment_def)

definition bt_set_insert :: "'a::linorder \<Rightarrow> 'a list \<Rightarrow> 'a list" where
  "bt_set_insert x xs = List.insort_insert x xs"

lemma set_bt_set_insert [simp]: "set (bt_set_insert x xs) = insert x (set xs)"
  by (simp add: bt_set_insert_def set_insort_insert)

lemma bt_set_insert_not_Nil [simp]: "bt_set_insert x xs \<noteq> []"
  using set_bt_set_insert[of x xs] by (metis empty_not_insert set_empty)

lemma sorted_bt_set_insert [simp]: "sorted xs \<Longrightarrow> sorted (bt_set_insert x xs)"
  by (simp add: bt_set_insert_def sorted_insort_insert)

lemma distinct_bt_set_insert [simp]: "distinct xs \<Longrightarrow> distinct (bt_set_insert x xs)"
  by (simp add: bt_set_insert_def distinct_insort_insert)

end
