(* ===== verification/Policy.thy ===== *)
theory Policy
  imports Model Ordered_Maps
begin

text \<open>
  Capture policies (\<open>src/policy.rs\<close>) and bounded metadata strings (\<open>src/metadata.rs\<close>):
  what a policy accepts, the header and JSON sanitizers that stand between captured traffic
  and the event log, and their confidentiality. The sanitizer's counters and its list of
  recorded fields are an explicit state, threaded through the recursion as the code threads
  \<open>&mut self\<close>. \<open>public_view\<close> is the specification: the value with every credential-shaped
  field blanked.
\<close>

section \<open>Bounded metadata\<close>

definition MAX_NORMALIZED_STRING_BYTES :: nat where "MAX_NORMALIZED_STRING_BYTES = 1024"

definition bounded_string :: "('x) crates_scheme \<Rightarrow> str \<Rightarrow> str" where
  "bounded_string L value =
     (if length value \<le> MAX_NORMALIZED_STRING_BYTES \<and> \<not> any_control value then value
      else ''[HASHED_METADATA sha256:'' @ hex_encode L (sha256 L value)
             @ '' bytes='' @ decimal (length value) @ '']'')"

definition value_string :: "('x) crates_scheme \<Rightarrow> json option \<Rightarrow> str option" where
  "value_string L value = map_option (bounded_string L) (Option.bind value as_str)"

section \<open>Policies\<close>

datatype body_capture_mode = Full | MetadataOnly

datatype event_log_format = Jsonl | ZstdBlocks

record capture_policy =
  cp_name :: str
  body_mode :: body_capture_mode
  cp_event_log_format :: event_log_format
  max_event_storage_bytes :: nat
  max_blob_bytes :: nat
  max_run_blob_storage_bytes :: nat
  allowed_paths :: "str list"
  redact_headers :: "str list"

definition MAX_CAPTURE_BODY_BYTES :: nat where "MAX_CAPTURE_BODY_BYTES = 64 * 1024 * 1024"
definition MAX_ALLOWED_PATHS :: nat where "MAX_ALLOWED_PATHS = 1024"
definition MAX_ALLOWED_PATH_BYTES :: nat where "MAX_ALLOWED_PATH_BYTES = 2048"
definition MAX_REDACT_HEADERS :: nat where "MAX_REDACT_HEADERS = 1024"
definition default_max_event_storage_bytes :: nat where
  "default_max_event_storage_bytes = 4 * 1024 * 1024 * 1024"
definition default_max_run_blob_storage_bytes :: nat where
  "default_max_run_blob_storage_bytes = 2 * 1024 * 1024 * 1024"

definition ALWAYS_SECRET_HEADERS :: "str list" where
  "ALWAYS_SECRET_HEADERS =
     [''authorization'', ''authentication-info'', ''proxy-authorization'',
      ''proxy-authentication-info'', ''cookie'', ''set-cookie'', ''location'',
      ''content-location'', ''link'', ''refresh'', ''x-api-key'', ''x-goog-api-key'',
      ''x-amz-security-token'', ''x-auth-token'', ''x-access-token'', ''api-key'',
      ''authentication'', ''grpc-metadata-authorization'']"

definition ALWAYS_SECRET_JSON_KEYS :: "str list" where
  "ALWAYS_SECRET_JSON_KEYS =
     [''authorization'', ''proxy_authorization'', ''proxy-authorization'', ''cookie'',
      ''set_cookie'', ''set-cookie'', ''x_api_key'', ''x-api-key'', ''x_google_api_key'',
      ''x_goog_api_key'', ''x-goog-api-key'', ''x_amz_security_token'',
      ''x-amz-security-token'', ''api_key'', ''api-key'', ''access_token'', ''refresh_token'',
      ''client_secret'', ''password'']"

text \<open>\<open>collect\<close> into a \<open>BTreeSet\<close> inserts the names one by one.\<close>

definition default_policy :: capture_policy where
  "default_policy =
     \<lparr>cp_name = ''default'', body_mode = Full, cp_event_log_format = Jsonl,
      max_event_storage_bytes = default_max_event_storage_bytes,
      max_blob_bytes = 64 * 1024 * 1024,
      max_run_blob_storage_bytes = default_max_run_blob_storage_bytes,
      allowed_paths = [], redact_headers = fold bt_set_insert ALWAYS_SECRET_HEADERS []\<rparr>"

text \<open>\<open>header_name\<close> is \<open>HeaderName::from_bytes(..).is_ok()\<close> of the \<open>http\<close> crate.\<close>

definition validate_policy :: "(bytes \<Rightarrow> bool) \<Rightarrow> capture_policy \<Rightarrow> str + unit" where
  "validate_policy header_name p =
     (if cp_name p = [] \<or> length (cp_name p) > 128 \<or> any_control (cp_name p)
      then Inl ''capture policy name is invalid''
      else if max_blob_bytes p > MAX_CAPTURE_BODY_BYTES
      then Inl ''capture body limit exceeds the writer limit''
      else if length (allowed_paths p) > MAX_ALLOWED_PATHS
      then Inl ''capture policy has too many allowed path prefixes''
      else if list_ex (\<lambda>path. \<not> starts_with path ''/'' \<or> length path > MAX_ALLOWED_PATH_BYTES
                         \<or> any_control path) (allowed_paths p)
      then Inl ''capture policy contains an invalid allowed path prefix''
      else if length (redact_headers p) > MAX_REDACT_HEADERS
      then Inl ''capture policy has too many redacted headers''
      else if list_ex (\<lambda>name. list_ex is_ascii_uppercase name \<or> \<not> header_name name)
                (redact_headers p)
      then Inl ''capture policy contains an invalid header name''
      else Inr ())"

definition permits_body :: "capture_policy \<Rightarrow> str \<Rightarrow> bool" where
  "permits_body p path \<longleftrightarrow>
     body_mode p = Full
     \<and> (allowed_paths p = [] \<or> list_ex (\<lambda>prefix. starts_with path prefix) (allowed_paths p))"

section \<open>Header sanitizer\<close>

definition is_secret_header :: "str \<Rightarrow> bool" where
  "is_secret_header name \<longleftrightarrow>
     List.member ALWAYS_SECRET_HEADERS name
     \<or> ends_with name ''-api-key'' \<or> ends_with name ''-auth-token''
     \<or> ends_with name ''-access-token'' \<or> ends_with name ''-security-token''
     \<or> ends_with name ''-client-secret'' \<or> ends_with name ''-credential''
     \<or> ends_with name ''-password'' \<or> ends_with name ''-signature''"

text \<open>A \<open>HeaderMap\<close> is the list of its keys with all their values, in \<open>keys()\<close> order;
  \<open>to_str\<close> is \<open>HeaderValue::to_str(..).ok()\<close>.\<close>

definition sanitize_header ::
  "(bytes \<Rightarrow> str option) \<Rightarrow> capture_policy \<Rightarrow> str \<times> bytes list
   \<Rightarrow> (str \<times> json) list \<times> str list \<Rightarrow> (str \<times> json) list \<times> str list" where
  "sanitize_header to_str p = (\<lambda>(name, values) (output, redacted).
     let canonical = to_ascii_lowercase name in
     if List.member (redact_headers p) canonical \<or> is_secret_header canonical
     then (bt_insert canonical (JArray [JString ''[REDACTED]'']) output,
           bt_set_insert canonical redacted)
     else (bt_insert canonical
             (JArray (map (\<lambda>v. JString (case to_str v of Some t \<Rightarrow> t | None \<Rightarrow> ''[NON_UTF8]'')) values))
             output,
           redacted))"

definition sanitize_headers ::
  "(bytes \<Rightarrow> str option) \<Rightarrow> capture_policy \<Rightarrow> (str \<times> bytes list) list \<Rightarrow> json \<times> redaction_record" where
  "sanitize_headers to_str p headers =
     (let (output, redacted) = fold (sanitize_header to_str p) headers ([], []);
          output' = (if map_of output ''host'' = None then bt_insert ''host'' (JArray []) output
                     else output)
      in (JObject output', \<lparr>rr_policy = cp_name p, rr_fields = redacted, rr_omitted = []\<rparr>))"

section \<open>JSON sanitizer\<close>

definition is_secret_json_key :: "str \<Rightarrow> bool" where
  "is_secret_json_key key \<longleftrightarrow>
     (let lowercase = to_ascii_lowercase key;
          norm = map (\<lambda>c. if c = CHR ''-'' then CHR ''_'' else c) lowercase
      in List.member ALWAYS_SECRET_JSON_KEYS lowercase
         \<or> List.member [''token'', ''secret'', ''password'', ''apikey'', ''api_key''] norm
         \<or> ends_with norm ''_access_token'' \<or> ends_with norm ''_refresh_token''
         \<or> ends_with norm ''_security_token'' \<or> ends_with norm ''_client_secret''
         \<or> ends_with norm ''_password'' \<or> ends_with norm ''_api_key''
         \<or> ends_with norm ''apikey'')"

definition json_child_path :: "('x) crates_scheme \<Rightarrow> str \<Rightarrow> str \<Rightarrow> str" where
  "json_child_path L path key = bounded_string L (path @ ''.'' @ bounded_string L key)"

record json_sanitizer_limits =
  lim_depth :: nat
  lim_nodes :: nat
  lim_container_items :: nat
  lim_redaction_fields :: nat

record json_sanitizer =
  js_visited :: nat
  js_fields :: "str list"
  js_truncated :: bool

definition new_json_sanitizer :: json_sanitizer where
  "new_json_sanitizer = \<lparr>js_visited = 0, js_fields = [], js_truncated = False\<rparr>"

definition JSON_TRUNCATION_MARKER :: str where
  "JSON_TRUNCATION_MARKER = ''[IOREC_CAPTURE_TRUNCATED]''"

definition record_field :: "json_sanitizer_limits \<Rightarrow> str \<Rightarrow> json_sanitizer \<Rightarrow> json_sanitizer" where
  "record_field lim child_path s =
     (if length (js_fields s) < lim_redaction_fields lim then s\<lparr>js_fields := js_fields s @ [child_path]\<rparr>
      else s\<lparr>js_truncated := True\<rparr>)"

text \<open>\<open>JsonSanitizer::sanitize\<close> and its two loops. The keys of an object are distinct and come
  in order, so inserting them into the output map appends them.\<close>

function (sequential) sanitize :: "('x) crates_scheme \<Rightarrow> json_sanitizer_limits \<Rightarrow> json_sanitizer \<Rightarrow> json \<Rightarrow> str \<Rightarrow> nat
                 \<Rightarrow> json \<times> json_sanitizer"
and sanitize_entries :: "('x) crates_scheme \<Rightarrow> json_sanitizer_limits \<Rightarrow> json_sanitizer
                 \<Rightarrow> nat \<Rightarrow> (str \<times> json) list \<Rightarrow> str \<Rightarrow> nat \<Rightarrow> (str \<times> json) list \<times> json_sanitizer"
and sanitize_items :: "('x) crates_scheme \<Rightarrow> json_sanitizer_limits \<Rightarrow> json_sanitizer
                 \<Rightarrow> nat \<Rightarrow> json list \<Rightarrow> str \<Rightarrow> nat \<Rightarrow> json list \<times> json_sanitizer" where
  "sanitize L lim s v path depth =
     (if lim_nodes lim \<le> js_visited s then (JString JSON_TRUNCATION_MARKER, s\<lparr>js_truncated := True\<rparr>)
      else
        let s = s\<lparr>js_visited := saturating_add (js_visited s) 1\<rparr> in
        case v of
          JObject kvs \<Rightarrow>
            if lim_depth lim \<le> depth then (JString JSON_TRUNCATION_MARKER, s\<lparr>js_truncated := True\<rparr>)
            else map_prod JObject id (sanitize_entries L lim s 0 kvs path depth)
        | JArray vs \<Rightarrow>
            if lim_depth lim \<le> depth then (JString JSON_TRUNCATION_MARKER, s\<lparr>js_truncated := True\<rparr>)
            else map_prod JArray id (sanitize_items L lim s 0 vs path depth)
        | scalar \<Rightarrow> (scalar, s))"
| "sanitize_entries L lim s index [] path depth = ([], s)"
| "sanitize_entries L lim s index ((key, value) # rest) path depth =
     (if lim_container_items lim \<le> index then ([], s\<lparr>js_truncated := True\<rparr>)
      else
        let child_path = json_child_path L path key;
            (value', s) = (if is_secret_json_key key
                           then (JString ''[REDACTED]'', record_field lim child_path s)
                           else sanitize L lim s value child_path (depth + 1));
            (rest', s) = sanitize_entries L lim s (index + 1) rest path depth
        in ((key, value') # rest', s))"
| "sanitize_items L lim s index [] path depth = ([], s)"
| "sanitize_items L lim s index (value # rest) path depth =
     (if lim_container_items lim \<le> index then ([], s\<lparr>js_truncated := True\<rparr>)
      else
        let child_path = bounded_string L (path @ ''['' @ decimal index @ '']'');
            (value', s) = sanitize L lim s value child_path (depth + 1);
            (rest', s) = sanitize_items L lim s (index + 1) rest path depth
        in (value' # rest', s))"
  by pat_completeness auto

termination
  by (relation "measure (\<lambda>x. case x of
        Inl (_, _, _, v, _) \<Rightarrow> size v
      | Inr (Inl (_, _, _, _, kvs, _)) \<Rightarrow> size_list (size_prod (\<lambda>_. 0) size) kvs
      | Inr (Inr (_, _, _, _, vs, _)) \<Rightarrow> size_list size vs)") auto

definition sanitizer_limits :: json_sanitizer_limits where
  "sanitizer_limits =
     \<lparr>lim_depth = 64, lim_nodes = 100000, lim_container_items = 10000, lim_redaction_fields = 1024\<rparr>"

definition sanitize_json :: "('x) crates_scheme \<Rightarrow> capture_policy \<Rightarrow> json \<Rightarrow> json \<times> redaction_record" where
  "sanitize_json L p v =
     (let (output, s) = sanitize L sanitizer_limits new_json_sanitizer v ''$'' 0
      in (output,
          \<lparr>rr_policy = cp_name p, rr_fields = js_fields s,
           rr_omitted = (if js_truncated s then [''json_payload_safety_limit''] else [])\<rparr>))"

declare sanitize.simps [simp del] sanitize_entries.simps(2) [simp del] sanitize_items.simps(2) [simp del]

section \<open>What is public\<close>

definition blank_entry :: "(json \<Rightarrow> json) \<Rightarrow> str \<times> json \<Rightarrow> str \<times> json" where
  "blank_entry f e =
     (fst e, if is_secret_json_key (fst e) then JString ''[REDACTED]'' else f (snd e))"

lemma blank_entry_cong [fundef_cong]:
  "e = e' \<Longrightarrow> (\<And>v. v \<in> Basic_BNFs.snds e' \<Longrightarrow> f v = g v) \<Longrightarrow> blank_entry f e = blank_entry g e'"
  by (cases e') (simp add: blank_entry_def)

fun public_view :: "json \<Rightarrow> json" where
  "public_view (JObject kvs) = JObject (map (blank_entry public_view) kvs)"
| "public_view (JArray vs) = JArray (map public_view vs)"
| "public_view v = v"

lemma blank_entry_simp [simp]:
  "blank_entry f (k, v) = (k, if is_secret_json_key k then JString ''[REDACTED]'' else f v)"
  by (simp add: blank_entry_def)

text \<open>Every credential-shaped field, at any depth, holds the fixed marker.\<close>

fun credentials_blanked :: "json \<Rightarrow> bool" where
  "credentials_blanked (JObject kvs) =
     list_all (\<lambda>(k, v). if is_secret_json_key k then v = JString ''[REDACTED]''
                        else credentials_blanked v) kvs"
| "credentials_blanked (JArray vs) = list_all credentials_blanked vs"
| "credentials_blanked v = True"

text \<open>The sanitizer reads nothing under a secret key.\<close>

lemma sanitize_public_view:
  "sanitize L lim s (public_view v) path depth = sanitize L lim s v path depth"
  "sanitize_entries L lim s i (map (blank_entry public_view) kvs) path depth =
     sanitize_entries L lim s i kvs path depth"
  "sanitize_items L lim s i (map public_view vs) path depth =
     sanitize_items L lim s i vs path depth"
proof (induction L lim s v path depth and L lim s i kvs path depth and L lim s i vs path depth
    rule: sanitize_sanitize_entries_sanitize_items.induct)
  case (1 L lim s v path depth)
  then show ?case
    by (cases v) (simp_all add: sanitize.simps[of L lim s] Let_def)
qed (simp_all add: sanitize_entries.simps sanitize_items.simps Let_def split: prod.splits)

text \<open>The two loops process one element and go on with the state it leaves.\<close>

definition sanitize_entry ::
  "('x) crates_scheme \<Rightarrow> json_sanitizer_limits \<Rightarrow> json_sanitizer \<Rightarrow> str \<Rightarrow> json \<Rightarrow> str \<Rightarrow> nat
   \<Rightarrow> json \<times> json_sanitizer" where
  "sanitize_entry L lim s key value path depth =
     (if is_secret_json_key key
      then (JString ''[REDACTED]'', record_field lim (json_child_path L path key) s)
      else sanitize L lim s value (json_child_path L path key) (depth + 1))"

abbreviation item_path :: "('x) crates_scheme \<Rightarrow> str \<Rightarrow> nat \<Rightarrow> str" where
  "item_path L path i \<equiv> bounded_string L (path @ ''['' @ decimal i @ '']'')"

lemma sanitize_entries_Cons:
  "sanitize_entries L lim s i ((k, v) # rest) path depth =
     (if lim_container_items lim \<le> i then ([], s\<lparr>js_truncated := True\<rparr>)
      else ((k, fst (sanitize_entry L lim s k v path depth))
              # fst (sanitize_entries L lim (snd (sanitize_entry L lim s k v path depth)) (i + 1)
                       rest path depth),
            snd (sanitize_entries L lim (snd (sanitize_entry L lim s k v path depth)) (i + 1)
                   rest path depth)))"
  by (simp add: sanitize_entries.simps sanitize_entry_def Let_def case_prod_beta)

lemma sanitize_items_Cons:
  "sanitize_items L lim s i (v # rest) path depth =
     (if lim_container_items lim \<le> i then ([], s\<lparr>js_truncated := True\<rparr>)
      else (fst (sanitize L lim s v (item_path L path i) (depth + 1))
              # fst (sanitize_items L lim (snd (sanitize L lim s v (item_path L path i) (depth + 1)))
                       (i + 1) rest path depth),
            snd (sanitize_items L lim (snd (sanitize L lim s v (item_path L path i) (depth + 1)))
                   (i + 1) rest path depth)))"
  by (simp add: sanitize_items.simps Let_def case_prod_beta)

text \<open>Induction over the document with the sanitizer's state running along.\<close>

lemma sanitize_induct [case_names node no_entry entry no_item item]:
  fixes P :: "json_sanitizer \<Rightarrow> json \<Rightarrow> str \<Rightarrow> nat \<Rightarrow> bool"
    and Q :: "json_sanitizer \<Rightarrow> nat \<Rightarrow> (str \<times> json) list \<Rightarrow> str \<Rightarrow> nat \<Rightarrow> bool"
    and R :: "json_sanitizer \<Rightarrow> nat \<Rightarrow> json list \<Rightarrow> str \<Rightarrow> nat \<Rightarrow> bool"
  assumes node: "\<And>s v path depth. (\<And>kvs s'. v = JObject kvs \<Longrightarrow> Q s' 0 kvs path depth) \<Longrightarrow>
      (\<And>vs s'. v = JArray vs \<Longrightarrow> R s' 0 vs path depth) \<Longrightarrow> P s v path depth"
    and no_entry: "\<And>s i path depth. Q s i [] path depth"
    and entry: "\<And>s i k v rest path depth.
      P s v (json_child_path L path k) (depth + 1) \<Longrightarrow>
      Q (snd (sanitize_entry L lim s k v path depth)) (i + 1) rest path depth \<Longrightarrow>
      Q s i ((k, v) # rest) path depth"
    and no_item: "\<And>s i path depth. R s i [] path depth"
    and item: "\<And>s i v rest path depth.
      P s v (item_path L path i) (depth + 1) \<Longrightarrow>
      R (snd (sanitize L lim s v (item_path L path i) (depth + 1))) (i + 1) rest path depth \<Longrightarrow>
      R s i (v # rest) path depth"
  shows "P s v path depth" and "Q s i kvs path depth" and "R s i vs path depth"
proof -
  have entries: "Q s i kvs path depth"
    if "\<forall>e\<in>set kvs. \<forall>s path depth. P s (snd e) path depth" for s i kvs path depth
    using that
  proof (induction kvs arbitrary: s i)
    case (Cons e kvs)
    then show ?case by (cases e) (simp add: entry)
  qed (simp add: no_entry)
  have items: "R s i vs path depth"
    if "\<forall>v\<in>set vs. \<forall>s path depth. P s v path depth" for s i vs path depth
    using that
  proof (induction vs arbitrary: s i)
    case (Cons v vs)
    then show ?case by (intro item) simp_all
  qed (simp add: no_item)
  have P: "P s v path depth" for s v path depth
  proof (induction v arbitrary: s path depth)
    case (JObject kvs)
    then have "\<forall>e\<in>set kvs. \<forall>s path depth. P s (snd e) path depth" by fastforce
    then show ?case by (intro node entries) simp_all
  next
    case (JArray vs)
    then show ?case by (intro node items) simp_all
  qed (intro node; simp)+
  show "P s v path depth" by (rule P)
  show "Q s i kvs path depth" by (simp add: entries P)
  show "R s i vs path depth" by (simp add: items P)
qed

lemmas sanitize_unfold =
  sanitize_entries_Cons sanitize_items_Cons sanitize_entry_def Let_def

lemma truncated_record_field: "js_truncated s \<Longrightarrow> js_truncated (record_field lim q s)"
  by (simp add: record_field_def)

lemma sanitize_truncated_mono:
  "js_truncated s \<Longrightarrow> js_truncated (snd (sanitize L lim s v path depth))"
  "js_truncated s \<Longrightarrow> js_truncated (snd (sanitize_entries L lim s i kvs path depth))"
  "js_truncated s \<Longrightarrow> js_truncated (snd (sanitize_items L lim s i vs path depth))"
proof (induction s v path depth and s i kvs path depth and s i vs path depth
    rule: sanitize_induct[where L = L and lim = lim])
  case (node s v path depth)
  then show ?case by (cases v) (simp_all add: sanitize.simps[of L lim s] Let_def)
qed (auto simp: sanitize_unfold truncated_record_field)

lemma sanitize_blanked:
  "credentials_blanked (fst (sanitize L lim s v path depth))"
  "credentials_blanked (JObject (fst (sanitize_entries L lim s i kvs path depth)))"
  "credentials_blanked (JArray (fst (sanitize_items L lim s i vs path depth)))"
proof (induction s v path depth and s i kvs path depth and s i vs path depth
    rule: sanitize_induct[where L = L and lim = lim])
  case (node s v path depth)
  then show ?case by (cases v) (simp_all add: sanitize.simps[of L lim s] Let_def)
qed (auto simp: sanitize_unfold)

text \<open>The paths of the blanked fields, in document order.\<close>

fun secret_paths :: "('x) crates_scheme \<Rightarrow> str \<Rightarrow> json \<Rightarrow> str list"
and secret_entry_paths :: "('x) crates_scheme \<Rightarrow> str \<Rightarrow> (str \<times> json) list \<Rightarrow> str list"
and secret_item_paths :: "('x) crates_scheme \<Rightarrow> str \<Rightarrow> nat \<Rightarrow> json list \<Rightarrow> str list" where
  "secret_paths L path (JObject kvs) = secret_entry_paths L path kvs"
| "secret_paths L path (JArray vs) = secret_item_paths L path 0 vs"
| "secret_paths L path v = []"
| "secret_entry_paths L path [] = []"
| "secret_entry_paths L path ((k, v) # rest) =
     (if is_secret_json_key k then [json_child_path L path k]
      else secret_paths L (json_child_path L path k) v) @ secret_entry_paths L path rest"
| "secret_item_paths L path i [] = []"
| "secret_item_paths L path i (v # rest) =
     secret_paths L (bounded_string L (path @ ''['' @ decimal i @ '']'')) v
     @ secret_item_paths L path (i + 1) rest"

lemma not_truncated_record_field:
  "\<not> js_truncated (record_field lim q s) \<Longrightarrow>
   \<not> js_truncated s \<and> js_fields (record_field lim q s) = js_fields s @ [q]"
  by (auto simp: record_field_def split: if_splits)

lemma sanitize_exact:
  "\<not> js_truncated (snd (sanitize L lim s v path depth)) \<Longrightarrow>
     fst (sanitize L lim s v path depth) = public_view v
     \<and> js_fields (snd (sanitize L lim s v path depth)) = js_fields s @ secret_paths L path v"
  "\<not> js_truncated (snd (sanitize_entries L lim s i kvs path depth)) \<Longrightarrow>
     fst (sanitize_entries L lim s i kvs path depth) = map (blank_entry public_view) kvs
     \<and> js_fields (snd (sanitize_entries L lim s i kvs path depth))
         = js_fields s @ secret_entry_paths L path kvs"
  "\<not> js_truncated (snd (sanitize_items L lim s i vs path depth)) \<Longrightarrow>
     fst (sanitize_items L lim s i vs path depth) = map public_view vs
     \<and> js_fields (snd (sanitize_items L lim s i vs path depth))
         = js_fields s @ secret_item_paths L path i vs"
proof (induction s v path depth and s i kvs path depth and s i vs path depth
    rule: sanitize_induct[where L = L and lim = lim])
  case (node s v path depth)
  then show ?case
    by (cases v) (auto simp: sanitize.simps[of L lim s] Let_def split: if_splits)
next
  case (entry s i k v rest path depth)
  define r where "r = sanitize_entry L lim s k v path depth"
  have run: "\<not> js_truncated (snd (sanitize_entries L lim (snd r) (i + 1) rest path depth))"
    and items: "\<not> lim_container_items lim \<le> i"
    using entry(3) by (simp_all add: sanitize_entries_Cons r_def split: if_splits)
  then have "\<not> js_truncated (snd r)" using sanitize_truncated_mono(2) by blast
  then have "fst r = snd (blank_entry public_view (k, v))
      \<and> js_fields (snd r) = js_fields s @ secret_entry_paths L path [(k, v)]"
    using entry(1) not_truncated_record_field[of lim "json_child_path L path k" s]
    by (auto simp: r_def sanitize_entry_def)
  then show ?case
    using entry(2) run items by (simp add: sanitize_entries_Cons r_def)
next
  case (item s i v rest path depth)
  define r where "r = sanitize L lim s v (item_path L path i) (depth + 1)"
  have run: "\<not> js_truncated (snd (sanitize_items L lim (snd r) (i + 1) rest path depth))"
    and items: "\<not> lim_container_items lim \<le> i"
    using item(3) by (simp_all add: sanitize_items_Cons r_def split: if_splits)
  then have "\<not> js_truncated (snd r)" using sanitize_truncated_mono(3) by blast
  then show ?case
    using item(1,2) run items by (simp add: sanitize_items_Cons r_def)
qed simp_all

section \<open>Recorded fields are valid metadata\<close>

definition printable :: "str \<Rightarrow> bool" where
  "printable s = list_all (\<lambda>c. 32 \<le> byte_val c \<and> byte_val c < 127) s"

lemma printable_append: "printable (s @ t) \<longleftrightarrow> printable s \<and> printable t"
  by (simp add: printable_def)

lemma printable_no_control: "printable s \<Longrightarrow> \<not> any_control s"
  unfolding printable_def by (induction s) auto

lemma lower_hex_printable: "is_lower_hex c \<Longrightarrow> 32 \<le> byte_val c \<and> byte_val c < 127"
  by (auto simp: is_lower_hex_def is_ascii_digit_def in_byte_range_def)

lemma hex_printable: "hex_law L \<Longrightarrow> printable (hex_encode L m)"
  using hex_chars lower_hex_printable by (auto simp: printable_def list_all_iff)

lemma decimal_printable: "printable (decimal n)"
  using decimal_digits[of _ n]
  by (fastforce simp: printable_def list_all_iff is_ascii_digit_def in_byte_range_def)

lemma hashed_literals_printable:
  "printable ''[HASHED_METADATA sha256:''" "printable '' bytes=''" "printable '']''"
  by (simp_all add: printable_def byte_val_def)

lemma bounded_string_valid:
  assumes "sha256_law L" "hex_law L" "v \<noteq> []" "length v < 10 ^ 20"
  shows "valid_text (bounded_string L v) 1024"
proof (cases "length v \<le> MAX_NORMALIZED_STRING_BYTES \<and> \<not> any_control v")
  case True
  then show ?thesis
    using assms(3) by (simp add: bounded_string_def valid_text_def MAX_NORMALIZED_STRING_BYTES_def)
next
  case False
  have "\<not> any_control (''[HASHED_METADATA sha256:'' @ hex_encode L (sha256 L v)
             @ '' bytes='' @ decimal (length v) @ '']'')"
    by (intro printable_no_control)
      (simp only: printable_append hex_printable[OF assms(2)] decimal_printable hashed_literals_printable)
  moreover have "length (decimal (length v)) \<le> 20" using decimal_length[OF assms(4)] by simp
  ultimately show ?thesis
    using assms(1) hex_length[OF assms(2)]
    unfolding bounded_string_def if_not_P[OF False] valid_text_def
    by (simp add: sha256_law_def del: any_control.simps)
qed

text \<open>Object keys fit in memory: their length is a \<open>usize\<close>.\<close>

fun keys_addressable :: "json \<Rightarrow> bool" where
  "keys_addressable (JObject kvs) =
     list_all (\<lambda>(k, v). length k \<le> U64_MAX \<and> keys_addressable v) kvs"
| "keys_addressable (JArray vs) = list_all keys_addressable vs"
| "keys_addressable v = True"

lemma bounded_length:
  "sha256_law L \<Longrightarrow> hex_law L \<Longrightarrow> length k \<le> U64_MAX \<Longrightarrow> length (bounded_string L k) \<le> 1024"
  using bounded_string_valid[of L k]
  by (cases "k = []") (auto simp: valid_text_def U64_MAX_def bounded_string_def)

lemma json_child_path_valid:
  assumes "sha256_law L" "hex_law L" "length path \<le> 1024" "length k \<le> U64_MAX"
  shows "valid_text (json_child_path L path k) 1024"
  using bounded_length[OF assms(1,2,4)] assms
  by (auto simp: json_child_path_def intro!: bounded_string_valid)

lemma item_path_valid:
  assumes "sha256_law L" "hex_law L" "length path \<le> 1024" "i < 10 ^ 20"
  shows "valid_text (item_path L path i) 1024"
  using decimal_length[OF assms(4)] assms by (auto intro!: bounded_string_valid)

definition fields_valid :: "json_sanitizer_limits \<Rightarrow> json_sanitizer \<Rightarrow> bool" where
  "fields_valid lim s \<longleftrightarrow> length (js_fields s) \<le> lim_redaction_fields lim
     \<and> (\<forall>q\<in>set (js_fields s). valid_text q 1024)"

lemma fields_valid_record: "fields_valid lim s \<Longrightarrow> valid_text q 1024 \<Longrightarrow> fields_valid lim (record_field lim q s)"
  by (auto simp: fields_valid_def record_field_def)

lemma fields_valid_update [simp]:
  "fields_valid lim (s\<lparr>js_truncated := b\<rparr>) = fields_valid lim s"
  "fields_valid lim (s\<lparr>js_visited := n\<rparr>) = fields_valid lim s"
  by (simp_all add: fields_valid_def)

lemma sanitize_fields_valid:
  assumes laws: "sha256_law L" "hex_law L" and lim: "lim_container_items lim \<le> 10 ^ 20"
  shows "keys_addressable v \<Longrightarrow> length path \<le> 1024 \<Longrightarrow> fields_valid lim s \<Longrightarrow>
     fields_valid lim (snd (sanitize L lim s v path depth))"
    and "keys_addressable (JObject kvs) \<Longrightarrow> length path \<le> 1024 \<Longrightarrow> fields_valid lim s \<Longrightarrow>
     fields_valid lim (snd (sanitize_entries L lim s i kvs path depth))"
    and "keys_addressable (JArray vs) \<Longrightarrow> length path \<le> 1024 \<Longrightarrow> fields_valid lim s \<Longrightarrow>
     fields_valid lim (snd (sanitize_items L lim s i vs path depth))"
proof (induction s v path depth and s i kvs path depth and s i vs path depth
    rule: sanitize_induct[where L = L and lim = lim])
  case (node s v path depth)
  then show ?case by (cases v) (simp_all add: sanitize.simps[of L lim s] Let_def)
next
  case (entry s i k v rest path depth)
  then have child: "valid_text (json_child_path L path k) 1024"
    by (intro json_child_path_valid laws) simp_all
  then have "fields_valid lim (snd (sanitize_entry L lim s k v path depth))"
    using entry by (simp add: sanitize_entry_def fields_valid_record valid_text_def)
  then show ?case using entry by (simp add: sanitize_entries_Cons)
next
  case (item s i v rest path depth)
  show ?case
  proof (cases "lim_container_items lim \<le> i")
    case False
    then have "valid_text (item_path L path i) 1024"
      using item(4) lim by (intro item_path_valid laws) simp_all
    then have "fields_valid lim (snd (sanitize L lim s v (item_path L path i) (depth + 1)))"
      using item by (intro item(1)) (simp_all add: valid_text_def)
    then show ?thesis using item by (simp add: sanitize_items_Cons)
  qed (use item in \<open>simp add: sanitize_items_Cons\<close>)
qed simp_all

section \<open>Properties of the JSON sanitizer\<close>

text \<open>C13: JSON confidentiality. What the sanitizer returns, the redaction record included, is a
  function of the public view of the payload: it does not depend on anything stored under a
  credential-shaped key. In its output every such field, at any depth, holds the marker.\<close>

theorem sanitize_json_confidential:
  "sanitize_json L p v = sanitize_json L p (public_view v)
   \<and> credentials_blanked (fst (sanitize_json L p v))"
  using sanitize_blanked(1)
  by (simp add: sanitize_json_def sanitize_public_view case_prod_beta)

text \<open>C14: JSON fidelity. When the record reports no omission, the output is exactly the payload
  with its credentials blanked, and the record lists the path of every blanked field in
  document order.\<close>

theorem sanitize_json_exact:
  assumes "rr_omitted (snd (sanitize_json L p v)) = []"
  shows "fst (sanitize_json L p v) = public_view v
    \<and> rr_fields (snd (sanitize_json L p v)) = secret_paths L ''$'' v"
  using assms sanitize_exact(1)[of L sanitizer_limits new_json_sanitizer v "''$''" 0]
  by (auto simp: sanitize_json_def case_prod_beta Let_def new_json_sanitizer_def split: if_splits)

lemma policy_demo_keys:
  "\<not> is_secret_json_key ''a''" "is_secret_json_key ''password''"
  by (simp_all add: is_secret_json_key_def to_ascii_lowercase_def ascii_lower_def
        is_ascii_uppercase_def in_byte_range_def byte_val_def ALWAYS_SECRET_JSON_KEYS_def
        ends_with_def starts_with_def)

lemmas sanitize_eval = sanitize_json_def sanitize.simps sanitize_entries.simps
  sanitize_items.simps sanitizer_limits_def new_json_sanitizer_def saturating_add_def U64_MAX_def
  policy_demo_keys record_field_def

theorem sanitize_json_exact_witness:
  "fst (sanitize_json demo_crates default_policy
     (JObject [(''a'', JArray [JBool True]), (''password'', JString ''hunter2'')]))
   = JObject [(''a'', JArray [JBool True]), (''password'', JString ''[REDACTED]'')]"
proof -
  let ?v = "JObject [(''a'', JArray [JBool True]), (''password'', JString ''hunter2'')]"
  have "rr_omitted (snd (sanitize_json demo_crates default_policy ?v)) = []"
    by (simp add: sanitize_eval)
  then have "fst (sanitize_json demo_crates default_policy ?v) = public_view ?v"
    using sanitize_json_exact by blast
  then show ?thesis by (simp add: policy_demo_keys)
qed

text \<open>C15: The redaction record of a sanitized payload passes the validation of the event that
  carries it: with a policy name the policy's own validation accepts, the policy text, the
  field list and the omission list are within the envelope's limits.\<close>

theorem sanitize_json_record_valid:
  assumes "sha256_law L" "hex_law L" "validate_policy header_name p = Inr ()"
    and "keys_addressable v" "r = snd (sanitize_json L p v)"
  shows "validate_text ''redaction policy'' (rr_policy r) 128 = Inr ()
    \<and> validate_text_list ''redacted field'' (rr_fields r) 1024 1024 = Inr ()
    \<and> validate_text_list ''omitted field'' (rr_omitted r) 1024 1024 = Inr ()"
proof -
  have "fields_valid sanitizer_limits (snd (sanitize L sanitizer_limits new_json_sanitizer v ''$'' 0))"
    using assms by (intro sanitize_fields_valid(1))
      (simp_all add: sanitizer_limits_def fields_valid_def new_json_sanitizer_def)
  moreover have "valid_text (cp_name p) 128"
    using assms(3) by (auto simp: validate_policy_def valid_text_def split: if_splits)
  moreover have "valid_text ''json_payload_safety_limit'' 1024"
    by (simp add: valid_text_def byte_val_def)
  ultimately show ?thesis
    using assms(5)
    by (simp add: sanitize_json_def case_prod_beta Let_def validate_text_list_ok fields_valid_def
          sanitizer_limits_def)
qed

theorem sanitize_json_record_valid_witness:
  "validate_text_list ''redacted field''
     (rr_fields (snd (sanitize_json demo_crates (default_policy\<lparr>redact_headers := []\<rparr>)
        (JObject [(''password'', JString ''hunter2'')])))) 1024 1024 = Inr ()"
proof -
  have "validate_policy (\<lambda>_. True) (default_policy\<lparr>redact_headers := []\<rparr>) = Inr ()"
    by (simp add: validate_policy_def default_policy_def MAX_CAPTURE_BODY_BYTES_def byte_val_def)
  moreover have "keys_addressable (JObject [(''password'', JString ''hunter2'')])"
    by (simp add: U64_MAX_def)
  ultimately show ?thesis
    using sanitize_json_record_valid[OF demo_laws(1,2) _ _ refl] by blast
qed

section \<open>Properties of the header sanitizer\<close>

definition secret_header :: "capture_policy \<Rightarrow> str \<Rightarrow> bool" where
  "secret_header p name \<longleftrightarrow> name \<in> set (redact_headers p) \<or> is_secret_header name"

definition blank_header :: "capture_policy \<Rightarrow> str \<times> bytes list \<Rightarrow> str \<times> bytes list" where
  "blank_header p h = (fst h, if secret_header p (to_ascii_lowercase (fst h)) then [] else snd h)"

definition header_json :: "(bytes \<Rightarrow> str option) \<Rightarrow> capture_policy \<Rightarrow> str \<Rightarrow> bytes list \<Rightarrow> json" where
  "header_json to_str p name values =
     (if secret_header p name then JArray [JString ''[REDACTED]'']
      else JArray (map (\<lambda>v. JString (case to_str v of Some t \<Rightarrow> t | None \<Rightarrow> ''[NON_UTF8]'')) values))"

text \<open>The names of a \<open>HeaderMap\<close> are lower case, and \<open>keys()\<close> yields each of them once.\<close>

definition header_map :: "(str \<times> bytes list) list \<Rightarrow> bool" where
  "header_map hs \<longleftrightarrow> distinct (map fst hs) \<and> (\<forall>n\<in>fst ` set hs. to_ascii_lowercase n = n)"

lemma sanitize_header_simp:
  "sanitize_header to_str p (name, values) (output, redacted) =
     (bt_insert (to_ascii_lowercase name) (header_json to_str p (to_ascii_lowercase name) values) output,
      if secret_header p (to_ascii_lowercase name)
      then bt_set_insert (to_ascii_lowercase name) redacted else redacted)"
  by (simp add: sanitize_header_def header_json_def secret_header_def List.member_iff Let_def)

lemma sanitize_header_blank:
  "sanitize_header to_str p (blank_header p h) = sanitize_header to_str p h"
  by (cases h) (simp add: fun_eq_iff sanitize_header_simp blank_header_def header_json_def)

lemma sanitize_header_fold:
  assumes "header_map hs" "(m', r') = fold (sanitize_header to_str p) hs (m, r)"
  shows "map_of m' n =
      (case map_of hs n of Some vs \<Rightarrow> Some (header_json to_str p n vs) | None \<Rightarrow> map_of m n)
    \<and> set r' = set r \<union> {n \<in> fst ` set hs. secret_header p n}
    \<and> (sorted r \<and> distinct r \<longrightarrow> sorted r' \<and> distinct r')"
  using assms
proof (induction hs arbitrary: m r)
  case (Cons h hs)
  obtain name vals where h: "h = (name, vals)" by fastforce
  have hm: "header_map hs" "to_ascii_lowercase name = name" "map_of hs name = None"
    using Cons.prems(1) h by (auto simp: header_map_def map_of_eq_None_iff)
  show ?case
    using Cons.prems(2) Cons.IH[OF hm(1)] hm h
    by (auto simp: sanitize_header_simp split: option.splits)
qed simp

text \<open>C16: Header confidentiality and fidelity. The sanitized headers and their redaction record
  do not depend on the values of secret headers. Every header of the request appears under its
  name, a secret one as the marker and any other with all its values; no other name appears,
  except an empty \<open>host\<close>. The record lists exactly the secret names present, in order.\<close>

theorem sanitize_headers_correct:
  assumes "header_map hs"
  shows "sanitize_headers to_str p hs = sanitize_headers to_str p (map (blank_header p) hs)
    \<and> json_get (fst (sanitize_headers to_str p hs)) n =
      (case map_of hs n of Some vs \<Rightarrow> Some (header_json to_str p n vs)
       | None \<Rightarrow> if n = ''host'' then Some (JArray []) else None)
    \<and> rr_fields (snd (sanitize_headers to_str p hs)) =
      sorted_list_of_set {n \<in> fst ` set hs. secret_header p n}"
proof (intro conjI)
  obtain m r where run: "(m, r) = fold (sanitize_header to_str p) hs ([], [])"
    by (metis prod.collapse)
  note folded = sanitize_header_fold[OF assms run]
  show "sanitize_headers to_str p hs = sanitize_headers to_str p (map (blank_header p) hs)"
    by (simp add: sanitize_headers_def fold_map comp_def sanitize_header_blank)
  show "json_get (fst (sanitize_headers to_str p hs)) n =
      (case map_of hs n of Some vs \<Rightarrow> Some (header_json to_str p n vs)
       | None \<Rightarrow> if n = ''host'' then Some (JArray []) else None)"
    using folded
    by (auto simp: sanitize_headers_def json_get_def run[symmetric] Let_def split: option.splits)
  have "sorted_list_of_set (set r) = r"
    using folded by (intro sorted_list_of_set.idem_if_sorted_distinct) simp_all
  moreover have "set r = {n \<in> fst ` set hs. secret_header p n}" using folded by simp
  ultimately show "rr_fields (snd (sanitize_headers to_str p hs)) =
      sorted_list_of_set {n \<in> fst ` set hs. secret_header p n}"
    by (simp add: sanitize_headers_def run[symmetric] Let_def)
qed

theorem sanitize_headers_correct_witness:
  "json_get (fst (sanitize_headers Some default_policy
      [(''authorization'', [''Bearer x'']), (''accept'', [''a'', ''b''])])) ''authorization''
     = Some (JArray [JString ''[REDACTED]''])"
proof -
  let ?h = "[(''authorization'', [''Bearer x'']), (''accept'', [''a'', ''b''])]"
  have "header_map ?h"
    by (simp add: header_map_def to_ascii_lowercase_def ascii_lower_def is_ascii_uppercase_def
          in_byte_range_def byte_val_def)
  moreover have "is_secret_header ''authorization''"
    by (simp add: is_secret_header_def ALWAYS_SECRET_HEADERS_def)
  ultimately show ?thesis
    using sanitize_headers_correct[of ?h Some default_policy "''authorization''",
        THEN conjunct2, THEN conjunct1]
    by (simp add: header_json_def secret_header_def)
qed

end
