(* ===== verification/Crypto.thy ===== *)
theory Crypto
  imports Json_Input Model
begin

text \<open>
  Encryption at rest (\<open>src/crypto.rs\<close>): key files, run-key derivation, the associated data of
  every kind of sealed record, and the sealing and opening of events, event blocks, blobs,
  wrapped data keys, the retention state and the manifest tag. The nonce the code draws from
  the system generator is an argument of each sealing operation. The locale \<open>sealed_box\<close> is
  the contract the stores rely on; it is interpreted on each of the framed formats.
\<close>

section \<open>JSON codecs\<close>

text \<open>\<open>struct EncryptedEvent\<close>; \<open>EncryptedEventRef\<close> is its borrowed form.\<close>

record encrypted_event =
  ee_version :: nat
  ee_run_id :: "str option"
  ee_sequence :: "nat option"
  ee_nonce :: str
  ee_ciphertext :: str

text \<open>\<open>serde_json::to_vec\<close> and \<open>from_slice\<close> at the types of the event log; \<open>None\<close> is the
  crate's error.\<close>

record json_codecs = crates +
  encrypted_event_to_vec :: "encrypted_event \<Rightarrow> bytes option"
  encrypted_event_from_slice :: "bytes \<Rightarrow> encrypted_event option"
  value_from_slice :: "bytes \<Rightarrow> json option"
  event_to_vec :: "event_envelope \<Rightarrow> bytes option"
  event_from_slice :: "bytes \<Rightarrow> event_envelope option"

text \<open>What the serialized form of an encrypted event is known to be: it reads back, it is one
  line, and it is a flat object of five fields.\<close>

definition encrypted_event_law :: "('x) json_codecs_scheme \<Rightarrow> bool" where
  "encrypted_event_law L \<longleftrightarrow> (\<forall>r bs. encrypted_event_to_vec L r = Some bs \<longrightarrow>
     encrypted_event_from_slice L bs = Some r \<and> newline \<notin> set bs \<and> starts_with bs ''{''
     \<and> max_nesting 0 (outside_strings False False bs) \<le> 1
     \<and> structural_tokens (outside_strings False False bs) \<le> 16)"

text \<open>The serialized form of an envelope reads back, is one line, shows its run and sequence to
  a reader of the generic value, and lacks the fields of an encrypted event.\<close>

definition event_json_law :: "('x) json_codecs_scheme \<Rightarrow> bool" where
  "event_json_law L \<longleftrightarrow> (\<forall>e bs. event_to_vec L e = Some bs \<longrightarrow>
     event_from_slice L bs = Some e \<and> newline \<notin> set bs \<and> starts_with bs ''{''
     \<and> encrypted_event_from_slice L bs = None
     \<and> (\<exists>v. value_from_slice L bs = Some v
          \<and> json_get v ''run_id'' = Some (JString (run_id e))
          \<and> json_get v ''sequence'' = Some (JNumber (PosInt (sequence e)))))"

text \<open>White space after a JSON document is ignored; the event log reads its lines with the line
  break that ends them.\<close>

definition json_whitespace_law :: "('x) json_codecs_scheme \<Rightarrow> bool" where
  "json_whitespace_law L \<longleftrightarrow> (\<forall>bs. newline \<notin> set bs \<longrightarrow>
     encrypted_event_from_slice L (bs @ [newline]) = encrypted_event_from_slice L bs
     \<and> event_from_slice L (bs @ [newline]) = event_from_slice L bs)"

section \<open>Keys\<close>

definition BLOB_MAGIC :: bytes where "BLOB_MAGIC = ''IORECBL1''"
definition WRAPPED_KEY_MAGIC :: bytes where "WRAPPED_KEY_MAGIC = ''IORECKY1''"
definition RETENTION_STATE_MAGIC :: bytes where "RETENTION_STATE_MAGIC = ''IORECRS1''"
definition EVENT_BLOCK_MAGIC :: bytes where "EVENT_BLOCK_MAGIC = ''IORECEB1''"
definition EVENT_AAD_V1 :: bytes where "EVENT_AAD_V1 = ''iorec:event:v1''"
definition EVENT_AAD_V2 :: bytes where "EVENT_AAD_V2 = ''iorec:event:v2''"
definition EVENT_BLOCK_AAD_V1 :: bytes where "EVENT_BLOCK_AAD_V1 = ''iorec:event-block:v1''"
definition MANIFEST_AAD_V1 :: bytes where "MANIFEST_AAD_V1 = ''iorec:manifest:v1''"
definition RUN_KEY_SALT_V1 :: bytes where "RUN_KEY_SALT_V1 = ''iorec:run-key:salt:v1''"
definition RUN_KEY_INFO_V1 :: bytes where "RUN_KEY_INFO_V1 = ''iorec:run-key:info:v1''"
definition WRAPPED_KEY_AAD_V1 :: bytes where "WRAPPED_KEY_AAD_V1 = ''iorec:wrapped-blob-key:v1''"
definition RETENTION_STATE_AAD_V1 :: bytes where "RETENTION_STATE_AAD_V1 = ''iorec:retention-state:v1''"

record encryption_key =
  key_bytes :: bytes
  key_id :: str

definition new_key :: "('x) crates_scheme \<Rightarrow> bytes \<Rightarrow> encryption_key" where
  "new_key L bs = \<lparr>key_bytes = bs, key_id = hex_encode L (sha256 L bs)\<rparr>"

text \<open>\<open>bytes.strip_suffix(..).unwrap_or(bytes)\<close>\<close>

definition strip_suffix_or :: "char \<Rightarrow> bytes \<Rightarrow> bytes" where
  "strip_suffix_or c bs = (if bs \<noteq> [] \<and> last bs = c then butlast bs else bs)"

definition parse_key :: "('x) crates_scheme \<Rightarrow> bytes \<Rightarrow> io_error + bytes" where
  "parse_key L bs =
     (if length bs = 32 then Inr bs
      else
        let trimmed = strip_suffix_or carriage_return (strip_suffix_or newline bs) in
        if length trimmed = 32 then Inr trimmed
        else if length trimmed = 64 then
          and_then (ok_or (hex_decode L trimmed) (IoError InvalidData ''hex error''))
            (\<lambda>decoded. if length decoded = 32 then Inr decoded
                       else Inl (IoError InvalidData ''invalid hexadecimal key''))
        else Inl (IoError InvalidData
               ''encryption key must contain 32 raw bytes or 64 hexadecimal characters''))"

text \<open>A key file: what \<open>fstat\<close> reports of it, and its contents.\<close>

record key_file =
  kf_regular :: bool
  kf_mode :: nat
  kf_contents :: bytes

text \<open>\<open>EncryptionKey::generate_file\<close> on a file system that accepts the writes; \<open>bs\<close> are the
  generated bytes, and the mode is \<open>0o600\<close>.\<close>

definition generate_key_file :: "('x) crates_scheme \<Rightarrow> bytes \<Rightarrow> encryption_key \<times> key_file" where
  "generate_key_file L bs =
     (new_key L bs, \<lparr>kf_regular = True, kf_mode = 384, kf_contents = hex_encode L bs @ [newline]\<rparr>)"

definition key_from_file :: "('x) crates_scheme \<Rightarrow> key_file \<Rightarrow> io_error + encryption_key" where
  "key_from_file L f =
     (if \<not> kf_regular f then Inl (IoError InvalidInput ''encryption key path must be a regular file'')
      else if kf_mode f mod 64 \<noteq> 0
      then Inl (IoError PermissionDenied
             ''encryption key file must not be accessible by group or other users'')
      else if length (kf_contents f) > 65
      then Inl (IoError InvalidData ''encryption key file is too large'')
      else and_then (parse_key L (kf_contents f)) (\<lambda>bs. Inr (new_key L bs)))"

definition run_key_info :: "str \<Rightarrow> bytes" where
  "run_key_info rid = RUN_KEY_INFO_V1 @ to_be_bytes (length rid) @ rid"

definition derive_run_key :: "('x) crates_scheme \<Rightarrow> encryption_key \<Rightarrow> str \<Rightarrow> io_error + encryption_key" where
  "derive_run_key L k rid =
     (if rid = [] \<or> length rid > 256 \<or> any_control rid
      then Inl (IoError InvalidInput ''run ID is invalid for key derivation'')
      else and_then
        (ok_or (hkdf_expand L RUN_KEY_SALT_V1 (key_bytes k) (run_key_info rid))
           (IoError Other ''HKDF run-key derivation failed''))
        (\<lambda>output. Inr (new_key L output)))"

section \<open>Associated data\<close>

definition event_aad_v2 :: "str \<Rightarrow> nat \<Rightarrow> bytes" where
  "event_aad_v2 rid seq =
     EVENT_AAD_V2 @ to_be_bytes (u64_of_usize (length rid)) @ rid @ to_be_bytes seq"

definition event_block_aad_v1 :: "str \<Rightarrow> nat \<Rightarrow> nat \<Rightarrow> nat \<Rightarrow> bytes \<Rightarrow> bytes" where
  "event_block_aad_v1 rid first_sequence event_count uncompressed_bytes plaintext_sha256 =
     EVENT_BLOCK_AAD_V1 @ to_be_bytes (u64_of_usize (length rid)) @ rid
       @ to_be_bytes first_sequence @ to_be_bytes event_count @ to_be_bytes uncompressed_bytes
       @ plaintext_sha256"

definition length_prefixed_aad :: "bytes \<Rightarrow> bytes \<Rightarrow> bytes" where
  "length_prefixed_aad domain value =
     domain @ to_be_bytes (u64_of_usize (length value)) @ value"

definition blob_aad :: "str \<Rightarrow> bytes" where "blob_aad hash = ''iorec:blob:v1:'' @ hash"

section \<open>Sealing and opening\<close>

definition encrypt :: "('x) crates_scheme \<Rightarrow> bytes \<Rightarrow> encryption_key \<Rightarrow> bytes \<Rightarrow> bytes \<Rightarrow> io_error + bytes \<times> bytes" where
  "encrypt L nonce k plaintext aad =
     and_then (ok_or (aead_seal L (key_bytes k) nonce aad plaintext)
                 (IoError Other ''AEAD encryption failed''))
       (\<lambda>ciphertext. Inr (nonce, ciphertext))"

definition decrypt :: "('x) crates_scheme \<Rightarrow> encryption_key \<Rightarrow> bytes \<Rightarrow> bytes \<Rightarrow> bytes \<Rightarrow> io_error + bytes" where
  "decrypt L k nonce ciphertext aad =
     (if length nonce \<noteq> 24 then Inl (IoError InvalidData ''invalid AEAD nonce'')
      else ok_or (aead_open L (key_bytes k) nonce aad ciphertext)
             (IoError InvalidData ''AEAD authentication failed''))"

text \<open>The common layout: magic, nonce, ciphertext.\<close>

definition encrypt_framed ::
  "('x) crates_scheme \<Rightarrow> bytes \<Rightarrow> encryption_key \<Rightarrow> bytes \<Rightarrow> bytes \<Rightarrow> bytes \<Rightarrow> io_error + bytes" where
  "encrypt_framed L nonce k plaintext magic aad =
     and_then (encrypt L nonce k plaintext aad) (\<lambda>(n, c). Inr (magic @ n @ c))"

definition decrypt_framed ::
  "('x) crates_scheme \<Rightarrow> encryption_key \<Rightarrow> bytes \<Rightarrow> bytes \<Rightarrow> bytes \<Rightarrow> str \<Rightarrow> io_error + bytes" where
  "decrypt_framed L k encoded magic aad message =
     (if \<not> starts_with encoded magic \<or> length encoded < length magic + 24 + 16
      then Inl (IoError InvalidData message)
      else decrypt L k (take 24 (drop (length magic) encoded)) (drop (length magic + 24) encoded) aad)"

definition encrypt_event_block ::
  "('x) crates_scheme \<Rightarrow> bytes \<Rightarrow> encryption_key \<Rightarrow> bytes \<Rightarrow> str \<Rightarrow> nat \<Rightarrow> nat \<Rightarrow> nat \<Rightarrow> bytes \<Rightarrow> io_error + bytes" where
  "encrypt_event_block L nonce k compressed rid first count usize digest =
     encrypt_framed L nonce k compressed EVENT_BLOCK_MAGIC
       (event_block_aad_v1 rid first count usize digest)"

definition decrypt_event_block ::
  "('x) crates_scheme \<Rightarrow> encryption_key \<Rightarrow> bytes \<Rightarrow> str \<Rightarrow> nat \<Rightarrow> nat \<Rightarrow> nat \<Rightarrow> bytes \<Rightarrow> io_error + bytes" where
  "decrypt_event_block L k encoded rid first count usize digest =
     decrypt_framed L k encoded EVENT_BLOCK_MAGIC
       (event_block_aad_v1 rid first count usize digest) ''invalid encrypted event-block framing''"

definition encrypt_blob :: "('x) crates_scheme \<Rightarrow> bytes \<Rightarrow> encryption_key \<Rightarrow> bytes \<Rightarrow> str \<Rightarrow> io_error + bytes" where
  "encrypt_blob L nonce k plaintext hash = encrypt_framed L nonce k plaintext BLOB_MAGIC (blob_aad hash)"

definition decrypt_blob :: "('x) crates_scheme \<Rightarrow> encryption_key \<Rightarrow> bytes \<Rightarrow> str \<Rightarrow> io_error + bytes" where
  "decrypt_blob L k encoded hash =
     decrypt_framed L k encoded BLOB_MAGIC (blob_aad hash) ''invalid encrypted blob framing''"

definition is_encrypted_blob :: "bytes \<Rightarrow> bool" where
  "is_encrypted_blob encoded = starts_with encoded BLOB_MAGIC"

definition validate_key_context :: "str \<Rightarrow> io_error + unit" where
  "validate_key_context context =
     (if context = [] \<or> length context > 64
         \<or> \<not> list_all (\<lambda>b. is_ascii_lowercase b \<or> b = CHR ''_'') context
      then Inl (IoError InvalidInput ''wrapped key context is invalid'') else Inr ())"

text \<open>\<open>generated\<close> are the 32 bytes the key generator returns.\<close>

definition generate_wrapped_data_key ::
  "('x) crates_scheme \<Rightarrow> bytes \<Rightarrow> bytes \<Rightarrow> encryption_key \<Rightarrow> str \<Rightarrow> io_error + encryption_key \<times> bytes" where
  "generate_wrapped_data_key L nonce generated k context =
     and_then (validate_key_context context) (\<lambda>_.
     and_then (encrypt_framed L nonce k generated WRAPPED_KEY_MAGIC
                 (length_prefixed_aad WRAPPED_KEY_AAD_V1 context))
       (\<lambda>output. Inr (new_key L generated, output)))"

definition unwrap_data_key :: "('x) crates_scheme \<Rightarrow> encryption_key \<Rightarrow> bytes \<Rightarrow> str \<Rightarrow> io_error + encryption_key" where
  "unwrap_data_key L k encoded context =
     and_then (validate_key_context context) (\<lambda>_.
     and_then (decrypt_framed L k encoded WRAPPED_KEY_MAGIC
                 (length_prefixed_aad WRAPPED_KEY_AAD_V1 context)
                 ''invalid encrypted key-state framing'')
       (\<lambda>plaintext. if length plaintext = 32 then Inr (new_key L plaintext)
          else Inl (IoError InvalidData ''wrapped data key has invalid length'')))"

definition encrypt_retention_state :: "('x) crates_scheme \<Rightarrow> bytes \<Rightarrow> encryption_key \<Rightarrow> bytes \<Rightarrow> io_error + bytes" where
  "encrypt_retention_state L nonce k plaintext =
     encrypt_framed L nonce k plaintext RETENTION_STATE_MAGIC RETENTION_STATE_AAD_V1"

definition decrypt_retention_state :: "('x) crates_scheme \<Rightarrow> encryption_key \<Rightarrow> bytes \<Rightarrow> io_error + bytes" where
  "decrypt_retention_state L k encoded =
     decrypt_framed L k encoded RETENTION_STATE_MAGIC RETENTION_STATE_AAD_V1
       ''invalid encrypted key-state framing''"

definition authenticate_manifest :: "('x) crates_scheme \<Rightarrow> bytes \<Rightarrow> encryption_key \<Rightarrow> bytes \<Rightarrow> io_error + str \<times> str" where
  "authenticate_manifest L nonce k canonical =
     and_then (encrypt L nonce k [] (length_prefixed_aad MANIFEST_AAD_V1 canonical))
       (\<lambda>(n, tag). Inr (b64_encode L n, b64_encode L tag))"

definition verify_manifest_authentication ::
  "('x) crates_scheme \<Rightarrow> encryption_key \<Rightarrow> bytes \<Rightarrow> str \<Rightarrow> str \<Rightarrow> io_error + unit" where
  "verify_manifest_authentication L k canonical nonce tag =
     and_then (ok_or (b64_decode L nonce) (IoError InvalidData ''base64'')) (\<lambda>n.
     and_then (ok_or (b64_decode L tag) (IoError InvalidData ''base64'')) (\<lambda>t.
     and_then (decrypt L k n t (length_prefixed_aad MANIFEST_AAD_V1 canonical)) (\<lambda>plaintext.
     if plaintext = [] then Inr ()
     else Inl (IoError InvalidData ''manifest authentication payload is not empty''))))"

section \<open>Encrypted event records\<close>

definition validate_event_context :: "('x) json_codecs_scheme \<Rightarrow> bytes \<Rightarrow> str \<Rightarrow> nat \<Rightarrow> io_error + unit" where
  "validate_event_context L plaintext rid seq =
     and_then (validate_stored_json_complexity plaintext) (\<lambda>_.
     and_then (ok_or (value_from_slice L plaintext) (IoError InvalidData ''json'')) (\<lambda>value.
     if Option.bind (json_get value ''run_id'') as_str \<noteq> Some rid
        \<or> Option.bind (json_get value ''sequence'') as_u64 \<noteq> Some seq
     then Inl (IoError InvalidData
            ''encrypted event context does not match its plaintext envelope'')
     else Inr ()))"

definition encrypt_event_record ::
  "('x) json_codecs_scheme \<Rightarrow> bytes \<Rightarrow> encryption_key \<Rightarrow> bytes \<Rightarrow> str \<Rightarrow> nat \<Rightarrow> io_error + bytes" where
  "encrypt_event_record L nonce k plaintext rid seq =
     and_then (encrypt L nonce k plaintext (event_aad_v2 rid seq)) (\<lambda>(n, c).
     ok_or (encrypted_event_to_vec L
              \<lparr>ee_version = 2, ee_run_id = Some rid, ee_sequence = Some seq,
               ee_nonce = b64_encode L n, ee_ciphertext = b64_encode L c\<rparr>)
       (IoError InvalidData ''json''))"

definition decrypt_event :: "('x) json_codecs_scheme \<Rightarrow> encryption_key \<Rightarrow> bytes \<Rightarrow> io_error + bytes" where
  "decrypt_event L k encoded =
     and_then (validate_json_complexity encoded) (\<lambda>_.
     and_then (ok_or (encrypted_event_from_slice L encoded) (IoError InvalidData ''json'')) (\<lambda>r.
     and_then (ok_or (b64_decode L (ee_nonce r)) (IoError InvalidData ''base64'')) (\<lambda>nonce.
     and_then (ok_or (b64_decode L (ee_ciphertext r)) (IoError InvalidData ''base64'')) (\<lambda>ciphertext.
     if ee_version r = 1 then decrypt L k nonce ciphertext EVENT_AAD_V1
     else if ee_version r = 2 then
       and_then (ok_or (ee_run_id r) (IoError InvalidData ''encrypted event has no run ID'')) (\<lambda>rid.
       and_then (ok_or (ee_sequence r) (IoError InvalidData ''encrypted event has no sequence'')) (\<lambda>seq.
       and_then (decrypt L k nonce ciphertext (event_aad_v2 rid seq)) (\<lambda>plaintext.
       and_then (validate_event_context L plaintext rid seq) (\<lambda>_. Inr plaintext))))
     else Inl (IoError InvalidData ''unsupported encrypted event version'')))))"

definition is_encrypted_event :: "('x) json_codecs_scheme \<Rightarrow> bytes \<Rightarrow> bool" where
  "is_encrypted_event L encoded \<longleftrightarrow>
     is_ok (validate_json_complexity encoded) \<and> encrypted_event_from_slice L encoded \<noteq> None"

section \<open>The sealed-box contract\<close>

locale sealed_box =
  fixes seal :: "bytes \<Rightarrow> bytes \<Rightarrow> io_error + bytes"
    and unseal :: "bytes \<Rightarrow> io_error + bytes"
    and overhead :: nat
    and lawful :: bool
  assumes unseal_seal: "lawful \<Longrightarrow> length nonce = 24 \<Longrightarrow> seal nonce m = Inr c \<Longrightarrow> unseal c = Inr m"
    and seal_length: "lawful \<Longrightarrow> length nonce = 24 \<Longrightarrow> seal nonce m = Inr c \<Longrightarrow> length c = length m + overhead"
    and unseal_sealed: "lawful \<Longrightarrow> unseal c = Inr m \<Longrightarrow> \<exists>nonce. length nonce = 24 \<and> seal nonce m = Inr c"
begin

text \<open>A box has one content, whatever the nonces it was sealed under.\<close>

lemma seal_content_unique:
  assumes "lawful" "length n = 24" "length n' = 24" "seal n m = Inr c" "seal n' m' = Inr c"
  shows "m = m'"
  using unseal_seal[OF assms(1,2,4)] unseal_seal[OF assms(1,3,5)] by simp

lemma unseal_length: "lawful \<Longrightarrow> unseal c = Inr m \<Longrightarrow> length c = length m + overhead"
  using unseal_sealed seal_length by blast

text \<open>Nothing shorter than the overhead opens.\<close>

lemma unseal_short: "lawful \<Longrightarrow> length c < overhead \<Longrightarrow> \<not> is_ok (unseal c)"
  using unseal_length by (fastforce simp: is_ok_iff)

end

lemma starts_with_append [simp]: "starts_with (p @ s) p"
  by (simp add: starts_with_iff)

lemma encrypt_eq_Inr: "encrypt L nonce k m aad = Inr (n, c) \<longleftrightarrow> n = nonce \<and> aead_seal L (key_bytes k) nonce aad m = Some c"
  by (auto simp: encrypt_def and_then_eq_Inr)

lemma decrypt_eq_Inr:
  "aead_law L \<Longrightarrow> decrypt L k nonce c aad = Inr m \<longleftrightarrow>
     length nonce = 24 \<and> aead_seal L (key_bytes k) nonce aad m = Some c"
  by (auto simp: decrypt_def aead_law_def)

lemma encrypt_framed_eq_Inr:
  "encrypt_framed L nonce k m magic aad = Inr out \<longleftrightarrow>
     (\<exists>c. aead_seal L (key_bytes k) nonce aad m = Some c \<and> out = magic @ nonce @ c)"
  by (auto simp: encrypt_framed_def and_then_eq_Inr encrypt_eq_Inr)

lemma decrypt_framed_iff:
  assumes "aead_law L"
  shows "decrypt_framed L k encoded magic aad msg = Inr m \<longleftrightarrow>
     (\<exists>nonce. length nonce = 24 \<and> encrypt_framed L nonce k m magic aad = Inr encoded)"
proof
  assume "decrypt_framed L k encoded magic aad msg = Inr m"
  then have m: "starts_with encoded magic"
    and d: "decrypt L k (take 24 (drop (length magic) encoded)) (drop (length magic + 24) encoded) aad = Inr m"
    by (auto simp: decrypt_framed_def split: if_splits)
  obtain t where t: "encoded = magic @ t" using m by (auto simp: starts_with_iff)
  show "\<exists>nonce. length nonce = 24 \<and> encrypt_framed L nonce k m magic aad = Inr encoded"
    using d unfolding encrypt_framed_eq_Inr
    by (intro exI[of _ "take 24 t"] conjI exI[of _ "drop 24 t"]) (simp_all add: t decrypt_eq_Inr[OF assms])
next
  assume "\<exists>nonce. length nonce = 24 \<and> encrypt_framed L nonce k m magic aad = Inr encoded"
  then show "decrypt_framed L k encoded magic aad msg = Inr m"
    using aead_seal_length[OF assms]
    by (auto simp: encrypt_framed_eq_Inr decrypt_framed_def decrypt_eq_Inr[OF assms])
qed

lemma encrypt_framed_length:
  "aead_law L \<Longrightarrow> encrypt_framed L nonce k m magic aad = Inr out \<Longrightarrow>
   length out = length m + (length magic + length nonce + 16)"
  by (auto simp: encrypt_framed_eq_Inr dest: aead_seal_length)

lemma magic_length [simp]:
  "length BLOB_MAGIC = 8" "length WRAPPED_KEY_MAGIC = 8" "length RETENTION_STATE_MAGIC = 8"
  "length EVENT_BLOCK_MAGIC = 8"
  by (simp_all add: BLOB_MAGIC_def WRAPPED_KEY_MAGIC_def RETENTION_STATE_MAGIC_def EVENT_BLOCK_MAGIC_def)

interpretation framed_box: sealed_box
  "\<lambda>nonce m. encrypt_framed L nonce k m magic aad"
  "\<lambda>c. decrypt_framed L k c magic aad msg" "length magic + 40" "aead_law L" for L k magic aad msg
  by unfold_locales (auto simp: decrypt_framed_iff dest: encrypt_framed_length)

interpretation blob_box: sealed_box
  "\<lambda>nonce m. encrypt_blob L nonce k m hash" "\<lambda>c. decrypt_blob L k c hash" 48 "aead_law L" for L k hash
  unfolding encrypt_blob_def decrypt_blob_def
  using framed_box.sealed_box_axioms[where magic = BLOB_MAGIC] by simp

interpretation block_box: sealed_box
  "\<lambda>nonce m. encrypt_event_block L nonce k m rid first count usize digest"
  "\<lambda>c. decrypt_event_block L k c rid first count usize digest" 48 "aead_law L"
  for L k rid first count usize digest
  unfolding encrypt_event_block_def decrypt_event_block_def
  using framed_box.sealed_box_axioms[where magic = EVENT_BLOCK_MAGIC] by simp

interpretation retention_box: sealed_box
  "\<lambda>nonce m. encrypt_retention_state L nonce k m" "\<lambda>c. decrypt_retention_state L k c" 48 "aead_law L"
  for L k
  unfolding encrypt_retention_state_def decrypt_retention_state_def
  using framed_box.sealed_box_axioms[where magic = RETENTION_STATE_MAGIC] by simp

section \<open>Round trips\<close>

lemma b64_Inr [simp]: "base64_law L \<Longrightarrow> b64_decode L (b64_encode L m) = Some m"
  by (rule b64_roundtrip)

lemma encrypt_event_record_eq_Inr:
  "encrypt_event_record L nonce k m rid seq = Inr out \<longleftrightarrow>
     (\<exists>c. aead_seal L (key_bytes k) nonce (event_aad_v2 rid seq) m = Some c
        \<and> encrypted_event_to_vec L \<lparr>ee_version = 2, ee_run_id = Some rid, ee_sequence = Some seq,
             ee_nonce = b64_encode L nonce, ee_ciphertext = b64_encode L c\<rparr> = Some out)"
  by (auto simp: encrypt_event_record_def and_then_eq_Inr encrypt_eq_Inr)

lemma encrypted_event_complexity:
  assumes "encrypted_event_law L" "encrypted_event_to_vec L r = Some bs"
  shows "validate_json_complexity bs = Inr ()"
proof -
  have "max_nesting 0 (outside_strings False False bs) \<le> 1"
    "structural_tokens (outside_strings False False bs) \<le> 16"
    using assms by (auto simp: encrypted_event_law_def)
  then show ?thesis
    unfolding validate_json_complexity_def
    by (subst validate_with_limits_iff) (simp_all add: json_limits)
qed

lemma decrypt_encrypt_event:
  assumes laws: "encrypted_event_law L" "base64_law L" "aead_law L" and nonce: "length nonce = 24"
    and enc: "encrypt_event_record L nonce k m rid seq = Inr out"
    and ctx: "validate_event_context L m rid seq = Inr ()"
  shows "decrypt_event L k out = Inr m" and "is_encrypted_event L out" and "newline \<notin> set out"
    and "json_whitespace_law L \<Longrightarrow> decrypt_event L k (out @ [newline]) = Inr m"
    and "json_whitespace_law L \<Longrightarrow> is_encrypted_event L (out @ [newline])"
proof -
  obtain c where c: "aead_seal L (key_bytes k) nonce (event_aad_v2 rid seq) m = Some c"
    and out: "encrypted_event_to_vec L \<lparr>ee_version = 2, ee_run_id = Some rid, ee_sequence = Some seq,
             ee_nonce = b64_encode L nonce, ee_ciphertext = b64_encode L c\<rparr> = Some out"
    using enc by (auto simp: encrypt_event_record_eq_Inr)
  have read: "encrypted_event_from_slice L out = Some \<lparr>ee_version = 2, ee_run_id = Some rid,
      ee_sequence = Some seq, ee_nonce = b64_encode L nonce, ee_ciphertext = b64_encode L c\<rparr>"
    using laws(1) out by (auto simp: encrypted_event_law_def)
  note complex = encrypted_event_complexity[OF laws(1) out]
  have "decrypt L k nonce c (event_aad_v2 rid seq) = Inr m"
    using decrypt_eq_Inr[OF laws(3)] nonce c by simp
  then show "decrypt_event L k out = Inr m"
    using read complex ctx laws(2) by (simp add: decrypt_event_def)
  show "is_encrypted_event L out" using read complex by (simp add: is_encrypted_event_def)
  show line: "newline \<notin> set out" using laws(1) out by (auto simp: encrypted_event_law_def)
  assume "json_whitespace_law L"
  then have "encrypted_event_from_slice L (out @ [newline]) = encrypted_event_from_slice L out"
    using line by (simp add: json_whitespace_law_def)
  moreover have "validate_json_complexity (out @ [newline]) = Inr ()" using complex by simp
  ultimately show "decrypt_event L k (out @ [newline]) = Inr m" "is_encrypted_event L (out @ [newline])"
    using \<open>decrypt_event L k out = Inr m\<close> \<open>is_encrypted_event L out\<close> complex
    by (simp_all add: decrypt_event_def is_encrypted_event_def del: validate_newline)
qed

text \<open>An opened version-2 record carries the run and sequence it names.\<close>

lemma decrypt_event_context:
  assumes "decrypt_event L k encoded = Inr m" "encrypted_event_from_slice L encoded = Some r"
    and "ee_version r \<noteq> 1"
  shows "\<exists>rid seq. ee_run_id r = Some rid \<and> ee_sequence r = Some seq
     \<and> validate_event_context L m rid seq = Inr ()"
  using assms by (auto simp: decrypt_event_def and_then_eq_Inr split: if_splits)

lemma event_context_ok:
  "event_json_law L \<Longrightarrow> event_to_vec L e = Some m \<Longrightarrow> validate_stored_json_complexity m = Inr () \<Longrightarrow>
   validate_event_context L m (run_id e) (sequence e) = Inr ()"
  by (fastforce simp: event_json_law_def validate_event_context_def as_str_def as_u64_def)

lemma unwrap_generated_key:
  assumes "aead_law L" "length nonce = 24" "length generated = 32"
    and "generate_wrapped_data_key L nonce generated k context = Inr (dk, wrapped)"
  shows "unwrap_data_key L k wrapped context = Inr dk" and "length wrapped = 80"
proof -
  have valid: "validate_key_context context = Inr ()" and dk: "dk = new_key L generated"
    and enc: "encrypt_framed L nonce k generated WRAPPED_KEY_MAGIC
        (length_prefixed_aad WRAPPED_KEY_AAD_V1 context) = Inr wrapped"
    using assms(4) by (auto simp: generate_wrapped_data_key_def and_then_eq_Inr)
  show "unwrap_data_key L k wrapped context = Inr dk"
    using framed_box.unseal_seal[OF assms(1,2) enc] valid dk assms(3)
    by (simp add: unwrap_data_key_def)
  show "length wrapped = 80"
    using framed_box.seal_length[OF assms(1,2) enc] assms(3) by simp
qed

lemma verify_authenticated_manifest:
  assumes "aead_law L" "base64_law L" "length nonce = 24"
    and "authenticate_manifest L nonce k canonical = Inr (n, t)"
  shows "verify_manifest_authentication L k canonical n t = Inr ()"
proof -
  obtain c where c: "aead_seal L (key_bytes k) nonce (length_prefixed_aad MANIFEST_AAD_V1 canonical) [] = Some c"
    and nt: "n = b64_encode L nonce" "t = b64_encode L c"
    using assms(4) by (auto simp: authenticate_manifest_def and_then_eq_Inr encrypt_eq_Inr)
  have "decrypt L k nonce c (length_prefixed_aad MANIFEST_AAD_V1 canonical) = Inr []"
    using decrypt_eq_Inr[OF assms(1)] c assms(3) by simp
  then show ?thesis using nt assms(2) by (simp add: verify_manifest_authentication_def)
qed

section \<open>Contexts of sealed data\<close>

text \<open>Everything the recorder seals under one key, and the associated data each gets.\<close>

datatype seal_context =
  LegacyEvent
| EventRecord str nat
| EventBlock str nat nat nat bytes
| BlobContent str
| WrappedKey str
| RetentionState
| ManifestTag bytes

fun context_aad :: "seal_context \<Rightarrow> bytes" where
  "context_aad LegacyEvent = EVENT_AAD_V1"
| "context_aad (EventRecord rid seq) = event_aad_v2 rid seq"
| "context_aad (EventBlock rid first count n digest) = event_block_aad_v1 rid first count n digest"
| "context_aad (BlobContent hash) = blob_aad hash"
| "context_aad (WrappedKey context) = length_prefixed_aad WRAPPED_KEY_AAD_V1 context"
| "context_aad RetentionState = RETENTION_STATE_AAD_V1"
| "context_aad (ManifestTag canonical) = length_prefixed_aad MANIFEST_AAD_V1 canonical"

text \<open>The numbers are \<open>u64\<close> and the byte strings have \<open>usize\<close> lengths.\<close>

fun machine_context :: "seal_context \<Rightarrow> bool" where
  "machine_context (EventRecord rid seq) = (length rid \<le> U64_MAX \<and> seq \<le> U64_MAX)"
| "machine_context (EventBlock rid first count n digest) =
     (length rid \<le> U64_MAX \<and> first \<le> U64_MAX \<and> count \<le> U64_MAX \<and> n \<le> U64_MAX)"
| "machine_context (WrappedKey context) = (length context \<le> U64_MAX)"
| "machine_context (ManifestTag canonical) = (length canonical \<le> U64_MAX)"
| "machine_context _ = True"

lemma length_prefixed_inject:
  assumes "length a \<le> U64_MAX" "length b \<le> U64_MAX"
    and "to_be_bytes (u64_of_usize (length a)) @ a @ s = to_be_bytes (u64_of_usize (length b)) @ b @ t"
  shows "a = b \<and> s = t"
proof -
  have "length a = length b" using assms to_be_bytes_inject[of "length a" "length b"] by simp
  then show ?thesis using assms(3) by simp
qed

lemma be_bytes_append_inject:
  "a \<le> U64_MAX \<Longrightarrow> b \<le> U64_MAX \<Longrightarrow> to_be_bytes a @ s = to_be_bytes b @ t \<longleftrightarrow> a = b \<and> s = t"
  using to_be_bytes_inject[of a b] by auto

lemma to_be_bytes_eq:
  "a \<le> U64_MAX \<Longrightarrow> b \<le> U64_MAX \<Longrightarrow> to_be_bytes a = to_be_bytes b \<longleftrightarrow> a = b"
  using to_be_bytes_inject[of a b] by auto

lemmas aad_defs = event_aad_v2_def event_block_aad_v1_def blob_aad_def length_prefixed_aad_def
  EVENT_AAD_V1_def EVENT_AAD_V2_def EVENT_BLOCK_AAD_V1_def WRAPPED_KEY_AAD_V1_def
  RETENTION_STATE_AAD_V1_def MANIFEST_AAD_V1_def

lemma event_aad_inject:
  assumes "machine_context (EventRecord r s)" "machine_context (EventRecord r' s')"
  shows "event_aad_v2 r s = event_aad_v2 r' s' \<longleftrightarrow> r = r' \<and> s = s'"
  using assms length_prefixed_inject[of r r' "to_be_bytes s" "to_be_bytes s'"]
  by (auto simp: event_aad_v2_def to_be_bytes_eq)

lemma event_block_aad_inject:
  assumes "machine_context (EventBlock r f c n d)" "machine_context (EventBlock r' f' c' n' d')"
  shows "event_block_aad_v1 r f c n d = event_block_aad_v1 r' f' c' n' d' \<longleftrightarrow>
    r = r' \<and> f = f' \<and> c = c' \<and> n = n' \<and> d = d'"
  using assms length_prefixed_inject[of r r'
      "to_be_bytes f @ to_be_bytes c @ to_be_bytes n @ d"
      "to_be_bytes f' @ to_be_bytes c' @ to_be_bytes n' @ d'"]
  by (auto simp: event_block_aad_v1_def to_be_bytes_eq)

lemma length_prefixed_aad_inject:
  "length a \<le> U64_MAX \<Longrightarrow> length b \<le> U64_MAX \<Longrightarrow>
   length_prefixed_aad d a = length_prefixed_aad d b \<longleftrightarrow> a = b"
  using length_prefixed_inject[of a b "[]" "[]"] by (auto simp: length_prefixed_aad_def)

fun context_kind :: "seal_context \<Rightarrow> nat" where
  "context_kind LegacyEvent = 0"
| "context_kind (EventRecord _ _) = 1"
| "context_kind (EventBlock _ _ _ _ _) = 2"
| "context_kind (BlobContent _) = 3"
| "context_kind (WrappedKey _) = 4"
| "context_kind RetentionState = 5"
| "context_kind (ManifestTag _) = 6"

lemma context_aad_kind: "context_aad a = context_aad b \<Longrightarrow> context_kind a = context_kind b"
  by (cases a; cases b) (simp_all add: aad_defs)

text \<open>Distinct contexts have distinct associated data.\<close>

lemma context_aad_injective:
  assumes "machine_context a" "machine_context b" "context_aad a = context_aad b"
  shows "a = b"
proof -
  have kind: "context_kind a = context_kind b" using assms(3) by (rule context_aad_kind)
  show ?thesis
  proof (cases a)
    case (EventRecord r s)
    then show ?thesis using assms kind by (cases b) (simp_all add: event_aad_inject)
  next
    case (EventBlock r f c n d)
    then show ?thesis using assms kind by (cases b) (simp_all add: event_block_aad_inject)
  next
    case (WrappedKey c)
    then show ?thesis using assms kind by (cases b) (simp_all add: length_prefixed_aad_inject)
  next
    case (ManifestTag c)
    then show ?thesis using assms kind by (cases b) (simp_all add: length_prefixed_aad_inject)
  qed (use assms kind in \<open>cases b; simp add: blob_aad_def\<close>)+
qed

text \<open>What the recorder stores for a context: a frame of magic, nonce and ciphertext, or the nonce and tag
  that authenticate a manifest. Event records are lines of the log that carry their own context.\<close>

datatype sealed_object = Frame bytes | Tag str str

inductive sealed_as ::
  "('x) crates_scheme \<Rightarrow> bytes \<Rightarrow> encryption_key \<Rightarrow> seal_context \<Rightarrow> bytes \<Rightarrow> sealed_object \<Rightarrow> bool"
  for L nonce k where
  seal_blob: "encrypt_blob L nonce k m hash = Inr x \<Longrightarrow> sealed_as L nonce k (BlobContent hash) m (Frame x)"
| seal_block: "encrypt_event_block L nonce k m rid first count n digest = Inr x \<Longrightarrow>
    sealed_as L nonce k (EventBlock rid first count n digest) m (Frame x)"
| seal_key: "generate_wrapped_data_key L nonce m k context = Inr (dk, x) \<Longrightarrow>
    sealed_as L nonce k (WrappedKey context) m (Frame x)"
| seal_retention: "encrypt_retention_state L nonce k m = Inr x \<Longrightarrow> sealed_as L nonce k RetentionState m (Frame x)"
| seal_manifest: "authenticate_manifest L nonce k canonical = Inr (n, t) \<Longrightarrow>
    sealed_as L nonce k (ManifestTag canonical) [] (Tag n t)"

inductive opens_as :: "('x) crates_scheme \<Rightarrow> encryption_key \<Rightarrow> seal_context \<Rightarrow> sealed_object \<Rightarrow> bytes \<Rightarrow> bool"
  for L k where
  open_blob: "decrypt_blob L k x hash = Inr m \<Longrightarrow> opens_as L k (BlobContent hash) (Frame x) m"
| open_block: "decrypt_event_block L k x rid first count n digest = Inr m \<Longrightarrow>
    opens_as L k (EventBlock rid first count n digest) (Frame x) m"
| open_key: "unwrap_data_key L k x context = Inr dk \<Longrightarrow> opens_as L k (WrappedKey context) (Frame x) (key_bytes dk)"
| open_retention: "decrypt_retention_state L k x = Inr m \<Longrightarrow> opens_as L k RetentionState (Frame x) m"
| open_manifest: "verify_manifest_authentication L k canonical n t = Inr () \<Longrightarrow>
    opens_as L k (ManifestTag canonical) (Tag n t) []"

text \<open>The layout both sides agree on.\<close>

fun context_magic :: "seal_context \<Rightarrow> bytes" where
  "context_magic (BlobContent _) = BLOB_MAGIC"
| "context_magic (EventBlock _ _ _ _ _) = EVENT_BLOCK_MAGIC"
| "context_magic (WrappedKey _) = WRAPPED_KEY_MAGIC"
| "context_magic RetentionState = RETENTION_STATE_MAGIC"
| "context_magic _ = []"

definition laid_out :: "('x) crates_scheme \<Rightarrow> seal_context \<Rightarrow> bytes \<Rightarrow> bytes \<Rightarrow> sealed_object \<Rightarrow> bool" where
  "laid_out L a nonce c x \<longleftrightarrow>
     (case x of Frame y \<Rightarrow> context_kind a \<in> {2, 3, 4, 5} \<and> y = context_magic a @ nonce @ c
      | Tag n t \<Rightarrow> context_kind a = 6 \<and> b64_decode L n = Some nonce \<and> b64_decode L t = Some c)"

lemma sealed_as_layout:
  assumes "sealed_as L nonce k a m x" "base64_law L"
  shows "\<exists>c. aead_seal L (key_bytes k) nonce (context_aad a) m = Some c \<and> laid_out L a nonce c x"
  using assms
  by (cases rule: sealed_as.cases)
    (auto simp: encrypt_blob_def encrypt_event_block_def generate_wrapped_data_key_def encrypt_retention_state_def
      authenticate_manifest_def encrypt_framed_eq_Inr encrypt_eq_Inr and_then_eq_Inr laid_out_def base64_law_def)

lemma opens_as_layout:
  assumes "opens_as L k b x m" "aead_law L"
  shows "\<exists>n c. length n = 24 \<and> aead_seal L (key_bytes k) n (context_aad b) m = Some c \<and> laid_out L b n c x"
  using assms
  by (cases rule: opens_as.cases)
    (auto simp: decrypt_blob_def decrypt_event_block_def unwrap_data_key_def decrypt_retention_state_def new_key_def
      verify_manifest_authentication_def decrypt_framed_iff[OF assms(2)] decrypt_eq_Inr[OF assms(2)] encrypt_framed_eq_Inr
      and_then_eq_Inr laid_out_def split: if_splits)

lemma laid_out_once:
  assumes "laid_out L a n c x" "laid_out L b n' c' x" "length n = 24" "length n' = 24"
  shows "context_kind a = context_kind b \<and> n = n' \<and> c = c'"
  using assms
  by (cases a; cases b)
    (auto simp: laid_out_def BLOB_MAGIC_def EVENT_BLOCK_MAGIC_def WRAPPED_KEY_MAGIC_def RETENTION_STATE_MAGIC_def
      split: sealed_object.splits)

text \<open>C22: Context binding of encryption at rest. An object sealed as a blob, an event block, a wrapped data
  key, the retention state or the tag of a manifest opens under the same key only as the same
  kind of object in the same context (blob hash; run, position, size and digest of a block; class
  of a key; contents of a manifest), and to what was sealed; or else the AEAD has accepted one
  nonce and ciphertext under two different associated data, which is a forgery of its tag.\<close>

theorem sealed_context_bound:
  assumes "aead_law L" "base64_law L" "length nonce = 24" "machine_context a" "machine_context b"
    and "sealed_as L nonce k a m x" "opens_as L k b x m'"
  shows "a = b \<and> m' = m
     \<or> context_kind a = context_kind b \<and> context_aad a \<noteq> context_aad b
       \<and> (\<exists>c. aead_open L (key_bytes k) nonce (context_aad a) c = Some m \<and> aead_open L (key_bytes k) nonce (context_aad b) c = Some m')"
proof -
  obtain c where c: "aead_seal L (key_bytes k) nonce (context_aad a) m = Some c" "laid_out L a nonce c x"
    using sealed_as_layout[OF assms(6,2)] by blast
  obtain n' c' where c': "length n' = 24" "aead_seal L (key_bytes k) n' (context_aad b) m' = Some c'" "laid_out L b n' c' x"
    using opens_as_layout[OF assms(7,1)] by blast
  have same: "context_kind a = context_kind b" "n' = nonce" "c' = c"
    using laid_out_once[OF c(2) c'(3) assms(3) c'(1)] by simp_all
  note opened = aead_open_seal[OF assms(1) c(1)] aead_open_seal[OF assms(1) c'(2)[unfolded same(2,3)]]
  show ?thesis
  proof (cases "context_aad a = context_aad b")
    case True
    then show ?thesis using context_aad_injective[OF assms(4,5)] opened by simp
  next
    case False
    then show ?thesis using same(1) opened by blast
  qed
qed

text \<open>A wrapped key of one class, which the demonstration cipher (it ignores the associated data) also
  opens as another: the collision is found, and as a blob it does not open at all.\<close>

theorem sealed_context_bound_witness:
  "\<exists>x. sealed_as demo_crates (replicate 24 CHR ''n'') (new_key demo_crates []) (WrappedKey ''body'') (replicate 32 CHR ''k'') (Frame x)
     \<and> opens_as demo_crates (new_key demo_crates []) (WrappedKey ''pcap'') (Frame x) (replicate 32 CHR ''k'')
     \<and> context_aad (WrappedKey ''body'') \<noteq> context_aad (WrappedKey ''pcap'')
     \<and> (\<forall>m. \<not> opens_as demo_crates (new_key demo_crates []) (BlobContent ''h'') (Frame x) m)"
proof -
  let ?n = "replicate 24 CHR ''n''" and ?m = "replicate 32 CHR ''k''" and ?k = "new_key demo_crates []"
  define x where "x = WRAPPED_KEY_MAGIC @ ?n @ ?m @ demo_tag"
  have contexts: "validate_key_context ''body'' = Inr ()" "validate_key_context ''pcap'' = Inr ()"
    by (simp_all add: validate_key_context_def is_ascii_lowercase_def in_byte_range_def byte_val_def)
  have "generate_wrapped_data_key demo_crates ?n ?m ?k ''body'' = Inr (new_key demo_crates ?m, x)"
    by (simp add: generate_wrapped_data_key_def contexts encrypt_framed_def encrypt_def demo_crates_def x_def)
  then have sealed: "sealed_as demo_crates ?n ?k (WrappedKey ''body'') ?m (Frame x)" by (rule seal_key)
  have "encrypt_framed demo_crates ?n ?k ?m WRAPPED_KEY_MAGIC (length_prefixed_aad WRAPPED_KEY_AAD_V1 ''pcap'') = Inr x"
    by (simp add: encrypt_framed_def encrypt_def demo_crates_def x_def)
  then have "decrypt_framed demo_crates ?k x WRAPPED_KEY_MAGIC (length_prefixed_aad WRAPPED_KEY_AAD_V1 ''pcap'') msg = Inr ?m" for msg
    unfolding decrypt_framed_iff[OF demo_laws(4)] by (intro exI[of _ ?n]) simp
  then have "unwrap_data_key demo_crates ?k x ''pcap'' = Inr (new_key demo_crates ?m)"
    by (simp add: unwrap_data_key_def contexts)
  from open_key[OF this] have opened: "opens_as demo_crates ?k (WrappedKey ''pcap'') (Frame x) ?m" by (simp add: new_key_def)
  have "context_aad (WrappedKey ''body'') \<noteq> context_aad (WrappedKey ''pcap'')"
    using sealed_context_bound[OF demo_laws(4,3) _ _ _ sealed opened] by (auto simp: U64_MAX_def)
  moreover have "\<not> opens_as demo_crates ?k (BlobContent ''h'') (Frame x) m" for m
    using sealed_context_bound[OF demo_laws(4,3) _ _ _ sealed, of "BlobContent ''h''" m] by (auto simp: U64_MAX_def)
  ultimately show ?thesis using sealed opened by blast
qed

text \<open>C23: Key files. The file that key generation writes is accepted by the loader and yields the
  same key, identifier included.\<close>

theorem generated_key_file_loads:
  assumes "hex_law L" "length bs = 32"
  shows "key_from_file L (snd (generate_key_file L bs)) = Inr (fst (generate_key_file L bs))"
proof -
  have len: "length (hex_encode L bs) = 64" using hex_length[OF assms(1)] assms(2) by simp
  have "carriage_return \<notin> set (hex_encode L bs)"
    using hex_chars[OF assms(1), of carriage_return bs]
    by (auto simp: is_lower_hex_def is_ascii_digit_def in_byte_range_def byte_val_def)
  then have "strip_suffix_or carriage_return (hex_encode L bs) = hex_encode L bs"
    by (metis strip_suffix_or_def last_in_set)
  moreover have "strip_suffix_or newline (hex_encode L bs @ [newline]) = hex_encode L bs"
    by (simp add: strip_suffix_or_def)
  ultimately show ?thesis
    using len assms by (simp add: generate_key_file_def key_from_file_def parse_key_def hex_roundtrip)
qed

theorem generated_key_file_loads_witness:
  "key_from_file demo_crates (snd (generate_key_file demo_crates (replicate 32 (CHR ''k'')))) =
   Inr (fst (generate_key_file demo_crates (replicate 32 (CHR ''k''))))"
  by (rule generated_key_file_loads) simp_all

section \<open>A concrete codec for witnesses\<close>

text \<open>Two events of run \<open>r\<close> with their plain and encrypted lines, as lookup tables.\<close>

definition demo_event :: "nat \<Rightarrow> event_envelope" where
  "demo_event n = from_pending n n (new_pending_event 0 ''r'' ''proxy'' ''request'')"

definition demo_nonce :: bytes where "demo_nonce = replicate 24 (CHR ''n'')"

definition demo_sealed :: "nat \<Rightarrow> bytes \<Rightarrow> encrypted_event" where
  "demo_sealed n line = \<lparr>ee_version = 2, ee_run_id = Some ''r'', ee_sequence = Some n,
     ee_nonce = demo_nonce, ee_ciphertext = line @ demo_tag\<rparr>"

definition demo_value :: "nat \<Rightarrow> json" where
  "demo_value n = JObject [(''run_id'', JString ''r''), (''sequence'', JNumber (PosInt n))]"

definition demo_codecs :: json_codecs where
  "demo_codecs = crates.extend demo_crates (json_codecs.fields
     (map_of [(demo_sealed 1 ''{1}'', ''{E1}''), (demo_sealed 2 ''{2}'', ''{E2}'')])
     (\<lambda>bs. map_of [(''{E1}'', demo_sealed 1 ''{1}''), (''{E2}'', demo_sealed 2 ''{2}'')]
             (strip_suffix_or newline bs))
     (map_of [(''{1}'', demo_value 1), (''{2}'', demo_value 2)])
     (map_of [(demo_event 1, ''{1}''), (demo_event 2, ''{2}'')])
     (\<lambda>bs. map_of [(''{1}'', demo_event 1), (''{2}'', demo_event 2)] (strip_suffix_or newline bs)))"

lemma demo_codecs_crates [simp]:
  "sha256 demo_codecs = sha256 demo_crates" "hex_encode demo_codecs = hex_encode demo_crates"
  "hex_decode demo_codecs = hex_decode demo_crates"
  "b64_encode demo_codecs = b64_encode demo_crates" "b64_decode demo_codecs = b64_decode demo_crates"
  "aead_seal demo_codecs = aead_seal demo_crates" "aead_open demo_codecs = aead_open demo_crates"
  "hkdf_expand demo_codecs = hkdf_expand demo_crates"
  "zstd_compress demo_codecs = zstd_compress demo_crates" "zstd_read demo_codecs = zstd_read demo_crates"
  "uuid_version demo_codecs = uuid_version demo_crates"
  by (simp_all add: demo_codecs_def crates.defs json_codecs.defs)

lemma demo_codecs_json:
  "encrypted_event_to_vec demo_codecs =
     map_of [(demo_sealed 1 ''{1}'', ''{E1}''), (demo_sealed 2 ''{2}'', ''{E2}'')]"
  "encrypted_event_from_slice demo_codecs =
     (\<lambda>bs. map_of [(''{E1}'', demo_sealed 1 ''{1}''), (''{E2}'', demo_sealed 2 ''{2}'')]
             (strip_suffix_or newline bs))"
  "value_from_slice demo_codecs = map_of [(''{1}'', demo_value 1), (''{2}'', demo_value 2)]"
  "event_to_vec demo_codecs = map_of [(demo_event 1, ''{1}''), (demo_event 2, ''{2}'')]"
  "event_from_slice demo_codecs =
     (\<lambda>bs. map_of [(''{1}'', demo_event 1), (''{2}'', demo_event 2)] (strip_suffix_or newline bs))"
  by (simp_all add: demo_codecs_def crates.defs json_codecs.defs)

lemma demo_event_simps [simp]:
  "sequence (demo_event n) = n" "run_id (demo_event n) = ''r''"
  "demo_event m = demo_event n \<longleftrightarrow> m = n" "demo_sealed m l = demo_sealed n l' \<longleftrightarrow> m = n \<and> l = l'"
  by (auto simp: demo_event_def from_pending_def new_pending_event_def demo_sealed_def)

lemma demo_codecs_crates_laws [simp]:
  "sha256_law demo_codecs" "hex_law demo_codecs" "base64_law demo_codecs" "aead_law demo_codecs"
  "hkdf_law demo_codecs" "zstd_law demo_codecs"
  using demo_laws
  unfolding sha256_law_def hex_law_def base64_law_def aead_law_def hkdf_law_def zstd_law_def
    demo_codecs_crates by blast+

lemma strip_newline [simp]: "strip_suffix_or newline (bs @ [newline]) = bs"
  by (simp add: strip_suffix_or_def)

lemma strip_no_newline [simp]: "newline \<notin> set bs \<Longrightarrow> strip_suffix_or newline bs = bs"
  by (metis strip_suffix_or_def last_in_set)

lemma demo_codecs_whitespace [simp]: "json_whitespace_law demo_codecs"
  unfolding json_whitespace_law_def demo_codecs_json
  by (intro allI impI) (simp only: strip_newline strip_no_newline simp_thms)

lemma demo_codecs_json_laws [simp]: "encrypted_event_law demo_codecs" "event_json_law demo_codecs"
  by (auto simp: encrypted_event_law_def event_json_law_def demo_codecs_json demo_value_def json_get_def
        starts_with_def structural_tokens_def opens_def closes_def separates_def split: if_splits)

text \<open>C24: Encrypted event records. A serialized envelope within the stored-JSON limits, sealed for
  its run and sequence, opens again to the same bytes; the sealed line is recognised as
  encrypted and contains no line break.\<close>

theorem event_record_roundtrip:
  assumes "encrypted_event_law L" "event_json_law L" "base64_law L" "aead_law L" "length nonce = 24"
    and "event_to_vec L e = Some m" "validate_stored_json_complexity m = Inr ()"
    and "encrypt_event_record L nonce k m (run_id e) (sequence e) = Inr out"
  shows "decrypt_event L k out = Inr m \<and> is_encrypted_event L out \<and> newline \<notin> set out"
  using decrypt_encrypt_event[OF assms(1,3,4,5,8) event_context_ok[OF assms(2,6,7)]] by simp

theorem event_record_roundtrip_witness:
  "decrypt_event demo_codecs (new_key demo_crates []) ''{E1}'' = Inr ''{1}''"
proof -
  have "encrypt_event_record demo_codecs demo_nonce (new_key demo_crates []) ''{1}''
      (run_id (demo_event 1)) (sequence (demo_event 1)) = Inr ''{E1}''"
    by (simp add: encrypt_event_record_def encrypt_def demo_codecs_json demo_crates_def demo_sealed_def)
  moreover have "validate_stored_json_complexity ''{1}'' = Inr ()"
    unfolding validate_stored_json_complexity_def
    by (subst validate_with_limits_iff)
      (simp_all add: json_limits structural_tokens_def opens_def closes_def separates_def)
  moreover have "event_to_vec demo_codecs (demo_event 1) = Some ''{1}''"
    by (simp add: demo_codecs_json)
  ultimately show ?thesis
    using event_record_roundtrip[of demo_codecs demo_nonce "demo_event 1" "''{1}''"
        "new_key demo_crates []" "''{E1}''"]
    by (simp add: demo_nonce_def)
qed

text \<open>C25: Sealed frames. Blobs, event blocks and the retention state open to exactly what was
  sealed, under 48 bytes of overhead; whatever opens was produced by sealing; and a wrapped
  data key unwraps to the key it wraps.\<close>

theorem sealed_frames_roundtrip:
  assumes "aead_law L" "length nonce = 24"
  shows "(encrypt_blob L nonce k m hash = Inr c \<longrightarrow> decrypt_blob L k c hash = Inr m \<and> length c = length m + 48)
    \<and> (decrypt_blob L k c hash = Inr m \<longrightarrow> (\<exists>n. length n = 24 \<and> encrypt_blob L n k m hash = Inr c))
    \<and> (encrypt_event_block L nonce k m rid first count n digest = Inr c \<longrightarrow>
         decrypt_event_block L k c rid first count n digest = Inr m \<and> length c = length m + 48)
    \<and> (encrypt_retention_state L nonce k m = Inr c \<longrightarrow> decrypt_retention_state L k c = Inr m)
    \<and> (length g = 32 \<longrightarrow> generate_wrapped_data_key L nonce g k context = Inr (dk, c) \<longrightarrow>
         unwrap_data_key L k c context = Inr dk \<and> length c = 80)"
  by (intro conjI impI;
      (erule blob_box.unseal_seal[OF assms] blob_box.seal_length[OF assms]
         blob_box.unseal_sealed[OF assms(1)] block_box.unseal_seal[OF assms]
         block_box.seal_length[OF assms] retention_box.unseal_seal[OF assms]
       | erule (1) unwrap_generated_key[OF assms]))

theorem sealed_frames_roundtrip_witness:
  "decrypt_blob demo_crates (new_key demo_crates []) (BLOB_MAGIC @ demo_nonce @ ''body'' @ demo_tag) ''h''
   = Inr ''body''"
proof -
  have "encrypt_blob demo_crates demo_nonce (new_key demo_crates []) ''body'' ''h'' =
      Inr (BLOB_MAGIC @ demo_nonce @ ''body'' @ demo_tag)"
    by (simp add: encrypt_blob_def encrypt_framed_def encrypt_def demo_crates_def)
  then show ?thesis
    using sealed_frames_roundtrip[of demo_crates demo_nonce, THEN conjunct1]
    by (simp add: demo_nonce_def)
qed

end
