(* ===== verification/Record_Lines.thy ===== *)
theory Record_Lines
  imports Prelude
begin

text \<open>
  Newline-framed append-only logs, the format shared by the event log and the audit log. A
  reader takes one line at a time from a length-limited \<open>BufRead\<close>, stops at a tail that has
  no line break and rejects a line longer than the limit. The locale \<open>framed_log\<close> states what
  a writer promises about the lines it appends; from it follow, once and for all, that a scan
  of the file visits exactly the appended records, and that a crash which keeps a prefix of
  the file keeps every record inside that prefix and leaves at most a torn tail.
\<close>

section \<open>The reader loop\<close>

lemma read_until_rest_shorter:
  "fst (read_until n bs) \<noteq> [] \<Longrightarrow> length (snd (read_until n bs)) < length bs"
  by (cases "read_until n bs") (auto dest: read_until_shorter)

function line_loop :: "nat \<Rightarrow> ('s \<Rightarrow> 'e) \<Rightarrow> ('s \<Rightarrow> bytes \<Rightarrow> 'e + 's) \<Rightarrow> 's \<Rightarrow> bytes \<Rightarrow> 'e + 's" where
  "line_loop limit too_large step s bs =
     (let buffer = fst (read_until (limit + 1) bs); rest = snd (read_until (limit + 1) bs) in
      if buffer = [] then Inr s
      else if length buffer > limit then Inl (too_large s)
      else if last buffer \<noteq> newline then Inr s
      else and_then (step s buffer) (\<lambda>s'. line_loop limit too_large step s' rest))"
  by pat_completeness auto
termination
  by (relation "measure (\<lambda>(_, _, _, _, bs). length bs)") (auto intro: read_until_rest_shorter)

declare line_loop.simps [simp del]

text \<open>A left fold that stops at the first error.\<close>

fun try_fold :: "('s \<Rightarrow> 'a \<Rightarrow> 'e + 's) \<Rightarrow> 's \<Rightarrow> 'a list \<Rightarrow> 'e + 's" where
  "try_fold f s [] = Inr s"
| "try_fold f s (x # xs) = and_then (f s x) (\<lambda>s'. try_fold f s' xs)"

lemma try_fold_append: "try_fold f s (xs @ ys) = and_then (try_fold f s xs) (\<lambda>s'. try_fold f s' ys)"
proof (induction xs arbitrary: s)
  case (Cons x xs)
  then show ?case by (cases "f s x") simp_all
qed simp

lemma try_fold_map: "try_fold f s (map g xs) = try_fold (\<lambda>s x. f s (g x)) s xs"
  by (induction xs arbitrary: s) (simp_all add: and_then_def split: sum.splits)

lemma line_loop_tail:
  assumes "newline \<notin> set tail" "length tail \<le> limit"
  shows "line_loop limit too_large step s tail = Inr s"
proof (cases "tail = []")
  case False
  then have "last tail \<noteq> newline" using assms(1) last_in_set by metis
  then show ?thesis using assms read_until_tail[OF assms(1), of "limit + 1"]
    by (simp add: line_loop.simps[of _ _ _ _ tail])
qed (simp add: line_loop.simps)

lemma line_loop_line:
  assumes "newline \<notin> set l" "length l < limit"
  shows "line_loop limit too_large step s (l @ newline # rest) =
     and_then (step s (l @ [newline])) (\<lambda>s'. line_loop limit too_large step s' rest)"
  using read_until_line[OF assms(1), of "limit + 1" rest] assms
  by (simp add: line_loop.simps[of _ _ _ _ "l @ newline # rest"])

section \<open>The writer's contract\<close>

locale framed_log =
  fixes frame :: "'r \<Rightarrow> bytes"
    and limit :: nat
    and good :: "'r \<Rightarrow> bool"
  assumes frame_line: "good r \<Longrightarrow> \<exists>l. frame r = l @ [newline] \<and> newline \<notin> set l"
    and frame_limit: "good r \<Longrightarrow> length (frame r) \<le> limit"
begin

lemma scan_frames:
  assumes "\<forall>r\<in>set rs. good r" "newline \<notin> set tail" "length tail \<le> limit"
  shows "line_loop limit too_large step s (concat (map frame rs) @ tail) =
     try_fold (\<lambda>s r. step s (frame r)) s rs"
  using assms(1)
proof (induction rs arbitrary: s)
  case Nil
  then show ?case using line_loop_tail[OF assms(2,3)] by simp
next
  case (Cons r rs)
  obtain l where l: "frame r = l @ [newline]" "newline \<notin> set l" using Cons.prems frame_line by auto
  then have "length l < limit" using Cons.prems frame_limit[of r] by simp
  then show ?case using Cons by (simp add: l(1) line_loop_line[OF l(2)])
qed

text \<open>What a crash leaves: the frames that fit, and a torn beginning of the next one.\<close>

lemma prefix_frames:
  assumes "\<forall>r\<in>set rs. good r" "prefix p (concat (map frame rs))"
  obtains k tail where "k \<le> length rs" "p = concat (map frame (take k rs)) @ tail"
    "newline \<notin> set tail" "length tail \<le> limit"
    "k < length rs \<Longrightarrow> prefix tail (frame (rs ! k))"
  using assms
proof (induction rs arbitrary: p thesis)
  case Nil
  show ?case by (rule Nil(1)[of 0 "[]"]) (use Nil in auto)
next
  case (Cons r rs)
  obtain l where l: "frame r = l @ [newline]" "newline \<notin> set l"
    using Cons.prems(2) frame_line[of r] by auto
  show ?case
  proof (cases "length p < length (frame r)")
    case True
    then have p: "prefix p (frame r)"
      using Cons.prems(3) by (auto simp: prefix_append)
    then have "prefix p l" using True l(1) by (auto simp: prefix_append prefix_Cons)
    then have "newline \<notin> set p" "length p \<le> limit"
      using l frame_limit[of r] Cons.prems(2) by (auto dest: set_mono_prefix prefix_length_le)
    then show thesis by (intro Cons.prems(1)[of 0 p]) (use p in auto)
  next
    case False
    then have "prefix (frame r) p"
      using Cons.prems(3) prefix_length_prefix[of "frame r" "concat (map frame (r # rs))" p] by simp
    then obtain q where q: "p = frame r @ q" by (auto elim: prefixE)
    then have rest: "prefix q (concat (map frame rs))" using Cons.prems(3) by simp
    obtain k tail where k: "k \<le> length rs" "q = concat (map frame (take k rs)) @ tail"
        "newline \<notin> set tail" "length tail \<le> limit"
        "k < length rs \<Longrightarrow> prefix tail (frame (rs ! k))"
      by (rule Cons.IH[OF _ _ rest]) (use Cons.prems(2) in auto)
    show thesis by (rule Cons.prems(1)[of "Suc k" tail]) (use k q in auto)
  qed
qed

text \<open>Frames wholly inside the surviving prefix survive.\<close>

lemma prefix_frames_keep:
  assumes "\<forall>r\<in>set rs. good r" "prefix p (concat (map frame rs))"
    and "j \<le> length rs" "length (concat (map frame (take j rs))) \<le> length p"
  obtains k tail where "j \<le> k" "k \<le> length rs" "p = concat (map frame (take k rs)) @ tail"
    "newline \<notin> set tail" "length tail \<le> limit"
    "tail = [] \<or> k < length rs \<and> prefix tail (frame (rs ! k))"
proof -
  obtain k tail where k: "k \<le> length rs" "p = concat (map frame (take k rs)) @ tail"
    "newline \<notin> set tail" "length tail \<le> limit" "k < length rs \<Longrightarrow> prefix tail (frame (rs ! k))"
    using prefix_frames[OF assms(1,2)] by metis
  have "j \<le> k"
  proof (rule ccontr)
    assume "\<not> j \<le> k"
    then have k': "k < length rs" "Suc k \<le> j" using assms(3) by auto
    obtain l where l: "frame (rs ! k) = l @ [newline]" using frame_line assms(1) k'(1) by fastforce
    have "tail \<noteq> frame (rs ! k)" using k(3) l by auto
    then have short: "length tail < length (frame (rs ! k))"
      using k(5)[OF k'(1)] prefix_length_less strict_prefixI by blast
    have "drop k (take j rs) = rs ! k # drop (Suc k) (take j rs)"
      using k' assms(3) Cons_nth_drop_Suc[of k "take j rs"] by simp
    then have "take j rs = take k rs @ rs ! k # drop (Suc k) (take j rs)"
      using append_take_drop_id[of k "take j rs"] k'(2) by (simp add: min_def)
    from arg_cong[OF this, of "\<lambda>xs. length (concat (map frame xs))"]
    have "length (concat (map frame (take j rs))) \<ge>
        length (concat (map frame (take k rs))) + length (frame (rs ! k))"
      by simp
    then show False using assms(4) k(2) short by simp
  qed
  moreover have "tail = []" if "k = length rs"
    using prefix_length_le[OF assms(2)] k(2) that by simp
  ultimately show thesis using that k by (metis le_neq_implies_less)
qed

end

end
