(* ===== verification/Event_Codec.thy ===== *)
theory Event_Codec
  imports Crypto Policy Record_Lines
begin

text \<open>
  The physical records of the event log (\<open>src/storage.rs\<close>): encoding of an envelope as one
  JSON line, plain or encrypted, and of a group of envelopes as one zstd block; their decoding
  with every check the code makes. The round trips below are what recovery and the readers
  rely on.
\<close>

section \<open>Errors and constants\<close>

datatype storage_error =
  SIo io_error
| SJson
| SWriter str
| SInvalidSequence nat nat
| SInvalidRunId str str nat
| SInvalidEncryptionScope str nat
| SEventRecordTooLarge nat nat
| SInvalidEventBlock str
| SEventStorageBudgetExceeded nat nat nat
| SInvalidEnvelope str
| SDuplicateEventId uuid nat
| SInvalidEventIdOrder uuid uuid nat
| SAnalysisLimitExceeded str nat
| SInvalidPolicy str
| SBlobStorageBudgetExceeded nat nat nat
| SBlobFileLimitExceeded nat nat

fun category :: "storage_error \<Rightarrow> str" where
  "category (SIo _) = ''io''"
| "category SJson = ''json''"
| "category (SWriter _) = ''writer''"
| "category (SInvalidSequence _ _) = ''invalid_sequence''"
| "category (SInvalidRunId _ _ _) = ''invalid_run_id''"
| "category (SInvalidEncryptionScope _ _) = ''invalid_encryption_scope''"
| "category (SEventRecordTooLarge _ _) = ''event_record_too_large''"
| "category (SInvalidEventBlock _) = ''invalid_event_block''"
| "category (SEventStorageBudgetExceeded _ _ _) = ''event_storage_budget''"
| "category (SInvalidEnvelope _) = ''invalid_envelope''"
| "category (SDuplicateEventId _ _) = ''duplicate_event_id''"
| "category (SInvalidEventIdOrder _ _ _) = ''invalid_event_id_order''"
| "category (SAnalysisLimitExceeded _ _) = ''analysis_limit''"
| "category (SInvalidPolicy _) = ''invalid_policy''"
| "category (SBlobStorageBudgetExceeded _ _ _) = ''blob_storage_budget''"
| "category (SBlobFileLimitExceeded _ _) = ''blob_file_limit''"

definition MAX_EVENT_RECORD_BYTES :: nat where "MAX_EVENT_RECORD_BYTES = 24 * 1024 * 1024"
definition EVENT_BLOCK_HEADER :: bytes where
  "EVENT_BLOCK_HEADER = ''IOREC-EVENTS-ZSTD-BLOCKS-V1'' @ [newline]"
definition EVENT_BLOCK_CODEC :: str where "EVENT_BLOCK_CODEC = ''zstd''"
definition EVENT_BLOCK_VERSION :: nat where "EVENT_BLOCK_VERSION = 1"
definition MAX_EVENT_BLOCK_EVENTS :: nat where "MAX_EVENT_BLOCK_EVENTS = 1024"
definition MAX_EVENT_BLOCK_UNCOMPRESSED_BYTES :: nat where
  "MAX_EVENT_BLOCK_UNCOMPRESSED_BYTES = 32 * 1024 * 1024"
definition MAX_EVENT_BLOCK_COMPRESSED_BYTES :: nat where
  "MAX_EVENT_BLOCK_COMPRESSED_BYTES = 32 * 1024 * 1024 + 64 * 1024"
definition MAX_EVENT_BLOCK_RECORD_BYTES :: nat where
  "MAX_EVENT_BLOCK_RECORD_BYTES = 48 * 1024 * 1024"

lemmas event_limits = MAX_EVENT_RECORD_BYTES_def MAX_EVENT_BLOCK_EVENTS_def
  MAX_EVENT_BLOCK_UNCOMPRESSED_BYTES_def MAX_EVENT_BLOCK_COMPRESSED_BYTES_def
  MAX_EVENT_BLOCK_RECORD_BYTES_def

section \<open>Block records\<close>

record event_block_record =
  br_version :: nat
  br_codec :: str
  br_run_id :: str
  br_first_sequence :: nat
  br_event_count :: nat
  br_uncompressed_bytes :: nat
  br_plaintext_sha256 :: str
  br_encrypted :: bool
  br_payload :: str

record log_codecs = json_codecs +
  block_to_vec :: "event_block_record \<Rightarrow> bytes option"
  block_from_slice :: "bytes \<Rightarrow> event_block_record option"

text \<open>A serialized block record is one line, a flat object of nine fields, and reads back, also
  with the line break after it.\<close>

definition block_json_law :: "('x) log_codecs_scheme \<Rightarrow> bool" where
  "block_json_law L \<longleftrightarrow> (\<forall>r bs. block_to_vec L r = Some bs \<longrightarrow>
     block_from_slice L (bs @ [newline]) = Some r \<and> newline \<notin> set bs
     \<and> max_nesting 0 (outside_strings False False bs) \<le> 1
     \<and> structural_tokens (outside_strings False False bs) \<le> 32)"

definition log_laws :: "('x) log_codecs_scheme \<Rightarrow> bool" where
  "log_laws L \<longleftrightarrow> sha256_law L \<and> hex_law L \<and> base64_law L \<and> aead_law L \<and> zstd_law L
     \<and> encrypted_event_law L \<and> event_json_law L \<and> json_whitespace_law L \<and> block_json_law L"

record decoded_event =
  de_envelope :: event_envelope
  de_encrypted :: bool

section \<open>Encoding\<close>

definition encode_plaintext_envelope :: "('x) log_codecs_scheme \<Rightarrow> event_envelope \<Rightarrow> storage_error + bytes" where
  "encode_plaintext_envelope L e =
     and_then (map_err SInvalidEnvelope (validate_envelope L e)) (\<lambda>_.
     and_then (ok_or (event_to_vec L e) SJson) (\<lambda>plaintext.
     and_then (map_err SIo (validate_stored_json_complexity plaintext)) (\<lambda>_.
     if saturating_add (length plaintext) 1 > MAX_EVENT_RECORD_BYTES
     then Inl (SEventRecordTooLarge (sequence e) MAX_EVENT_RECORD_BYTES)
     else Inr plaintext)))"

definition encode_envelope ::
  "('x) log_codecs_scheme \<Rightarrow> bytes \<Rightarrow> event_envelope \<Rightarrow> encryption_key option \<Rightarrow> storage_error + bytes" where
  "encode_envelope L nonce e encryption =
     and_then (encode_plaintext_envelope L e) (\<lambda>plaintext.
     and_then (case encryption of
                 Some k \<Rightarrow> map_err SIo (encrypt_event_record L nonce k plaintext (run_id e) (sequence e))
               | None \<Rightarrow> Inr plaintext) (\<lambda>serialized.
     if saturating_add (length serialized) 1 > MAX_EVENT_RECORD_BYTES
     then Inl (SEventRecordTooLarge (sequence e) MAX_EVENT_RECORD_BYTES)
     else Inr serialized))"

definition encode_event_block ::
  "('x) log_codecs_scheme \<Rightarrow> bytes \<Rightarrow> bytes \<Rightarrow> str \<Rightarrow> nat \<Rightarrow> nat \<Rightarrow> encryption_key option
   \<Rightarrow> storage_error + bytes" where
  "encode_event_block L nonce plaintext rid first_sequence event_count encryption =
     (if event_count = 0 \<or> event_count > MAX_EVENT_BLOCK_EVENTS
      then Inl (SInvalidEventBlock ''event count is outside the block safety limit'')
      else if length plaintext > MAX_EVENT_BLOCK_UNCOMPRESSED_BYTES
      then Inl (SInvalidEventBlock ''uncompressed block exceeds its safety limit'')
      else
      and_then (ok_or (zstd_compress L plaintext) (SIo (IoError Other ''zstd''))) (\<lambda>compressed.
      if length compressed > MAX_EVENT_BLOCK_COMPRESSED_BYTES
      then Inl (SInvalidEventBlock ''compressed block exceeds its safety limit'')
      else
      let digest = sha256 L plaintext in
      and_then (case encryption of
                  Some k \<Rightarrow> map_err SIo (and_then
                    (encrypt_event_block L nonce k compressed rid first_sequence event_count
                       (length plaintext) digest)
                    (\<lambda>payload. Inr (payload, True)))
                | None \<Rightarrow> Inr (compressed, False)) (\<lambda>(payload, encrypted).
      and_then (ok_or (block_to_vec L
                  \<lparr>br_version = EVENT_BLOCK_VERSION, br_codec = EVENT_BLOCK_CODEC, br_run_id = rid,
                   br_first_sequence = first_sequence, br_event_count = event_count,
                   br_uncompressed_bytes = length plaintext,
                   br_plaintext_sha256 = hex_encode L digest, br_encrypted = encrypted,
                   br_payload = b64_encode L payload\<rparr>) SJson) (\<lambda>serialized.
      if saturating_add (length serialized) 1 > MAX_EVENT_BLOCK_RECORD_BYTES
      then Inl (SInvalidEventBlock ''encoded block exceeds its record safety limit'')
      else Inr serialized))))"

section \<open>Decoding\<close>

definition decode_event ::
  "('x) log_codecs_scheme \<Rightarrow> bytes \<Rightarrow> encryption_key option \<Rightarrow> storage_error + event_envelope" where
  "decode_event L encoded encryption =
     and_then (map_err SIo (validate_stored_json_complexity encoded)) (\<lambda>_.
     and_then
       (if is_encrypted_event L encoded then
          and_then (ok_or encryption (SIo (IoError PermissionDenied
                      ''encrypted event log requires the matching key''))) (\<lambda>k.
          and_then (map_err SIo (decrypt_event L k encoded)) (\<lambda>plaintext.
          and_then (map_err SIo (validate_stored_json_complexity plaintext)) (\<lambda>_.
          ok_or (event_from_slice L plaintext) SJson)))
        else ok_or (event_from_slice L encoded) SJson) (\<lambda>e.
     and_then (map_err SInvalidEnvelope (validate_envelope L e)) (\<lambda>_. Inr e)))"

text \<open>\<open>read_bounded_line\<close>: the line, and what the reader has left.\<close>

definition read_bounded_line :: "bytes \<Rightarrow> nat \<Rightarrow> nat \<Rightarrow> storage_error + bytes \<times> bytes" where
  "read_bounded_line reader limit rec =
     (let (encoded, rest) = read_until (limit + 1) reader in
      if length encoded > limit then Inl (SEventRecordTooLarge rec limit) else Inr (encoded, rest))"

definition read_event_record :: "bytes \<Rightarrow> nat \<Rightarrow> storage_error + bytes \<times> bytes" where
  "read_event_record reader rec =
     and_then (read_bounded_line reader MAX_EVENT_RECORD_BYTES rec) (\<lambda>(encoded, rest).
     if encoded = []
     then Inl (SIo (IoError UnexpectedEof ''event log changed while it was being read''))
     else Inr (encoded, rest))"

text \<open>The loop over the events embedded in a block: the remaining count, the next offset, and the
  plaintext still to read.\<close>

fun read_block_events ::
  "('x) log_codecs_scheme \<Rightarrow> event_block_record \<Rightarrow> nat \<Rightarrow> nat \<Rightarrow> bytes
   \<Rightarrow> storage_error + decoded_event list \<times> bytes" where
  "read_block_events L r offset 0 reader = Inr ([], reader)"
| "read_block_events L r offset (Suc n) reader =
     (let logical_record = saturating_add (br_first_sequence r) offset in
      and_then (read_event_record reader logical_record) (\<lambda>(event_bytes, rest).
      if last event_bytes \<noteq> newline
      then Inl (SInvalidEventBlock ''physical block has an incomplete embedded event'')
      else
      and_then (decode_event L event_bytes None) (\<lambda>envelope.
      if sequence envelope \<noteq> logical_record
      then Inl (SInvalidSequence logical_record (sequence envelope))
      else if run_id envelope \<noteq> br_run_id r
      then Inl (SInvalidRunId (br_run_id r) (run_id envelope) (sequence envelope))
      else
      and_then (read_block_events L r (Suc offset) n rest) (\<lambda>(events, rest').
      Inr (\<lparr>de_envelope = envelope, de_encrypted = br_encrypted r\<rparr> # events, rest')))))"

definition decode_event_block ::
  "('x) log_codecs_scheme \<Rightarrow> bytes \<Rightarrow> encryption_key option \<Rightarrow> storage_error + decoded_event list" where
  "decode_event_block L encoded encryption =
     and_then (map_err SIo (validate_stored_json_complexity encoded)) (\<lambda>_.
     and_then (ok_or (block_from_slice L encoded) SJson) (\<lambda>r.
     if br_version r \<noteq> EVENT_BLOCK_VERSION \<or> br_codec r \<noteq> EVENT_BLOCK_CODEC
     then Inl (SInvalidEventBlock ''physical block uses an unsupported version or codec'')
     else if br_run_id r = [] \<or> length (br_run_id r) > 256 \<or> any_control (br_run_id r)
          \<or> br_first_sequence r = 0 \<or> br_event_count r = 0
          \<or> br_event_count r > MAX_EVENT_BLOCK_EVENTS
     then Inl (SInvalidEventBlock ''physical block has invalid run or sequence metadata'')
     else if br_uncompressed_bytes r = 0
          \<or> br_uncompressed_bytes r > MAX_EVENT_BLOCK_UNCOMPRESSED_BYTES
     then Inl (SInvalidEventBlock ''physical block exceeds the uncompressed safety limit'')
     else if length (br_plaintext_sha256 r) \<noteq> 64 \<or> \<not> list_all is_lower_hex (br_plaintext_sha256 r)
     then Inl (SInvalidEventBlock ''physical block has a non-canonical plaintext digest'')
     else
     and_then (ok_or (hex_decode L (br_plaintext_sha256 r))
                 (SInvalidEventBlock ''physical block has an invalid plaintext digest'')) (\<lambda>digest.
     if length digest \<noteq> 32
     then Inl (SInvalidEventBlock ''physical block has an invalid plaintext digest length'')
     else
     and_then (ok_or (b64_decode L (br_payload r))
                 (SInvalidEventBlock ''physical block has invalid base64 payload'')) (\<lambda>payload.
     and_then
       (if br_encrypted r then
          and_then (ok_or encryption (SIo (IoError PermissionDenied
                      ''encrypted event-block log requires the matching key''))) (\<lambda>k.
          map_err SIo (decrypt_event_block L k payload (br_run_id r) (br_first_sequence r)
                         (br_event_count r) (br_uncompressed_bytes r) digest))
        else Inr payload) (\<lambda>compressed.
     if length compressed > MAX_EVENT_BLOCK_COMPRESSED_BYTES
     then Inl (SInvalidEventBlock ''physical block exceeds the compressed safety limit'')
     else
     and_then (ok_or (zstd_read L compressed (br_uncompressed_bytes r + 1))
                 (SIo (IoError InvalidData ''zstd''))) (\<lambda>plaintext.
     if length plaintext \<noteq> br_uncompressed_bytes r
     then Inl (SInvalidEventBlock ''physical block decompressed to an unexpected size'')
     else if sha256 L plaintext \<noteq> digest
     then Inl (SInvalidEventBlock ''physical block plaintext digest does not match'')
     else
     and_then (read_block_events L r 0 (br_event_count r) plaintext) (\<lambda>(events, rest).
     if rest \<noteq> []
     then Inl (SInvalidEventBlock ''physical block contains trailing plaintext'')
     else Inr events)))))))"

section \<open>Round trips\<close>

lemma saturating_Suc_gt: "limit < U64_MAX \<Longrightarrow> limit < saturating_add n (Suc 0) \<longleftrightarrow> limit \<le> n"
  by (auto simp: saturating_add_def min_def)

lemma limits_u64 [simp]:
  "MAX_EVENT_RECORD_BYTES < U64_MAX" "MAX_EVENT_BLOCK_RECORD_BYTES < U64_MAX"
  by (simp_all add: event_limits U64_MAX_def)

lemma encode_plaintext_eq:
  "encode_plaintext_envelope L e = Inr m \<longleftrightarrow>
     validate_envelope L e = Inr () \<and> event_to_vec L e = Some m
     \<and> validate_stored_json_complexity m = Inr () \<and> length m < MAX_EVENT_RECORD_BYTES"
  by (auto simp: encode_plaintext_envelope_def and_then_eq_Inr if_Inl_eq_Inr saturating_Suc_gt not_le)

lemma log_lawsD:
  assumes "log_laws L"
  shows "sha256_law L" "hex_law L" "base64_law L" "aead_law L" "zstd_law L" "encrypted_event_law L"
    "event_json_law L" "json_whitespace_law L" "block_json_law L"
  using assms by (simp_all add: log_laws_def)

lemma event_line:
  assumes "log_laws L" "event_to_vec L e = Some m"
  shows "newline \<notin> set m" "event_from_slice L m = Some e" "event_from_slice L (m @ [newline]) = Some e"
    "\<not> is_encrypted_event L (m @ [newline])"
proof -
  show m: "newline \<notin> set m" "event_from_slice L m = Some e"
    using log_lawsD(7)[OF assms(1)] assms(2) by (auto simp: event_json_law_def)
  show "event_from_slice L (m @ [newline]) = Some e" "\<not> is_encrypted_event L (m @ [newline])"
    using log_lawsD(7,8)[OF assms(1)] assms(2) m
    by (auto simp: event_json_law_def json_whitespace_law_def is_encrypted_event_def)
qed

lemma decode_plaintext_line:
  assumes "log_laws L" "encode_plaintext_envelope L e = Inr m"
  shows "decode_event L (m @ [newline]) encryption = Inr e"
  using assms event_line[OF assms(1), of e m]
  by (simp add: encode_plaintext_eq decode_event_def and_then_eq_Inr del: and_then_simps)

lemma encrypted_event_stored:
  assumes "encrypted_event_law L" "encrypted_event_to_vec L r = Some bs"
  shows "validate_stored_json_complexity (bs @ [newline]) = Inr ()"
proof -
  have "max_nesting 0 (outside_strings False False bs) \<le> 1"
    "structural_tokens (outside_strings False False bs) \<le> 16"
    using assms by (auto simp: encrypted_event_law_def)
  then have "validate_stored_json_complexity bs = Inr ()"
    unfolding validate_stored_json_complexity_def
    by (subst validate_with_limits_iff) (simp_all add: json_limits)
  then show ?thesis by simp
qed

lemma encode_envelope_eq:
  "encode_envelope L nonce e encryption = Inr bs \<longleftrightarrow>
     (\<exists>m. encode_plaintext_envelope L e = Inr m \<and> length bs < MAX_EVENT_RECORD_BYTES
        \<and> (case encryption of None \<Rightarrow> bs = m
           | Some k \<Rightarrow> encrypt_event_record L nonce k m (run_id e) (sequence e) = Inr bs))"
  by (cases encryption) (auto simp: encode_envelope_def and_then_eq_Inr if_Inl_eq_Inr saturating_Suc_gt not_le)

lemma decode_encode_envelope:
  assumes "log_laws L" "length nonce = 24" "encode_envelope L nonce e encryption = Inr bs"
  shows "decode_event L (bs @ [newline]) encryption = Inr e"
    and "newline \<notin> set bs" and "length bs < MAX_EVENT_RECORD_BYTES"
    and "is_encrypted_event L (bs @ [newline]) \<longleftrightarrow> encryption \<noteq> None"
proof -
  obtain m where m: "encode_plaintext_envelope L e = Inr m" and len: "length bs < MAX_EVENT_RECORD_BYTES"
    and enc: "case encryption of None \<Rightarrow> bs = m
           | Some k \<Rightarrow> encrypt_event_record L nonce k m (run_id e) (sequence e) = Inr bs"
    using assms(3) by (auto simp: encode_envelope_eq)
  show "length bs < MAX_EVENT_RECORD_BYTES" by (rule len)
  note plain = m[unfolded encode_plaintext_eq]
  have "decode_event L (bs @ [newline]) encryption = Inr e \<and> newline \<notin> set bs
      \<and> (is_encrypted_event L (bs @ [newline]) \<longleftrightarrow> encryption \<noteq> None)"
  proof (cases encryption)
    case None
    then show ?thesis
      using enc decode_plaintext_line[OF assms(1) m] event_line[OF assms(1), of e m] plain by simp
  next
    case (Some k)
    have ctx: "validate_event_context L m (run_id e) (sequence e) = Inr ()"
      using event_context_ok log_lawsD(7)[OF assms(1)] plain by blast
    note dec = decrypt_encrypt_event[OF log_lawsD(6,3,4)[OF assms(1)] assms(2) _ ctx, of k bs]
    have enc': "encrypt_event_record L nonce k m (run_id e) (sequence e) = Inr bs"
      using enc Some by simp
    have stored: "validate_stored_json_complexity (bs @ [newline]) = Inr ()"
      using encrypted_event_stored[OF log_lawsD(6)[OF assms(1)]] enc'
      by (auto simp: encrypt_event_record_eq_Inr)
    show ?thesis
      using dec[OF enc'] log_lawsD(8)[OF assms(1)] stored plain Some event_line(2)[OF assms(1), of e m]
      by (simp add: decode_event_def and_then_eq_Inr del: and_then_simps validate_stored_newline)
  qed
  then show "decode_event L (bs @ [newline]) encryption = Inr e" "newline \<notin> set bs"
    "is_encrypted_event L (bs @ [newline]) \<longleftrightarrow> encryption \<noteq> None" by simp_all
qed

section \<open>Blocks\<close>

text \<open>Envelopes numbered one after the other.\<close>

fun consecutive :: "nat \<Rightarrow> event_envelope list \<Rightarrow> bool" where
  "consecutive n [] = True"
| "consecutive n (e # es) = (sequence e = n \<and> consecutive (Suc n) es)"

lemma consecutive_append [simp]:
  "consecutive n (xs @ ys) \<longleftrightarrow> consecutive n xs \<and> consecutive (n + length xs) ys"
  by (induction xs arbitrary: n) simp_all

definition lines_of :: "bytes list \<Rightarrow> bytes" where
  "lines_of ms = concat (map (\<lambda>m. m @ [newline]) ms)"

lemma lines_of_simps [simp]:
  "lines_of [] = []" "lines_of (m # ms) = m @ newline # lines_of ms"
  "lines_of (xs @ ys) = lines_of xs @ lines_of ys"
  by (simp_all add: lines_of_def)

definition plain_lines :: "('x) log_codecs_scheme \<Rightarrow> event_envelope list \<Rightarrow> bytes list \<Rightarrow> bool" where
  "plain_lines L es ms \<longleftrightarrow> list_all2 (\<lambda>e m. encode_plaintext_envelope L e = Inr m) es ms"

lemma read_event_record_line:
  assumes "newline \<notin> set m" "length m < MAX_EVENT_RECORD_BYTES"
  shows "read_event_record (m @ newline # rest) rec = Inr (m @ [newline], rest)"
  using assms read_until_line[OF assms(1), of "MAX_EVENT_RECORD_BYTES + 1" rest]
  by (simp add: read_event_record_def read_bounded_line_def)

lemma read_block_events_lines:
  assumes "log_laws L" "plain_lines L es ms" "consecutive (br_first_sequence r + offset) es"
    and "\<forall>e\<in>set es. run_id e = br_run_id r"
    and "br_first_sequence r + offset + length es \<le> Suc U64_MAX"
  shows "read_block_events L r offset (length es) (lines_of ms @ rest) =
     Inr (map (\<lambda>e. \<lparr>de_envelope = e, de_encrypted = br_encrypted r\<rparr>) es, rest)"
  using assms(2-)
proof (induction es arbitrary: ms offset)
  case Nil
  then show ?case by (simp add: plain_lines_def)
next
  case (Cons e es)
  obtain m ms' where ms: "ms = m # ms'" and m: "encode_plaintext_envelope L e = Inr m"
      and ms': "plain_lines L es ms'"
    using Cons.prems(1) by (auto simp: plain_lines_def list_all2_Cons1)
  have line: "newline \<notin> set m" "length m < MAX_EVENT_RECORD_BYTES"
    using m event_line(1)[OF assms(1)] by (auto simp: encode_plaintext_eq)
  have "read_block_events L r (Suc offset) (length es) (lines_of ms' @ rest) =
      Inr (map (\<lambda>e. \<lparr>de_envelope = e, de_encrypted = br_encrypted r\<rparr>) es, rest)"
    using Cons.prems ms' by (intro Cons.IH) simp_all
  then show ?case
    using Cons.prems decode_plaintext_line[OF assms(1) m] ms
    by (simp add: read_event_record_line[OF line] Let_def)
qed

lemma lines_of_not_Nil: "plain_lines L es ms \<Longrightarrow> es \<noteq> [] \<Longrightarrow> lines_of ms \<noteq> []"
  by (cases es) (auto simp: plain_lines_def list_all2_Cons1)

lemma block_stored:
  assumes "block_json_law L" "block_to_vec L r = Some bs"
  shows "validate_stored_json_complexity (bs @ [newline]) = Inr ()"
proof -
  have "max_nesting 0 (outside_strings False False bs) \<le> 1"
    "structural_tokens (outside_strings False False bs) \<le> 32"
    using assms by (auto simp: block_json_law_def)
  then have "validate_stored_json_complexity bs = Inr ()"
    unfolding validate_stored_json_complexity_def
    by (subst validate_with_limits_iff) (simp_all add: json_limits)
  then show ?thesis by simp
qed

text \<open>The record a successful block encoding serializes.\<close>

lemma encode_event_block_eq:
  assumes "encode_event_block L nonce m rid first count encryption = Inr bs"
  obtains compressed payload where
    "0 < count" "count \<le> MAX_EVENT_BLOCK_EVENTS" "length m \<le> MAX_EVENT_BLOCK_UNCOMPRESSED_BYTES"
    "zstd_compress L m = Some compressed" "length compressed \<le> MAX_EVENT_BLOCK_COMPRESSED_BYTES"
    "case encryption of None \<Rightarrow> payload = compressed
     | Some k \<Rightarrow> encrypt_event_block L nonce k compressed rid first count (length m) (sha256 L m) = Inr payload"
    "block_to_vec L \<lparr>br_version = EVENT_BLOCK_VERSION, br_codec = EVENT_BLOCK_CODEC, br_run_id = rid,
       br_first_sequence = first, br_event_count = count, br_uncompressed_bytes = length m,
       br_plaintext_sha256 = hex_encode L (sha256 L m), br_encrypted = (encryption \<noteq> None),
       br_payload = b64_encode L payload\<rparr> = Some bs"
    "length bs < MAX_EVENT_BLOCK_RECORD_BYTES"
  using assms
  by (cases encryption)
    (fastforce simp: encode_event_block_def and_then_eq_Inr if_Inl_eq_Inr saturating_Suc_gt not_le Let_def
       split: if_splits)+

lemma decode_encode_block:
  assumes laws: "log_laws L" and nonce: "length nonce = 24"
    and lines: "plain_lines L es ms" and seqs: "consecutive first es" and first: "0 < first"
    and runs: "\<forall>e\<in>set es. run_id e = rid" and fits: "first + length es \<le> Suc U64_MAX"
    and enc: "encode_event_block L nonce (lines_of ms) rid first (length es) encryption = Inr bs"
  shows "decode_event_block L (bs @ [newline]) encryption =
      Inr (map (\<lambda>e. \<lparr>de_envelope = e, de_encrypted = (encryption \<noteq> None)\<rparr>) es)"
    and "newline \<notin> set bs" and "length bs < MAX_EVENT_BLOCK_RECORD_BYTES"
proof -
  let ?m = "lines_of ms"
  let ?r = "\<lambda>payload. \<lparr>br_version = EVENT_BLOCK_VERSION, br_codec = EVENT_BLOCK_CODEC, br_run_id = rid,
       br_first_sequence = first, br_event_count = length es, br_uncompressed_bytes = length ?m,
       br_plaintext_sha256 = hex_encode L (sha256 L ?m), br_encrypted = (encryption \<noteq> None),
       br_payload = b64_encode L payload\<rparr>"
  obtain compressed payload where b: "0 < length es" "length es \<le> MAX_EVENT_BLOCK_EVENTS"
    "length ?m \<le> MAX_EVENT_BLOCK_UNCOMPRESSED_BYTES"
    "zstd_compress L ?m = Some compressed" "length compressed \<le> MAX_EVENT_BLOCK_COMPRESSED_BYTES"
    "case encryption of None \<Rightarrow> payload = compressed
     | Some k \<Rightarrow> encrypt_event_block L nonce k compressed rid first (length es) (length ?m) (sha256 L ?m) = Inr payload"
    "block_to_vec L (?r payload) = Some bs" "length bs < MAX_EVENT_BLOCK_RECORD_BYTES"
    using enc by (rule encode_event_block_eq)
  show "length bs < MAX_EVENT_BLOCK_RECORD_BYTES" by (rule b(8))
  show "newline \<notin> set bs" using log_lawsD(9)[OF laws] b(7) by (auto simp: block_json_law_def)
  have read: "block_from_slice L (bs @ [newline]) = Some (?r payload)"
    using log_lawsD(9)[OF laws] b(7) by (auto simp: block_json_law_def)
  have stored: "validate_stored_json_complexity (bs @ [newline]) = Inr ()"
    using block_stored[OF log_lawsD(9)[OF laws] b(7)] .
  obtain e where e: "e \<in> set es" using b(1) by (cases es) auto
  have "valid_text rid 256"
  proof -
    obtain m where "encode_plaintext_envelope L e = Inr m"
      using lines e by (auto simp: plain_lines_def list_all2_conv_all_nth in_set_conv_nth)
    then show ?thesis using validate_envelope_run_id[of L e] runs e by (auto simp: encode_plaintext_eq)
  qed
  then have rid: "rid \<noteq> []" "\<not> length rid > 256" "\<not> any_control rid" by (simp_all add: valid_text_def)
  have digest: "length (hex_encode L (sha256 L ?m)) = 64" "list_all is_lower_hex (hex_encode L (sha256 L ?m))"
    "hex_decode L (hex_encode L (sha256 L ?m)) = Some (sha256 L ?m)" "length (sha256 L ?m) = 32"
    using log_lawsD(1,2)[OF laws]
    by (auto simp: sha256_law_def hex_length hex_roundtrip list_all_iff dest: hex_chars)
  have zstd: "zstd_read L compressed (Suc (length ?m)) = Some ?m"
    using log_lawsD(5)[OF laws] b(4) by (simp add: zstd_law_def)
  have opened: "encryption = Some k \<Longrightarrow>
      decrypt_event_block L k payload rid first (length es) (length ?m) (sha256 L ?m) = Inr compressed" for k
    using b(6) block_box.unseal_seal[OF log_lawsD(4)[OF laws] nonce] by simp
  have events: "read_block_events L (?r payload) 0 (length es) ?m =
      Inr (map (\<lambda>e. \<lparr>de_envelope = e, de_encrypted = (encryption \<noteq> None)\<rparr>) es, [])"
    using read_block_events_lines[OF laws lines, of "?r payload" 0 "[]"] seqs runs fits by simp
  show "decode_event_block L (bs @ [newline]) encryption =
      Inr (map (\<lambda>e. \<lparr>de_envelope = e, de_encrypted = (encryption \<noteq> None)\<rparr>) es)"
  proof (cases encryption)
    case None
    then show ?thesis
      using b(1-6) rid first digest zstd events read stored lines_of_not_Nil[OF lines]
        b64_roundtrip[OF log_lawsD(3)[OF laws]]
      by (simp add: decode_event_block_def not_less[symmetric] del: validate_stored_newline)
  next
    case (Some k)
    then show ?thesis
      using b(1-5) rid first digest zstd events read stored lines_of_not_Nil[OF lines]
        b64_roundtrip[OF log_lawsD(3)[OF laws]] opened[OF Some]
      by (simp add: decode_event_block_def not_less[symmetric] del: validate_stored_newline)
  qed
qed

section \<open>A concrete codec for witnesses\<close>

definition demo_block :: event_block_record where
  "demo_block = \<lparr>br_version = 1, br_codec = ''zstd'', br_run_id = ''r'', br_first_sequence = 1,
     br_event_count = 2, br_uncompressed_bytes = 8,
     br_plaintext_sha256 = hex_encode demo_crates (sha256 demo_crates (lines_of [''{1}'', ''{2}''])),
     br_encrypted = False, br_payload = lines_of [''{1}'', ''{2}'']\<rparr>"

definition demo_log :: log_codecs where
  "demo_log = json_codecs.extend demo_codecs (log_codecs.fields
     (map_of [(demo_block, ''{B}'')])
     (\<lambda>bs. map_of [(''{B}'', demo_block)] (strip_suffix_or newline bs)))"

lemma demo_log_fields:
  "sha256 demo_log = sha256 demo_crates" "hex_encode demo_log = hex_encode demo_crates"
  "hex_decode demo_log = hex_decode demo_crates"
  "b64_encode demo_log = b64_encode demo_crates" "b64_decode demo_log = b64_decode demo_crates"
  "aead_seal demo_log = aead_seal demo_crates" "aead_open demo_log = aead_open demo_crates"
  "hkdf_expand demo_log = hkdf_expand demo_crates"
  "zstd_compress demo_log = zstd_compress demo_crates" "zstd_read demo_log = zstd_read demo_crates"
  "uuid_version demo_log = uuid_version demo_crates"
  "encrypted_event_to_vec demo_log = encrypted_event_to_vec demo_codecs"
  "encrypted_event_from_slice demo_log = encrypted_event_from_slice demo_codecs"
  "value_from_slice demo_log = value_from_slice demo_codecs"
  "event_to_vec demo_log = event_to_vec demo_codecs"
  "event_from_slice demo_log = event_from_slice demo_codecs"
  "block_to_vec demo_log = map_of [(demo_block, ''{B}'')]"
  "block_from_slice demo_log = (\<lambda>bs. map_of [(''{B}'', demo_block)] (strip_suffix_or newline bs))"
  by (simp_all add: demo_log_def demo_codecs_def crates.defs json_codecs.defs log_codecs.defs)

lemma demo_log_laws [simp]: "log_laws demo_log"
proof -
  have "sha256_law demo_log" "hex_law demo_log" "base64_law demo_log" "aead_law demo_log"
    "zstd_law demo_log"
    using demo_laws
    unfolding sha256_law_def hex_law_def base64_law_def aead_law_def zstd_law_def demo_log_fields
    by blast+
  moreover have "encrypted_event_law demo_log" "event_json_law demo_log" "json_whitespace_law demo_log"
    using demo_codecs_json_laws demo_codecs_whitespace
    unfolding encrypted_event_law_def event_json_law_def json_whitespace_law_def demo_log_fields
    by blast+
  moreover have "block_json_law demo_log"
    by (auto simp: block_json_law_def demo_log_fields strip_suffix_or_def structural_tokens_def
          opens_def closes_def separates_def split: if_splits)
  ultimately show ?thesis by (simp add: log_laws_def)
qed

lemma demo_line_complexity:
  "validate_stored_json_complexity ''{1}'' = Inr ()" "validate_stored_json_complexity ''{2}'' = Inr ()"
  unfolding validate_stored_json_complexity_def
  by (subst validate_with_limits_iff;
      simp add: json_limits structural_tokens_def opens_def closes_def separates_def)+

lemma demo_event_valid:
  "0 < n \<Longrightarrow> validate_envelope demo_log (demo_event n) = Inr ()"
  by (simp add: validate_envelope_def demo_event_def from_pending_def new_pending_event_def
        demo_log_fields demo_crates_def SCHEMA_VERSION_def validate_text_def validate_event_ids_def
        validate_optional_text_def default_event_ids_def validate_text_list_def byte_val_def)

lemma demo_plain_lines:
  "encode_plaintext_envelope demo_log (demo_event 1) = Inr ''{1}''"
  "encode_plaintext_envelope demo_log (demo_event 2) = Inr ''{2}''"
  by (simp_all add: encode_plaintext_eq demo_event_valid demo_log_fields demo_codecs_json
        demo_line_complexity event_limits)

end
