(* ===== verification/Event_Log.thy ===== *)
theory Event_Log
  imports Event_Codec
begin

text \<open>
  Recovery and reading of the event log (\<open>src/storage.rs\<close>). A log file is its bytes, or
  \<open>None\<close> when it does not exist. Recovery scans the physical records of either format, checks
  every envelope and the sequence, and with \<open>repair\<close> moves an incomplete tail to a quarantine
  file. The visitors of \<open>for_each_event\<close> are step functions on a state of their own.
\<close>

section \<open>Recovery\<close>

definition detect_event_log_format :: "bytes option \<Rightarrow> event_log_format option" where
  "detect_event_log_format file =
     (case file of
        None \<Rightarrow> None
      | Some bs \<Rightarrow>
          if bs = [] then None
          else if starts_with EVENT_BLOCK_HEADER (take (length EVENT_BLOCK_HEADER) bs)
          then Some ZstdBlocks else Some Jsonl)"

definition unwrap_format :: "event_log_format option \<Rightarrow> event_log_format" where
  "unwrap_format f = (case f of None \<Rightarrow> Jsonl | Some g \<Rightarrow> g)"

text \<open>One envelope against the running count and last sequence.\<close>

definition check_sequence :: "nat \<times> nat \<Rightarrow> event_envelope \<Rightarrow> storage_error + nat \<times> nat" where
  "check_sequence = (\<lambda>(count, last_sequence) envelope.
     let expected = saturating_add last_sequence 1 in
     if sequence envelope \<noteq> expected then Inl (SInvalidSequence expected (sequence envelope))
     else Inr (saturating_add count 1, sequence envelope))"

definition recover_jsonl_records ::
  "('x) log_codecs_scheme \<Rightarrow> encryption_key option \<Rightarrow> bytes \<Rightarrow> storage_error + nat \<times> nat \<times> nat" where
  "recover_jsonl_records L encryption file =
     line_loop MAX_EVENT_RECORD_BYTES
       (\<lambda>(count, _, _). SEventRecordTooLarge (saturating_add count 1) MAX_EVENT_RECORD_BYTES)
       (\<lambda>(count, last_sequence, valid_bytes) buffer.
          and_then (decode_event L buffer encryption) (\<lambda>envelope.
          and_then (check_sequence (count, last_sequence) envelope) (\<lambda>(count, last_sequence).
          Inr (count, last_sequence, saturating_add valid_bytes (u64_of_usize (length buffer))))))
       (0, 0, 0) file"

definition recover_zstd_blocks ::
  "('x) log_codecs_scheme \<Rightarrow> encryption_key option \<Rightarrow> bytes \<Rightarrow> storage_error + nat \<times> nat \<times> nat" where
  "recover_zstd_blocks L encryption file =
     (let (buffer, rest) = read_until (length file) file in
      if buffer \<noteq> EVENT_BLOCK_HEADER then
        if buffer \<noteq> [] \<and> last buffer = newline
        then Inl (SInvalidEventBlock ''event-block header is invalid'')
        else Inr (0, 0, 0)
      else
        line_loop MAX_EVENT_BLOCK_RECORD_BYTES
          (\<lambda>_. SInvalidEventBlock ''physical block exceeds the record limit'')
          (\<lambda>(count, last_sequence, valid_bytes) buffer.
             and_then (decode_event_block L buffer encryption) (\<lambda>decoded.
             and_then (try_fold (\<lambda>s d. check_sequence s (de_envelope d)) (count, last_sequence) decoded)
               (\<lambda>(count, last_sequence).
             Inr (count, last_sequence, saturating_add valid_bytes (u64_of_usize (length buffer))))))
          (0, 0, u64_of_usize (length buffer)) rest)"

text \<open>\<open>struct RecoveryReport\<close>; the quarantine is the content of the file written there.\<close>

record recovery_report =
  valid_events :: nat
  last_sequence :: nat
  valid_bytes :: nat
  discarded_tail_bytes :: nat
  quarantine :: "bytes option"

text \<open>The report and the log file afterwards, on a file system that carries the operations out.\<close>

definition recover_events_with_key ::
  "('x) log_codecs_scheme \<Rightarrow> bytes option \<Rightarrow> bool \<Rightarrow> encryption_key option
   \<Rightarrow> storage_error + recovery_report \<times> bytes option" where
  "recover_events_with_key L file repair encryption =
     (case file of
        None \<Rightarrow> Inr (\<lparr>valid_events = 0, last_sequence = 0, valid_bytes = 0,
                      discarded_tail_bytes = 0, quarantine = None\<rparr>, None)
      | Some bs \<Rightarrow>
          and_then (case unwrap_format (detect_event_log_format file) of
                      Jsonl \<Rightarrow> recover_jsonl_records L encryption bs
                    | ZstdBlocks \<Rightarrow> recover_zstd_blocks L encryption bs)
            (\<lambda>(count, last_seq, valid).
               let discarded = length bs - valid in
               Inr (\<lparr>valid_events = count, last_sequence = last_seq, valid_bytes = valid,
                     discarded_tail_bytes = discarded,
                     quarantine = (if discarded > 0 \<and> repair then Some (drop valid bs) else None)\<rparr>,
                    Some (if discarded > 0 \<and> repair then take valid bs else bs))))"

section \<open>Readers\<close>

record decoded_event_reader =
  dr_reader :: bytes
  dr_format :: event_log_format
  dr_encryption :: "encryption_key option"
  dr_buffered :: "decoded_event list"
  dr_physical_record :: nat

definition open_decoded_reader ::
  "bytes option \<Rightarrow> encryption_key option \<Rightarrow> storage_error + decoded_event_reader" where
  "open_decoded_reader file encryption =
     (let format = unwrap_format (detect_event_log_format file) in
      and_then (ok_or file (SIo (IoError NotFound ''No such file or directory''))) (\<lambda>bs.
      and_then
        (if format = ZstdBlocks then
           (let (header, rest) = read_until (length bs) bs in
            if header \<noteq> EVENT_BLOCK_HEADER
            then Inl (SInvalidEventBlock ''event-block header is incomplete or invalid'')
            else Inr rest)
         else Inr bs) (\<lambda>reader.
      Inr \<lparr>dr_reader = reader, dr_format = format, dr_encryption = encryption, dr_buffered = [],
           dr_physical_record = 0\<rparr>)))"

definition log_changed :: storage_error where
  "log_changed = SIo (IoError UnexpectedEof ''event log changed while it was being read'')"

definition next_decoded ::
  "('x) log_codecs_scheme \<Rightarrow> decoded_event_reader
   \<Rightarrow> storage_error + decoded_event option \<times> decoded_event_reader" where
  "next_decoded L r =
     (case dr_buffered r of
        d # ds \<Rightarrow> Inr (Some d, r\<lparr>dr_buffered := ds\<rparr>)
      | [] \<Rightarrow>
        let r = r\<lparr>dr_physical_record := saturating_add (dr_physical_record r) 1\<rparr> in
        (case dr_format r of
           Jsonl \<Rightarrow>
             and_then (read_bounded_line (dr_reader r) MAX_EVENT_RECORD_BYTES (dr_physical_record r))
               (\<lambda>(encoded, rest).
             let r = r\<lparr>dr_reader := rest\<rparr> in
             if encoded = [] then Inr (None, r)
             else if last encoded \<noteq> newline then Inl log_changed
             else and_then (decode_event L encoded (dr_encryption r)) (\<lambda>envelope.
               Inr (Some \<lparr>de_envelope = envelope, de_encrypted = is_encrypted_event L encoded\<rparr>, r)))
         | ZstdBlocks \<Rightarrow>
             and_then (read_bounded_line (dr_reader r) MAX_EVENT_BLOCK_RECORD_BYTES (dr_physical_record r))
               (\<lambda>(encoded, rest).
             let r = r\<lparr>dr_reader := rest\<rparr> in
             if encoded = [] then Inr (None, r)
             else if last encoded \<noteq> newline
             then Inl (SIo (IoError UnexpectedEof ''event-block log changed while it was being read''))
             else and_then (decode_event_block L encoded (dr_encryption r)) (\<lambda>decoded.
               (case decoded of
                  [] \<Rightarrow> Inl (SInvalidEventBlock ''physical block contains no events'')
                | d # ds \<Rightarrow> Inr (Some d, r\<lparr>dr_buffered := ds\<rparr>))))))"

text \<open>\<open>reader.next_decoded()?.ok_or_else(..)?\<close>\<close>

definition next_or_changed ::
  "('x) log_codecs_scheme \<Rightarrow> decoded_event_reader \<Rightarrow> storage_error + decoded_event \<times> decoded_event_reader" where
  "next_or_changed L r =
     and_then (next_decoded L r) (\<lambda>(d, r'). and_then (ok_or d log_changed) (\<lambda>d. Inr (d, r')))"

fun visit_events ::
  "('x) log_codecs_scheme \<Rightarrow> ('s \<Rightarrow> event_envelope \<Rightarrow> storage_error + 's) \<Rightarrow> nat
   \<Rightarrow> decoded_event_reader \<Rightarrow> 's \<Rightarrow> storage_error + 's" where
  "visit_events L visitor 0 r s = Inr s"
| "visit_events L visitor (Suc n) r s =
     and_then (next_or_changed L r) (\<lambda>(d, r').
     and_then (visitor s (de_envelope d)) (\<lambda>s'. visit_events L visitor n r' s'))"

definition for_each_event_with_key ::
  "('x) log_codecs_scheme \<Rightarrow> bytes option \<Rightarrow> encryption_key option
   \<Rightarrow> ('s \<Rightarrow> event_envelope \<Rightarrow> storage_error + 's) \<Rightarrow> 's \<Rightarrow> storage_error + recovery_report \<times> 's" where
  "for_each_event_with_key L file encryption visitor s =
     and_then (recover_events_with_key L file False encryption) (\<lambda>(report, _).
     and_then (open_decoded_reader file encryption) (\<lambda>reader.
     and_then (visit_events L visitor (valid_events report) reader s) (\<lambda>s'.
     Inr (report, s'))))"

text \<open>The checks one run event passes: encryption scope, run identifier, strictly increasing
  event identifiers.\<close>

definition check_scope :: "bool \<Rightarrow> str \<Rightarrow> nat \<Rightarrow> decoded_event \<Rightarrow> storage_error + event_envelope" where
  "check_scope expect_encrypted expected_run_id rec d =
     (if de_encrypted d \<noteq> expect_encrypted
      then Inl (SInvalidEncryptionScope
             (if expect_encrypted then ''encrypted event'' else ''plaintext event'') rec)
      else if run_id (de_envelope d) \<noteq> expected_run_id
      then Inl (SInvalidRunId expected_run_id (run_id (de_envelope d)) (sequence (de_envelope d)))
      else Inr (de_envelope d))"

definition check_event_id :: "uuid option \<Rightarrow> event_envelope \<Rightarrow> storage_error + unit" where
  "check_event_id previous e =
     (case previous of
        None \<Rightarrow> Inr ()
      | Some p \<Rightarrow>
          if event_id e = p then Inl (SDuplicateEventId (event_id e) (sequence e))
          else if event_id e < p then Inl (SInvalidEventIdOrder p (event_id e) (sequence e))
          else Inr ())"

fun visit_run_events ::
  "('x) log_codecs_scheme \<Rightarrow> bool \<Rightarrow> str \<Rightarrow> ('s \<Rightarrow> event_envelope \<Rightarrow> storage_error + 's) \<Rightarrow> nat \<Rightarrow> nat
   \<Rightarrow> uuid option \<Rightarrow> decoded_event_reader \<Rightarrow> 's \<Rightarrow> storage_error + 's" where
  "visit_run_events L enc rid visitor rec 0 previous r s = Inr s"
| "visit_run_events L enc rid visitor rec (Suc n) previous r s =
     and_then (next_or_changed L r) (\<lambda>(d, r').
     and_then (check_scope enc rid rec d) (\<lambda>e.
     and_then (check_event_id previous e) (\<lambda>_.
     and_then (visitor s e) (\<lambda>s'.
     visit_run_events L enc rid visitor (Suc rec) n (Some (event_id e)) r' s'))))"

definition for_each_run_event_with_key ::
  "('x) log_codecs_scheme \<Rightarrow> bytes option \<Rightarrow> str \<Rightarrow> encryption_key option
   \<Rightarrow> ('s \<Rightarrow> event_envelope \<Rightarrow> storage_error + 's) \<Rightarrow> 's \<Rightarrow> storage_error + recovery_report \<times> 's" where
  "for_each_run_event_with_key L file rid encryption visitor s =
     and_then (recover_events_with_key L file False encryption) (\<lambda>(report, _).
     and_then (open_decoded_reader file encryption) (\<lambda>reader.
     and_then (visit_run_events L (encryption \<noteq> None) rid visitor 1 (valid_events report) None reader s)
       (\<lambda>s'. Inr (report, s'))))"

record run_event_reader =
  rr_reader :: decoded_event_reader
  rr_expected_run_id :: str
  rr_expect_encrypted :: bool
  rr_report :: recovery_report
  rr_next_record :: nat
  rr_previous_event_id :: "uuid option"
  rr_failed :: bool

definition open_run_event_reader ::
  "('x) log_codecs_scheme \<Rightarrow> bytes option \<Rightarrow> str \<Rightarrow> encryption_key option \<Rightarrow> storage_error + run_event_reader" where
  "open_run_event_reader L file rid encryption =
     and_then (recover_events_with_key L file False encryption) (\<lambda>(report, _).
     if discarded_tail_bytes report \<noteq> 0
     then Inl (SIo (IoError InvalidData
            ''event log has an incomplete final record; recover it before streaming''))
     else and_then (open_decoded_reader file encryption) (\<lambda>reader.
       Inr \<lparr>rr_reader = reader, rr_expected_run_id = rid, rr_expect_encrypted = (encryption \<noteq> None),
            rr_report = report, rr_next_record = 1, rr_previous_event_id = None, rr_failed = False\<rparr>))"

text \<open>\<open>Iterator::next\<close>: \<open>None\<close> at the end or after an error.\<close>

definition next_run_event ::
  "('x) log_codecs_scheme \<Rightarrow> run_event_reader
   \<Rightarrow> (storage_error + event_envelope) option \<times> run_event_reader" where
  "next_run_event L r =
     (if rr_failed r \<or> rr_next_record r > valid_events (rr_report r) then (None, r)
      else
        let rec = rr_next_record r;
            r = r\<lparr>rr_next_record := saturating_add rec 1\<rparr> in
        (case
           and_then (next_or_changed L (rr_reader r)) (\<lambda>(d, reader).
           and_then (check_scope (rr_expect_encrypted r) (rr_expected_run_id r) rec d) (\<lambda>e.
           and_then (if sequence e \<noteq> rec then Inl (SInvalidSequence rec (sequence e)) else Inr ()) (\<lambda>_.
           and_then (check_event_id (rr_previous_event_id r) e) (\<lambda>_.
           Inr (e, reader)))))
         of
           Inl err \<Rightarrow> (Some (Inl err), r\<lparr>rr_failed := True\<rparr>)
         | Inr (e, reader) \<Rightarrow>
             (Some (Inr e), r\<lparr>rr_reader := reader, rr_previous_event_id := Some (event_id e)\<rparr>)))"

section \<open>Physical records\<close>

text \<open>A physical record of a log: the envelopes it holds and its line, without the line break.\<close>

type_synonym phys = "event_envelope list \<times> bytes"

definition phys_frame :: "phys \<Rightarrow> bytes" where "phys_frame r = snd r @ [newline]"

definition record_limit :: "event_log_format \<Rightarrow> nat" where
  "record_limit fmt = (case fmt of Jsonl \<Rightarrow> MAX_EVENT_RECORD_BYTES | ZstdBlocks \<Rightarrow> MAX_EVENT_BLOCK_RECORD_BYTES)"

definition phys_record :: "('x) log_codecs_scheme \<Rightarrow> event_log_format \<Rightarrow> encryption_key option \<Rightarrow> phys \<Rightarrow> bool" where
  "phys_record L fmt enc r \<longleftrightarrow> (case fmt of
     Jsonl \<Rightarrow> \<exists>nonce e. length nonce = 24 \<and> fst r = [e] \<and> encode_envelope L nonce e enc = Inr (snd r)
   | ZstdBlocks \<Rightarrow> \<exists>nonce ms first rid. length nonce = 24 \<and> plain_lines L (fst r) ms
       \<and> consecutive first (fst r) \<and> 0 < first \<and> first + length (fst r) \<le> Suc U64_MAX
       \<and> (\<forall>e\<in>set (fst r). run_id e = rid)
       \<and> encode_event_block L nonce (lines_of ms) rid first (length (fst r)) enc = Inr (snd r))"

definition decoded :: "encryption_key option \<Rightarrow> event_envelope \<Rightarrow> decoded_event" where
  "decoded enc e = \<lparr>de_envelope = e, de_encrypted = (enc \<noteq> None)\<rparr>"

lemma de_envelope_decoded [simp]: "de_envelope (decoded enc e) = e" "de_encrypted (decoded enc e) = (enc \<noteq> None)"
  by (simp_all add: decoded_def)

definition decode_line ::
  "('x) log_codecs_scheme \<Rightarrow> event_log_format \<Rightarrow> encryption_key option \<Rightarrow> bytes \<Rightarrow> storage_error + decoded_event list" where
  "decode_line L fmt enc line = (case fmt of
     Jsonl \<Rightarrow> and_then (decode_event L line enc) (\<lambda>e.
       Inr [\<lparr>de_envelope = e, de_encrypted = is_encrypted_event L line\<rparr>])
   | ZstdBlocks \<Rightarrow> decode_event_block L line enc)"

lemma phys_record_line:
  assumes "log_laws L" "phys_record L fmt enc r"
  shows "newline \<notin> set (snd r) \<and> length (snd r) < record_limit fmt
     \<and> decode_line L fmt enc (phys_frame r) = Inr (map (decoded enc) (fst r)) \<and> fst r \<noteq> []"
proof (cases fmt)
  case Jsonl
  then obtain nonce e where e: "length nonce = 24" "fst r = [e]" "encode_envelope L nonce e enc = Inr (snd r)"
    using assms(2) by (auto simp: phys_record_def)
  show ?thesis using decode_encode_envelope[OF assms(1) e(1,3)] e(2) Jsonl
    by (simp add: record_limit_def decode_line_def phys_frame_def decoded_def)
next
  case ZstdBlocks
  then obtain nonce ms first rid where b: "length nonce = 24" "plain_lines L (fst r) ms"
       "consecutive first (fst r)" "0 < first" "\<forall>e\<in>set (fst r). run_id e = rid"
       "first + length (fst r) \<le> Suc U64_MAX"
       "encode_event_block L nonce (lines_of ms) rid first (length (fst r)) enc = Inr (snd r)"
    using assms(2) by (auto simp: phys_record_def)
  have "fst r \<noteq> []" using b(7) by (auto elim: encode_event_block_eq)
  then show ?thesis using decode_encode_block[OF assms(1) b] ZstdBlocks
    by (simp add: record_limit_def decode_line_def phys_frame_def decoded_def)
qed

interpretation event_frames: framed_log phys_frame "record_limit fmt" "\<lambda>r. log_laws L \<and> phys_record L fmt enc r"
  for fmt L enc
  by unfold_locales (auto simp: phys_frame_def dest!: phys_record_line)

lemma jsonl_record_brace:
  assumes "log_laws L" "phys_record L Jsonl enc r"
  shows "starts_with (phys_frame r) ''{''"
proof -
  obtain nonce e where "encode_envelope L nonce e enc = Inr (snd r)"
    using assms(2) by (auto simp: phys_record_def)
  then have "starts_with (snd r) ''{''"
    using log_lawsD(6,7)[OF assms(1)]
    by (cases enc) (auto simp: encode_envelope_eq encode_plaintext_eq encrypt_event_record_eq_Inr
          event_json_law_def encrypted_event_law_def)
  then show ?thesis by (auto simp: phys_frame_def starts_with_iff)
qed

section \<open>Scanning a log image\<close>

definition log_events :: "phys list \<Rightarrow> event_envelope list" where "log_events rs = concat (map fst rs)"

definition log_header :: "event_log_format \<Rightarrow> bytes" where
  "log_header fmt = (case fmt of Jsonl \<Rightarrow> [] | ZstdBlocks \<Rightarrow> EVENT_BLOCK_HEADER)"

definition log_image :: "event_log_format \<Rightarrow> phys list \<Rightarrow> bytes" where
  "log_image fmt rs = log_header fmt @ concat (map phys_frame rs)"

text \<open>A log that the writer can have produced: good records, numbered from one, of a size that
  fits the counters.\<close>

definition good_log :: "('x) log_codecs_scheme \<Rightarrow> event_log_format \<Rightarrow> encryption_key option \<Rightarrow> phys list \<Rightarrow> bool" where
  "good_log L fmt enc rs \<longleftrightarrow> log_laws L \<and> (\<forall>r\<in>set rs. phys_record L fmt enc r)
     \<and> consecutive 1 (log_events rs) \<and> length (log_events rs) \<le> U64_MAX
     \<and> length (log_image fmt rs) \<le> U64_MAX"

text \<open>An incomplete last record.\<close>

definition torn :: "event_log_format \<Rightarrow> bytes \<Rightarrow> bool" where
  "torn fmt tail \<longleftrightarrow> newline \<notin> set tail \<and> length tail \<le> record_limit fmt
     \<and> (fmt = Jsonl \<longrightarrow> tail = [] \<or> hd tail = CHR ''{'')"

lemma torn_Nil [simp]: "torn fmt []" by (simp add: torn_def)

lemma log_events_simps [simp]:
  "log_events [] = []" "log_events (r # rs) = fst r @ log_events rs"
  "log_events (xs @ ys) = log_events xs @ log_events ys"
  by (simp_all add: log_events_def)

lemma log_image_append [simp]: "log_image fmt (xs @ ys) = log_image fmt xs @ concat (map phys_frame ys)"
  by (simp add: log_image_def)

lemma header_facts:
  "EVENT_BLOCK_HEADER = ''IOREC-EVENTS-ZSTD-BLOCKS-V1'' @ [newline]"
  "newline \<notin> set ''IOREC-EVENTS-ZSTD-BLOCKS-V1''" "length ''IOREC-EVENTS-ZSTD-BLOCKS-V1'' = 27"
  by (simp_all add: EVENT_BLOCK_HEADER_def)

lemma read_header:
  "read_until (length (EVENT_BLOCK_HEADER @ rest)) (EVENT_BLOCK_HEADER @ rest) = (EVENT_BLOCK_HEADER, rest)"
  using read_until_line[OF header_facts(2), of "28 + length rest" rest]
  by (simp add: EVENT_BLOCK_HEADER_def)

lemma brace_not_header: "starts_with bs ''{'' \<Longrightarrow> \<not> starts_with EVENT_BLOCK_HEADER (take (length EVENT_BLOCK_HEADER) bs)"
  by (auto simp: starts_with_iff EVENT_BLOCK_HEADER_def)

lemma detect_log_image:
  assumes "good_log L fmt enc rs" "torn fmt tail"
  shows "unwrap_format (detect_event_log_format (Some (log_image fmt rs @ tail))) = fmt"
proof (cases fmt)
  case Jsonl
  have "starts_with (log_image fmt rs @ tail) ''{''" if "log_image fmt rs @ tail \<noteq> []"
  proof (cases rs)
    case Nil
    then show ?thesis using that assms(2) Jsonl
      by (cases tail) (auto simp: log_image_def log_header_def torn_def starts_with_def)
  next
    case (Cons r rs')
    then have "starts_with (phys_frame r) ''{''"
      using jsonl_record_brace[of L enc r] assms(1) Jsonl by (simp add: good_log_def)
    then show ?thesis using Cons Jsonl by (auto simp: log_image_def log_header_def starts_with_iff)
  qed
  then have "log_image fmt rs @ tail = [] \<or> \<not> starts_with EVENT_BLOCK_HEADER
      (take (length EVENT_BLOCK_HEADER) (log_image fmt rs @ tail))"
    using brace_not_header by blast
  then show ?thesis using Jsonl
    by (auto simp: detect_event_log_format_def unwrap_format_def)
next
  case ZstdBlocks
  then show ?thesis
    by (simp add: detect_event_log_format_def unwrap_format_def log_image_def log_header_def
          starts_with_iff EVENT_BLOCK_HEADER_def)
qed

text \<open>The step both recovery loops take on a line.\<close>

definition log_step ::
  "('x) log_codecs_scheme \<Rightarrow> event_log_format \<Rightarrow> encryption_key option
   \<Rightarrow> nat \<times> nat \<times> nat \<Rightarrow> bytes \<Rightarrow> storage_error + nat \<times> nat \<times> nat" where
  "log_step L fmt enc = (\<lambda>(count, last_sequence, valid_bytes) buffer.
     and_then (decode_line L fmt enc buffer) (\<lambda>ds.
     and_then (try_fold (\<lambda>s d. check_sequence s (de_envelope d)) (count, last_sequence) ds)
       (\<lambda>(count, last_sequence).
     Inr (count, last_sequence, saturating_add valid_bytes (u64_of_usize (length buffer))))))"

lemma and_then_assoc: "and_then (and_then r f) g = and_then r (\<lambda>x. and_then (f x) g)"
  by (cases r) simp_all

lemma and_then_Inr_right [simp]: "and_then r Inr = r"
  by (cases r) simp_all

lemma recover_jsonl_step:
  "recover_jsonl_records L enc file = line_loop (record_limit Jsonl)
     (\<lambda>(count, _, _). SEventRecordTooLarge (saturating_add count 1) MAX_EVENT_RECORD_BYTES)
     (log_step L Jsonl enc) (0, 0, 0) file"
  by (simp add: recover_jsonl_records_def log_step_def decode_line_def record_limit_def and_then_assoc
        cong: if_cong)

lemma check_sequence_fold:
  assumes "consecutive (Suc l) es" "c + length es \<le> U64_MAX" "l + length es \<le> U64_MAX"
  shows "try_fold (\<lambda>s d. check_sequence s (de_envelope d)) (c, l) (map (decoded enc) es) =
     Inr (c + length es, l + length es)"
  using assms
proof (induction es arbitrary: c l)
  case (Cons e es)
  then show ?case by (simp add: check_sequence_def)
qed simp

lemma log_step_record:
  assumes "log_laws L" "phys_record L fmt enc r" "consecutive (Suc l) (fst r)"
    and "c + length (fst r) \<le> U64_MAX" "l + length (fst r) \<le> U64_MAX"
    and "v + length (phys_frame r) \<le> U64_MAX"
  shows "log_step L fmt enc (c, l, v) (phys_frame r) =
     Inr (c + length (fst r), l + length (fst r), v + length (phys_frame r))"
  using phys_record_line[OF assms(1,2)] check_sequence_fold[OF assms(3-5)] assms(6)
  by (simp add: log_step_def)

lemma log_steps:
  assumes "log_laws L" "\<forall>r\<in>set rs. phys_record L fmt enc r" "consecutive (Suc n) (log_events rs)"
    and "n + length (log_events rs) \<le> U64_MAX" "v + length (concat (map phys_frame rs)) \<le> U64_MAX"
  shows "try_fold (\<lambda>s r. log_step L fmt enc s (phys_frame r)) (n, n, v) rs =
     Inr (n + length (log_events rs), n + length (log_events rs), v + length (concat (map phys_frame rs)))"
  using assms(2-)
proof (induction rs arbitrary: n v)
  case (Cons r rs)
  have "log_step L fmt enc (n, n, v) (phys_frame r) =
      Inr (n + length (fst r), n + length (fst r), v + length (phys_frame r))"
    using Cons.prems by (intro log_step_record assms(1)) auto
  then show ?case using Cons.IH[of "n + length (fst r)" "v + length (phys_frame r)"] Cons.prems
    by (simp add: add.assoc)
qed simp

lemma scan_log_image:
  assumes "good_log L fmt enc rs" "torn fmt tail"
  shows "(case fmt of Jsonl \<Rightarrow> recover_jsonl_records L enc (log_image fmt rs @ tail)
          | ZstdBlocks \<Rightarrow> recover_zstd_blocks L enc (log_image fmt rs @ tail)) =
     Inr (length (log_events rs), length (log_events rs), length (log_image fmt rs))"
proof -
  have good: "\<forall>r\<in>set rs. log_laws L \<and> phys_record L fmt enc r" and laws: "log_laws L"
    using assms(1) by (auto simp: good_log_def)
  have tail: "newline \<notin> set tail" "length tail \<le> record_limit fmt" using assms(2) by (simp_all add: torn_def)
  have scan: "line_loop (record_limit fmt) tl (log_step L fmt enc) (0, 0, length (log_header fmt))
      (concat (map phys_frame rs) @ tail) =
      Inr (length (log_events rs), length (log_events rs), length (log_image fmt rs))" for tl
    using log_steps[OF laws, of rs fmt enc 0 "length (log_header fmt)"] assms(1)
    by (simp add: event_frames.scan_frames[OF good tail] good_log_def log_image_def)
  show ?thesis
  proof (cases fmt)
    case Jsonl
    then show ?thesis using scan by (simp add: recover_jsonl_step log_image_def log_header_def)
  next
    case ZstdBlocks
    have "recover_zstd_blocks L enc (EVENT_BLOCK_HEADER @ concat (map phys_frame rs) @ tail) =
        line_loop (record_limit ZstdBlocks) (\<lambda>_. SInvalidEventBlock ''physical block exceeds the record limit'')
          (log_step L ZstdBlocks enc) (0, 0, length EVENT_BLOCK_HEADER) (concat (map phys_frame rs) @ tail)"
      using read_header[of "concat (map phys_frame rs) @ tail"]
      by (simp add: recover_zstd_blocks_def log_step_def decode_line_def record_limit_def
            header_facts(1) U64_MAX_def)
    then show ?thesis using scan[of "\<lambda>_. SInvalidEventBlock ''physical block exceeds the record limit''"] ZstdBlocks
      by (simp add: log_image_def log_header_def)
  qed
qed

lemma recover_log_image:
  assumes "good_log L fmt enc rs" "torn fmt tail"
  shows "recover_events_with_key L (Some (log_image fmt rs @ tail)) repair enc =
     Inr (\<lparr>valid_events = length (log_events rs), last_sequence = length (log_events rs),
           valid_bytes = length (log_image fmt rs), discarded_tail_bytes = length tail,
           quarantine = (if tail \<noteq> [] \<and> repair then Some tail else None)\<rparr>,
          Some (if repair then log_image fmt rs else log_image fmt rs @ tail))"
proof -
  have "(case fmt of Jsonl \<Rightarrow> recover_jsonl_records L enc (log_image fmt rs @ tail)
          | ZstdBlocks \<Rightarrow> recover_zstd_blocks L enc (log_image fmt rs @ tail)) =
     Inr (length (log_events rs), length (log_events rs), length (log_image fmt rs))"
    by (rule scan_log_image[OF assms])
  then show ?thesis
    by (simp only: recover_events_with_key_def option.case detect_log_image[OF assms])
      (simp add: Let_def)
qed

text \<open>A crash while the block header is written leaves a proper beginning of it.\<close>

lemma recover_torn_header:
  assumes "prefix p EVENT_BLOCK_HEADER" "p \<noteq> EVENT_BLOCK_HEADER"
  shows "recover_events_with_key L (Some p) repair enc =
     Inr (\<lparr>valid_events = 0, last_sequence = 0, valid_bytes = 0, discarded_tail_bytes = length p,
           quarantine = (if p \<noteq> [] \<and> repair then Some p else None)\<rparr>,
          Some (if repair then [] else p))"
proof -
  have p: "prefix p ''IOREC-EVENTS-ZSTD-BLOCKS-V1''"
    using assms unfolding header_facts(1) prefix_snoc by blast
  then have nl: "newline \<notin> set p" using header_facts(2) set_mono_prefix by blast
  have detect: "unwrap_format (detect_event_log_format (Some p)) = (if p = [] then Jsonl else ZstdBlocks)"
  proof -
    have "take (length EVENT_BLOCK_HEADER) p = p" using prefix_length_le[OF assms(1)] by simp
    moreover have "starts_with EVENT_BLOCK_HEADER p" using assms(1) by (auto simp: starts_with_iff prefix_def)
    ultimately show ?thesis by (simp add: detect_event_log_format_def unwrap_format_def)
  qed
  have "recover_jsonl_records L enc [] = Inr (0, 0, 0)"
    by (simp add: recover_jsonl_records_def line_loop.simps)
  moreover have "recover_zstd_blocks L enc p = Inr (0, 0, 0)" if "p \<noteq> []"
    using read_until_tail[OF nl, of "length p"] nl last_in_set[OF that] assms(2)
    by (auto simp: recover_zstd_blocks_def)
  ultimately show ?thesis using detect
    by (cases "p = []") (simp_all add: recover_events_with_key_def Let_def)
qed

section \<open>Readers\<close>

text \<open>The reader will deliver exactly these decoded events.\<close>

definition delivers ::
  "('x) log_codecs_scheme \<Rightarrow> decoded_event_reader \<Rightarrow> event_envelope list \<Rightarrow> bool" where
  "delivers L r es \<longleftrightarrow> (\<exists>buf rs tail.
     dr_buffered r = map (decoded (dr_encryption r)) buf
     \<and> dr_reader r = concat (map phys_frame rs) @ tail
     \<and> (\<forall>q\<in>set rs. phys_record L (dr_format r) (dr_encryption r) q)
     \<and> es = buf @ log_events rs)"

lemma read_bounded_record:
  assumes "log_laws L" "phys_record L fmt enc q"
  shows "read_bounded_line (phys_frame q @ rest) (record_limit fmt) n = Inr (phys_frame q, rest)"
  using phys_record_line[OF assms] read_until_line[of "snd q" "Suc (record_limit fmt)" rest]
  by (simp add: read_bounded_line_def phys_frame_def)

lemma delivers_next:
  assumes laws: "log_laws L" and del: "delivers L r (e # es)"
  obtains r' where "next_or_changed L r = Inr (decoded (dr_encryption r) e, r')"
    "delivers L r' es" "dr_encryption r' = dr_encryption r"
proof -
  obtain buf rs tail where b: "dr_buffered r = map (decoded (dr_encryption r)) buf"
     "dr_reader r = concat (map phys_frame rs) @ tail"
     "\<forall>q\<in>set rs. phys_record L (dr_format r) (dr_encryption r) q" "e # es = buf @ log_events rs"
    using del by (auto simp: delivers_def)
  show thesis
  proof (cases buf)
    case (Cons x xs)
    define r' where "r' = r\<lparr>dr_buffered := map (decoded (dr_encryption r)) xs\<rparr>"
    have "delivers L r' es" unfolding delivers_def
      by (intro exI[of _ xs] exI[of _ rs] exI[of _ tail]) (use b Cons in \<open>simp add: r'_def\<close>)
    moreover have "next_or_changed L r = Inr (decoded (dr_encryption r) e, r')"
      using b Cons by (simp add: next_or_changed_def next_decoded_def r'_def)
    ultimately show thesis using that by (simp add: r'_def)
  next
    case Nil
    then obtain q rs' where rs: "rs = q # rs'" using b(4) by (cases rs) auto
    have q: "phys_record L (dr_format r) (dr_encryption r) q" using b(3) rs by simp
    obtain x xs where x: "fst q = x # xs" using phys_record_line[OF laws q] by (cases "fst q") auto
    then have es: "x = e" "es = xs @ log_events rs'" using b(4) Nil rs by simp_all
    define r' where "r' = r\<lparr>dr_physical_record := saturating_add (dr_physical_record r) 1,
        dr_reader := concat (map phys_frame rs') @ tail,
        dr_buffered := map (decoded (dr_encryption r)) xs\<rparr>"
    have line: "decode_line L (dr_format r) (dr_encryption r) (phys_frame q) =
        Inr (map (decoded (dr_encryption r)) (fst q))" and last: "last (phys_frame q) = newline" "phys_frame q \<noteq> []"
      using phys_record_line[OF laws q] by (simp_all add: phys_frame_def)
    have read: "read_bounded_line (dr_reader r) (record_limit (dr_format r)) n =
        Inr (phys_frame q, concat (map phys_frame rs') @ tail)" for n
      using read_bounded_record[OF laws q] b(2) rs by simp
    have single: "xs = []" if "dr_format r = Jsonl" using q x that by (auto simp: phys_record_def)
    have "next_decoded L r = Inr (Some (decoded (dr_encryption r) e), r')"
    proof (cases "dr_format r")
      case Jsonl
      then show ?thesis using read line last x es single b(1) Nil
        by (auto simp: next_decoded_def record_limit_def decode_line_def and_then_eq_Inr r'_def decoded_def Let_def)
    next
      case ZstdBlocks
      then show ?thesis using read line last x es b(1) Nil
        by (simp add: next_decoded_def record_limit_def decode_line_def r'_def Let_def)
    qed
    moreover have "delivers L r' es" unfolding delivers_def
      by (intro exI[of _ xs] exI[of _ rs'] exI[of _ tail]) (use b rs es in \<open>simp add: r'_def\<close>)
    ultimately show thesis using that[of r'] by (simp add: next_or_changed_def r'_def)
  qed
qed

lemma open_reader_delivers:
  assumes "good_log L fmt enc rs" "torn fmt tail"
  obtains r where "open_decoded_reader (Some (log_image fmt rs @ tail)) enc = Inr r"
    "delivers L r (log_events rs)" "dr_encryption r = enc"
proof -
  define r where "r = \<lparr>dr_reader = concat (map phys_frame rs) @ tail, dr_format = fmt, dr_encryption = enc,
     dr_buffered = [], dr_physical_record = 0\<rparr>"
  have "delivers L r (log_events rs)"
    unfolding delivers_def
    by (intro exI[of _ "[]"] exI[of _ rs] exI[of _ tail]) (use assms in \<open>simp add: r_def good_log_def\<close>)
  moreover have "open_decoded_reader (Some (log_image fmt rs @ tail)) enc = Inr r"
    unfolding open_decoded_reader_def detect_log_image[OF assms]
    using read_header[of "concat (map phys_frame rs) @ tail"]
    by (cases fmt) (simp_all add: r_def log_image_def log_header_def del: length_append)
  ultimately show thesis using that by (simp add: r_def)
qed

lemma visit_events_delivers:
  assumes "log_laws L" "delivers L r es"
  shows "visit_events L visitor (length es) r s = try_fold visitor s es"
  using assms(2)
proof (induction es arbitrary: r s)
  case (Cons e es)
  obtain r' where "next_or_changed L r = Inr (decoded (dr_encryption r) e, r')" "delivers L r' es"
    using delivers_next[OF assms(1) Cons.prems] by metis
  then show ?case using Cons.IH by (simp add: and_then_def split: sum.splits)
qed simp

text \<open>Identifiers strictly increase from the previous one.\<close>

fun ids_increase :: "uuid option \<Rightarrow> event_envelope list \<Rightarrow> bool" where
  "ids_increase previous [] = True"
| "ids_increase previous (e # es) =
     ((case previous of None \<Rightarrow> True | Some p \<Rightarrow> p < event_id e) \<and> ids_increase (Some (event_id e)) es)"

lemma check_event_id_ok:
  "check_event_id previous e = Inr () \<longleftrightarrow> (case previous of None \<Rightarrow> True | Some p \<Rightarrow> p < event_id e)"
  by (auto simp: check_event_id_def split: option.splits)

lemma check_scope_decoded:
  "run_id e = rid \<Longrightarrow> check_scope (enc \<noteq> None) rid n (decoded enc e) = Inr e"
  by (simp add: check_scope_def)

lemma visit_run_events_delivers:
  assumes "log_laws L" "delivers L r es" "\<forall>e\<in>set es. run_id e = rid" "ids_increase previous es"
  shows "visit_run_events L (dr_encryption r \<noteq> None) rid visitor n (length es) previous r s = try_fold visitor s es"
  using assms(2-)
proof (induction es arbitrary: r s n previous)
  case (Cons e es)
  obtain r' where r': "next_or_changed L r = Inr (decoded (dr_encryption r) e, r')" "delivers L r' es"
      "dr_encryption r' = dr_encryption r"
    using delivers_next[OF assms(1) Cons.prems(1)] by metis
  have "check_event_id previous e = Inr ()" using Cons.prems(3) by (simp add: check_event_id_ok)
  moreover have "visit_run_events L (dr_encryption r \<noteq> None) rid visitor m (length es) (Some (event_id e)) r' s' =
      try_fold visitor s' es" for m s'
    using Cons.IH[OF r'(2), of "Some (event_id e)" m s'] Cons.prems r'(3) by simp
  ultimately show ?case
    using r'(1) Cons.prems(2)
    by (simp add: check_scope_decoded and_then_def del: not_None_eq split: sum.splits)
qed simp

text \<open>Everything an iterator yields, up to \<open>n\<close> items.\<close>

fun take_items :: "('x) log_codecs_scheme \<Rightarrow> nat \<Rightarrow> run_event_reader \<Rightarrow> (storage_error + event_envelope) list" where
  "take_items L 0 r = []"
| "take_items L (Suc n) r =
     (case next_run_event L r of (None, _) \<Rightarrow> [] | (Some item, r') \<Rightarrow> item # take_items L n r')"

lemma take_items_delivers:
  assumes "log_laws L" "delivers L (rr_reader r) es" "\<forall>e\<in>set es. run_id e = rr_expected_run_id r"
    and "ids_increase (rr_previous_event_id r) es" "consecutive (rr_next_record r) es"
    and "\<not> rr_failed r" "rr_expect_encrypted r = (dr_encryption (rr_reader r) \<noteq> None)"
    and "rr_next_record r + length es = Suc (valid_events (rr_report r))"
    and "valid_events (rr_report r) < U64_MAX" "length es < n"
  shows "take_items L n r = map Inr es"
  using assms(2-)
proof (induction es arbitrary: r n)
  case Nil
  then show ?case by (cases n) (simp_all add: next_run_event_def)
next
  case (Cons e es)
  obtain m where n: "n = Suc m" using Cons.prems(9) by (cases n) auto
  obtain q where q: "next_or_changed L (rr_reader r) = Inr (decoded (dr_encryption (rr_reader r)) e, q)"
      "delivers L q es" "dr_encryption q = dr_encryption (rr_reader r)"
    using delivers_next[OF assms(1) Cons.prems(1)] by metis
  define r' where "r' = r\<lparr>rr_next_record := Suc (rr_next_record r), rr_reader := q,
      rr_previous_event_id := Some (event_id e)\<rparr>"
  have "check_event_id (rr_previous_event_id r) e = Inr ()"
    using Cons.prems(3) by (simp add: check_event_id_ok)
  then have "next_run_event L r = (Some (Inr e), r')"
    using Cons.prems q(1) check_scope_decoded[of e "rr_expected_run_id r" "dr_encryption (rr_reader r)"]
    by (simp add: next_run_event_def r'_def Let_def del: not_None_eq)
  moreover have "take_items L m r' = map Inr es"
    using Cons.prems q n by (intro Cons.IH) (simp_all add: r'_def)
  ultimately show ?case using n by simp
qed

lemma for_each_log_image:
  assumes "good_log L fmt enc rs" "torn fmt tail"
  shows "and_then (for_each_event_with_key L (Some (log_image fmt rs @ tail)) enc visitor s)
      (\<lambda>(_, s'). Inr s') = try_fold visitor s (log_events rs)"
proof -
  obtain r where r: "open_decoded_reader (Some (log_image fmt rs @ tail)) enc = Inr r" "delivers L r (log_events rs)"
    using open_reader_delivers[OF assms] by metis
  have laws: "log_laws L" using assms(1) by (simp add: good_log_def)
  show ?thesis
    using r(1)
    by (simp add: for_each_event_with_key_def recover_log_image[OF assms] and_then_assoc visit_events_delivers[OF laws r(2)])
qed

lemma good_log_append: "good_log L fmt enc (xs @ ys) \<Longrightarrow> good_log L fmt enc xs"
  by (auto simp: good_log_def consecutive_append)

section \<open>Concrete logs for witnesses\<close>

definition demo_records :: "phys list" where
  "demo_records = [([demo_event 1], ''{1}''), ([demo_event 2], ''{2}'')]"

lemma demo_good_log: "good_log demo_log Jsonl None demo_records"
proof -
  have "encode_envelope demo_log demo_nonce (demo_event 1) None = Inr ''{1}''"
    "encode_envelope demo_log demo_nonce (demo_event 2) None = Inr ''{2}''"
    using demo_plain_lines by (simp_all add: encode_envelope_eq event_limits)
  moreover have "length demo_nonce = 24" by (simp add: demo_nonce_def)
  ultimately have "\<forall>r\<in>set demo_records. phys_record demo_log Jsonl None r"
    by (auto simp: phys_record_def demo_records_def)
  then show ?thesis
    by (simp add: good_log_def demo_records_def log_image_def log_header_def phys_frame_def U64_MAX_def)
qed

lemma demo_image: "log_image Jsonl demo_records = ''{1}'' @ [newline] @ ''{2}'' @ [newline]"
  by (simp add: log_image_def log_header_def demo_records_def phys_frame_def)

lemma demo_torn: "torn Jsonl ''{3''"
  by (simp add: torn_def record_limit_def event_limits)

section \<open>Repair is idempotent\<close>

text \<open>A step function that counts the bytes of its lines.\<close>

definition counts_bytes :: "(nat \<times> nat \<times> nat \<Rightarrow> bytes \<Rightarrow> 'e + nat \<times> nat \<times> nat) \<Rightarrow> bool" where
  "counts_bytes step \<longleftrightarrow> (\<forall>c l v buffer c' l' v'. step (c, l, v) buffer = Inr (c', l', v') \<longrightarrow>
     v' = saturating_add v (u64_of_usize (length buffer)))"

lemma log_step_counts: "counts_bytes (log_step L fmt enc)"
  by (auto simp: counts_bytes_def log_step_def and_then_eq_Inr)

lemma line_loop_valid_prefix:
  assumes "counts_bytes step" "line_loop limit too_large step (c, l, v) bs = Inr (c', l', v')"
    and "v + length bs \<le> U64_MAX"
  shows "v \<le> v' \<and> v' \<le> v + length bs
     \<and> line_loop limit too_large step (c, l, v) (take (v' - v) bs) = Inr (c', l', v')
     \<and> (v' = v \<or> newline \<in> set (take (v' - v) bs))"
  using assms(2,3)
proof (induction "length bs" arbitrary: bs c l v rule: less_induct)
  case less
  obtain buffer rest where read: "read_until (limit + 1) bs = (buffer, rest)" by fastforce
  then have bs: "bs = buffer @ rest" by (rule read_until_append)
  show ?case
  proof (cases "buffer = [] \<or> \<not> length buffer \<le> limit \<or> last buffer \<noteq> newline")
    case True
    then have "(c', l', v') = (c, l, v)"
      using less(2) read by (auto simp: line_loop.simps[of _ _ _ _ bs] split: if_splits)
    then show ?thesis by (simp add: line_loop.simps)
  next
    case False
    then obtain k where k: "buffer = k @ [newline]" "newline \<notin> set k"
      using read_until_last[OF read] by blast
    obtain c1 l1 v1 where step: "step (c, l, v) buffer = Inr (c1, l1, v1)"
      and loop: "line_loop limit too_large step (c1, l1, v1) rest = Inr (c', l', v')"
      using less(2) read False
      by (auto simp: line_loop.simps[of _ _ _ _ bs] and_then_eq_Inr split: if_splits)
    have "v1 = saturating_add v (u64_of_usize (length buffer))"
      using assms(1) step unfolding counts_bytes_def by blast
    then have v1: "v1 = v + length buffer" using less(3) bs by simp
    have "length rest < length bs" using bs False by simp
    from less(1)[OF this loop] less(3) bs v1
    have IH: "v1 \<le> v'" "v' \<le> v1 + length rest"
        "line_loop limit too_large step (c1, l1, v1) (take (v' - v1) rest) = Inr (c', l', v')" by simp_all
    have "v' - v = length buffer + (v' - v1)" using IH(1) v1 by simp
    then have "take (v' - v) bs = k @ newline # take (v' - v1) rest" using bs k by simp
    moreover have "length k < limit" using False k by simp
    ultimately show ?thesis
      using IH v1 bs step k line_loop_line[OF k(2), of limit too_large step "(c, l, v)"] by simp
  qed
qed

lemma detect_take_jsonl:
  assumes "detect_event_log_format (Some bs) = Some Jsonl" "newline \<in> set (take v bs)"
  shows "detect_event_log_format (Some (take v bs)) = Some Jsonl"
proof -
  let ?n = "length EVENT_BLOCK_HEADER"
  have no: "\<not> starts_with EVENT_BLOCK_HEADER (take ?n bs)"
    using assms(1) by (auto simp: detect_event_log_format_def split: if_splits)
  have "\<not> starts_with EVENT_BLOCK_HEADER (take ?n (take v bs))"
  proof
    assume "starts_with EVENT_BLOCK_HEADER (take ?n (take v bs))"
    then have p: "prefix (take (min ?n v) bs) EVENT_BLOCK_HEADER"
      by (auto simp: starts_with_iff prefix_def min.commute)
    show False
    proof (cases "?n \<le> v")
      case True
      then show False using p no by (auto simp: starts_with_iff prefix_def min_def)
    next
      case False
      then have t: "prefix (take v bs) EVENT_BLOCK_HEADER" using p by (simp add: min_def)
      have "length (take v bs) < ?n" using False by simp
      then have "take v bs \<noteq> EVENT_BLOCK_HEADER" by (metis less_irrefl)
      with t have "prefix (take v bs) ''IOREC-EVENTS-ZSTD-BLOCKS-V1''"
        unfolding header_facts(1) prefix_snoc by blast
      then show False using assms(2) header_facts(2) set_mono_prefix by blast
    qed
  qed
  moreover have "take v bs \<noteq> []" using assms(2) by (metis empty_iff list.set(1))
  ultimately show ?thesis by (simp add: detect_event_log_format_def)
qed

lemma recover_scan_prefix:
  assumes "(case unwrap_format (detect_event_log_format (Some bs)) of
      Jsonl \<Rightarrow> recover_jsonl_records L enc bs | ZstdBlocks \<Rightarrow> recover_zstd_blocks L enc bs) = Inr (c, l, v)"
    and "length bs \<le> U64_MAX"
  shows "v \<le> length bs
    \<and> (case unwrap_format (detect_event_log_format (Some (take v bs))) of
         Jsonl \<Rightarrow> recover_jsonl_records L enc (take v bs)
       | ZstdBlocks \<Rightarrow> recover_zstd_blocks L enc (take v bs)) = Inr (c, l, v)"
proof (cases "unwrap_format (detect_event_log_format (Some bs))")
  case Jsonl
  then have r: "recover_jsonl_records L enc bs = Inr (c, l, v)" using assms(1) by simp
  from line_loop_valid_prefix[OF log_step_counts r[unfolded recover_jsonl_step]] assms(2)
  have v: "v \<le> length bs" "recover_jsonl_records L enc (take v bs) = Inr (c, l, v)"
      "v = 0 \<or> newline \<in> set (take v bs)"
    by (simp_all add: recover_jsonl_step)
  have "unwrap_format (detect_event_log_format (Some (take v bs))) = Jsonl"
    using v(3) detect_take_jsonl[of bs v] Jsonl
    by (auto simp: unwrap_format_def detect_event_log_format_def split: if_splits)
  then show ?thesis using v by simp
next
  case ZstdBlocks
  obtain buffer rest where read: "read_until (length bs) bs = (buffer, rest)" by fastforce
  then have bs: "bs = buffer @ rest" by (rule read_until_append)
  show ?thesis
  proof (cases "buffer = EVENT_BLOCK_HEADER")
    case False
    then have "(c, l, v) = (0, 0, 0)"
      using assms(1) ZstdBlocks read by (auto simp: recover_zstd_blocks_def split: if_splits)
    then show ?thesis using recover_torn_header[of "[]"]
      by (simp add: unwrap_format_def detect_event_log_format_def recover_jsonl_records_def line_loop.simps)
  next
    case True
    have header: "recover_zstd_blocks L enc (EVENT_BLOCK_HEADER @ f) =
        line_loop (record_limit ZstdBlocks) (\<lambda>_. SInvalidEventBlock ''physical block exceeds the record limit'')
          (log_step L ZstdBlocks enc) (0, 0, length EVENT_BLOCK_HEADER) f" for f
      using read_header[of f]
      by (simp add: recover_zstd_blocks_def log_step_def decode_line_def record_limit_def
            header_facts(1) U64_MAX_def)
    have r: "recover_zstd_blocks L enc (EVENT_BLOCK_HEADER @ rest) = Inr (c, l, v)"
      using assms(1) ZstdBlocks bs True by simp
    from line_loop_valid_prefix[OF log_step_counts r[unfolded header]] assms(2) bs True
    have v: "length EVENT_BLOCK_HEADER \<le> v" "v \<le> length bs"
        "recover_zstd_blocks L enc (EVENT_BLOCK_HEADER @ take (v - length EVENT_BLOCK_HEADER) rest) = Inr (c, l, v)"
      by (simp_all add: header)
    have t: "take v bs = EVENT_BLOCK_HEADER @ take (v - length EVENT_BLOCK_HEADER) rest"
      using bs True v(1) by simp
    have "unwrap_format (detect_event_log_format (Some (take v bs))) = ZstdBlocks"
      unfolding t by (simp add: detect_event_log_format_def unwrap_format_def starts_with_iff header_facts(1))
    then show ?thesis using v t by simp
  qed
qed

text \<open>C11: Repair is idempotent on every file. Whatever the bytes of the log, when recovery with
  repair succeeds the repaired file recovers to the same events, sequence and valid bytes with
  nothing left to discard, the file is the valid prefix of the original, and what was cut off
  is in quarantine: no byte is lost.\<close>

theorem recovery_repair_idempotent:
  assumes "recover_events_with_key L (Some bs) True enc = Inr (report, Some bs')"
    and "length bs \<le> U64_MAX"
  shows "recover_events_with_key L (Some bs') True enc =
      Inr (report\<lparr>discarded_tail_bytes := 0, quarantine := None\<rparr>, Some bs')
    \<and> bs' @ (case quarantine report of None \<Rightarrow> [] | Some tail \<Rightarrow> tail) = bs
    \<and> valid_bytes report = length bs'"
proof -
  define scan where "scan = (\<lambda>f. case unwrap_format (detect_event_log_format (Some f)) of
      Jsonl \<Rightarrow> recover_jsonl_records L enc f | ZstdBlocks \<Rightarrow> recover_zstd_blocks L enc f)"
  have unfold: "recover_events_with_key L (Some f) True enc = and_then (scan f) (\<lambda>(count, last_seq, valid).
      Inr (\<lparr>valid_events = count, last_sequence = last_seq, valid_bytes = valid,
            discarded_tail_bytes = length f - valid,
            quarantine = (if length f - valid > 0 then Some (drop valid f) else None)\<rparr>,
           Some (if length f - valid > 0 then take valid f else f)))" for f
    by (simp add: recover_events_with_key_def scan_def Let_def)
  obtain c l v where scan: "scan bs = Inr (c, l, v)"
    using assms(1) by (auto simp: unfold and_then_eq_Inr)
  have "v \<le> length bs \<and> scan (take v bs) = Inr (c, l, v)"
    using scan recover_scan_prefix[OF _ assms(2)] unfolding scan_def by blast
  then show ?thesis
    using assms(1) scan by (auto simp: unfold split: if_splits)
qed

theorem recovery_repair_idempotent_witness:
  "recover_events_with_key demo_log (Some (''{1}'' @ [newline] @ ''{2}'' @ [newline])) True None =
   Inr (\<lparr>valid_events = 2, last_sequence = 2, valid_bytes = 8, discarded_tail_bytes = 0,
         quarantine = None\<rparr>, Some (''{1}'' @ [newline] @ ''{2}'' @ [newline]))"
proof -
  have "recover_events_with_key demo_log (Some (log_image Jsonl demo_records @ ''{3'')) True None =
      Inr (\<lparr>valid_events = 2, last_sequence = 2, valid_bytes = 8, discarded_tail_bytes = 2,
            quarantine = Some ''{3''\<rparr>, Some (log_image Jsonl demo_records))"
    using recover_log_image[OF demo_good_log demo_torn, of True]
    by (simp add: demo_records_def log_image_def log_header_def phys_frame_def)
  from recovery_repair_idempotent[OF this] show ?thesis by (simp add: demo_image U64_MAX_def)
qed

section \<open>Readers of a written log\<close>

text \<open>C10: Recovery is exact. On a log the writer produced, with any incomplete last record, in
  either format and with or without encryption, recovery succeeds, counts exactly the complete
  records' events, and with repair leaves exactly the complete records and quarantines exactly
  the incomplete one.\<close>

theorem recovery_exact:
  assumes "good_log L fmt enc rs" "torn fmt tail"
  shows "recover_events_with_key L (Some (log_image fmt rs @ tail)) repair enc =
     Inr (\<lparr>valid_events = length (log_events rs), last_sequence = length (log_events rs),
           valid_bytes = length (log_image fmt rs), discarded_tail_bytes = length tail,
           quarantine = (if tail \<noteq> [] \<and> repair then Some tail else None)\<rparr>,
          Some (if repair then log_image fmt rs else log_image fmt rs @ tail))"
  using assms by (rule recover_log_image)

theorem recovery_exact_witness:
  "recover_events_with_key demo_log (Some (''{1}'' @ [newline] @ ''{2}'' @ [newline] @ ''{3'')) True None =
   Inr (\<lparr>valid_events = 2, last_sequence = 2, valid_bytes = 8, discarded_tail_bytes = 2,
         quarantine = Some ''{3''\<rparr>, Some (''{1}'' @ [newline] @ ''{2}'' @ [newline]))"
  using recovery_exact[OF demo_good_log demo_torn, of True]
  by (simp add: demo_records_def log_image_def log_header_def phys_frame_def)



end
