(* ===== verification/Event_Writer.thy ===== *)
theory Event_Writer
  imports Event_Log
begin

text \<open>
  The single writer of the event log (\<open>src/storage.rs\<close>): batches of pending events become
  envelopes, lines and replies. The environment is explicit: the file carries the faults that
  its next writes and syncs will meet and the length that is known to be on disk; fresh event
  identifiers and nonces are functions of the sequence number they are drawn for; the command
  queue says of each command whether it was already waiting when the writer polled.
\<close>

section \<open>The file\<close>

text \<open>\<open>Some k\<close> makes the next \<open>write_all\<close> fail after \<open>k\<close> bytes, \<open>True\<close> makes the next sync
  fail; after the list ends nothing fails.\<close>

record event_file =
  ef_contents :: bytes
  ef_synced :: nat
  ef_write_faults :: "nat option list"
  ef_sync_faults :: "bool list"

definition write_all :: "event_file \<Rightarrow> bytes \<Rightarrow> (io_error + unit) \<times> event_file" where
  "write_all f bs =
     (case ef_write_faults f of
        [] \<Rightarrow> (Inr (), f\<lparr>ef_contents := ef_contents f @ bs\<rparr>)
      | None # faults \<Rightarrow> (Inr (), f\<lparr>ef_contents := ef_contents f @ bs, ef_write_faults := faults\<rparr>)
      | Some k # faults \<Rightarrow>
          (Inl (IoError Other ''write failed''),
           f\<lparr>ef_contents := ef_contents f @ take (min k (length bs - 1)) bs, ef_write_faults := faults\<rparr>))"

definition sync_data :: "event_file \<Rightarrow> (io_error + unit) \<times> event_file" where
  "sync_data f =
     (case ef_sync_faults f of
        [] \<Rightarrow> (Inr (), f\<lparr>ef_synced := length (ef_contents f)\<rparr>)
      | False # faults \<Rightarrow> (Inr (), f\<lparr>ef_synced := length (ef_contents f), ef_sync_faults := faults\<rparr>)
      | True # faults \<Rightarrow> (Inl (IoError Other ''sync failed''), f\<lparr>ef_sync_faults := faults\<rparr>))"

text \<open>What may be on disk after a crash: the synced bytes and a beginning of those appended after them.
  The file only grows at its end, and its bytes are taken to reach the disk in that order.\<close>

definition crash_image :: "event_file \<Rightarrow> bytes \<Rightarrow> bool" where
  "crash_image f p \<longleftrightarrow> prefix p (ef_contents f) \<and> ef_synced f \<le> length p"

section \<open>Writer state\<close>

record writer_stats =
  st_events :: nat
  st_event_storage_bytes :: nat
  st_blobs :: nat
  st_blob_bytes :: nat
  st_queue_waits :: nat
  st_event_sync_batches :: nat
  st_capture_drops :: nat

record writer_env =
  we_uuid :: "nat \<Rightarrow> uuid"
  we_nonce :: "nat \<Rightarrow> bytes"

record writer_config =
  wc_max_event_storage_bytes :: nat
  wc_encryption :: "encryption_key option"
  wc_format :: event_log_format

record writer_state =
  ws_file :: event_file
  ws_sequence :: nat
  ws_storage_bytes :: nat
  ws_stats :: writer_stats

section \<open>Appending records\<close>

type_synonym append_result = "nat \<times> nat \<times> storage_error option"

text \<open>The budget check and the two writes of one serialized record, the same lines in both append
  functions; on success the bytes it took.\<close>

definition append_record ::
  "writer_config \<Rightarrow> nat \<Rightarrow> nat \<Rightarrow> bytes \<Rightarrow> event_file \<Rightarrow> (storage_error + nat) \<times> event_file" where
  "append_record cfg storage persisted_bytes serialized f =
     (let requested = saturating_add (u64_of_usize (length serialized)) 1;
          used = saturating_add storage persisted_bytes;
          exceeded = SEventStorageBudgetExceeded used requested (wc_max_event_storage_bytes cfg) in
      case checked_add used requested of
        None \<Rightarrow> (Inl exceeded, f)
      | Some next \<Rightarrow>
          if next > wc_max_event_storage_bytes cfg then (Inl exceeded, f)
          else (case write_all f serialized of
             (Inl err, f) \<Rightarrow> (Inl (SIo err), f)
           | (Inr _, f) \<Rightarrow> (case write_all f [newline] of
                (Inl err, f) \<Rightarrow> (Inl (SIo err), f)
              | (Inr _, f) \<Rightarrow> (Inr requested, f))))"

text \<open>The loop of \<open>append_jsonl_records\<close> over the prepared envelopes, with its two counters.\<close>

fun append_jsonl_loop ::
  "('x) log_codecs_scheme \<Rightarrow> writer_env \<Rightarrow> writer_config \<Rightarrow> nat \<Rightarrow> event_envelope list
   \<Rightarrow> nat \<Rightarrow> nat \<Rightarrow> event_file \<Rightarrow> append_result \<times> event_file" where
  "append_jsonl_loop L env cfg storage [] persisted persisted_bytes f = ((persisted, persisted_bytes, None), f)"
| "append_jsonl_loop L env cfg storage (e # es) persisted persisted_bytes f =
     (case encode_envelope L (we_nonce env (sequence e)) e (wc_encryption cfg) of
        Inl err \<Rightarrow> ((persisted, persisted_bytes, Some err), f)
      | Inr serialized \<Rightarrow>
          (case append_record cfg storage persisted_bytes serialized f of
             (Inl err, f) \<Rightarrow> ((persisted, persisted_bytes, Some err), f)
           | (Inr requested, f) \<Rightarrow>
               append_jsonl_loop L env cfg storage es (saturating_add persisted 1)
                 (saturating_add persisted_bytes requested) f))"

definition append_jsonl_records ::
  "('x) log_codecs_scheme \<Rightarrow> writer_env \<Rightarrow> writer_config \<Rightarrow> event_file \<Rightarrow> event_envelope list \<Rightarrow> nat
   \<Rightarrow> append_result \<times> event_file" where
  "append_jsonl_records L env cfg f prepared storage = append_jsonl_loop L env cfg storage prepared 0 0 f"

text \<open>The inner loop of \<open>append_zstd_blocks\<close>: fill one block from the front of the remaining
  envelopes; the number taken is returned with the plaintext.\<close>

fun fill_block ::
  "('x) log_codecs_scheme \<Rightarrow> event_envelope list \<Rightarrow> bytes \<Rightarrow> nat \<Rightarrow> storage_error + bytes \<times> nat" where
  "fill_block L [] plaintext taken = Inr (plaintext, taken)"
| "fill_block L (e # es) plaintext taken =
     (if taken \<ge> MAX_EVENT_BLOCK_EVENTS then Inr (plaintext, taken)
      else and_then (encode_plaintext_envelope L e) (\<lambda>serialized.
        let requested = saturating_add (length serialized) 1 in
        if plaintext \<noteq> []
           \<and> saturating_add (length plaintext) requested > MAX_EVENT_BLOCK_UNCOMPRESSED_BYTES
        then Inr (plaintext, taken)
        else if requested > MAX_EVENT_BLOCK_UNCOMPRESSED_BYTES
        then Inl (SInvalidEventBlock ''event cannot fit in the uncompressed block limit'')
        else fill_block L es (plaintext @ serialized @ [newline]) (Suc taken)))"

function append_zstd_loop ::
  "('x) log_codecs_scheme \<Rightarrow> writer_env \<Rightarrow> writer_config \<Rightarrow> nat \<Rightarrow> event_envelope list
   \<Rightarrow> nat \<Rightarrow> nat \<Rightarrow> event_file \<Rightarrow> append_result \<times> event_file" where
  "append_zstd_loop L env cfg storage remaining persisted persisted_bytes f =
     (if remaining = [] then ((persisted, persisted_bytes, None), f)
      else case fill_block L remaining [] 0 of
        Inl err \<Rightarrow> ((persisted, persisted_bytes, Some err), f)
      | Inr (plaintext, taken) \<Rightarrow>
        (case encode_event_block L (we_nonce env (sequence (hd remaining))) plaintext
                (run_id (hd remaining)) (sequence (hd remaining)) taken (wc_encryption cfg) of
           Inl err \<Rightarrow> ((persisted, persisted_bytes, Some err), f)
         | Inr serialized \<Rightarrow>
             (case append_record cfg storage persisted_bytes serialized f of
                (Inl err, f) \<Rightarrow> ((persisted, persisted_bytes, Some err), f)
              | (Inr requested, f) \<Rightarrow>
                  append_zstd_loop L env cfg storage (drop taken remaining) (persisted + taken)
                    (saturating_add persisted_bytes requested) f)))"
  by pat_completeness auto

lemma encode_event_block_count:
  "encode_event_block L nonce m rid first count encryption = Inr bs \<Longrightarrow> 0 < count"
  by (auto simp: encode_event_block_def split: if_splits)

termination append_zstd_loop
  by (relation "measure (\<lambda>(_, _, _, _, remaining, _). length remaining)")
    (auto dest: encode_event_block_count simp: length_drop)

declare append_zstd_loop.simps [simp del]

definition append_zstd_blocks ::
  "('x) log_codecs_scheme \<Rightarrow> writer_env \<Rightarrow> writer_config \<Rightarrow> event_file \<Rightarrow> event_envelope list \<Rightarrow> nat
   \<Rightarrow> append_result \<times> event_file" where
  "append_zstd_blocks L env cfg f prepared storage = append_zstd_loop L env cfg storage prepared 0 0 f"

section \<open>Batches\<close>

text \<open>Numbering of a batch; an overflow of the sequence ends it.\<close>

fun prepare_batch :: "writer_env \<Rightarrow> nat \<Rightarrow> nat \<Rightarrow> pending_event list \<Rightarrow> storage_error + event_envelope list" where
  "prepare_batch env seq offset [] = Inr []"
| "prepare_batch env seq offset (p # ps) =
     and_then (ok_or (checked_add seq offset) (SWriter ''event sequence overflow'')) (\<lambda>n.
     and_then (prepare_batch env seq (Suc offset) ps) (\<lambda>es.
     Inr (from_pending (we_uuid env n) n p # es)))"

definition batch_stopped :: "storage_error" where
  "batch_stopped = SWriter ''durable event batch append failed; writer stopped to preserve ordering''"

text \<open>The result, the replies in batch order (an early return sends none), and the state.\<close>

definition append_batch ::
  "('x) log_codecs_scheme \<Rightarrow> writer_env \<Rightarrow> writer_config \<Rightarrow> writer_state \<Rightarrow> pending_event list
   \<Rightarrow> (storage_error + unit) \<times> (storage_error + nat) list \<times> writer_state" where
  "append_batch L env cfg w batch =
     (case prepare_batch env (ws_sequence w) 0 batch of
        Inl err \<Rightarrow> (Inl err, [], w)
      | Inr prepared \<Rightarrow>
        let ((persisted, persisted_bytes, failure), f) =
              (case wc_format cfg of
                 Jsonl \<Rightarrow> append_jsonl_records L env cfg (ws_file w) prepared (ws_storage_bytes w)
               | ZstdBlocks \<Rightarrow> append_zstd_blocks L env cfg (ws_file w) prepared (ws_storage_bytes w));
            (synced, f) = (if persisted > 0 then sync_data f else (Inr (), f)) in
        (case synced of
           Inl err \<Rightarrow> (Inl batch_stopped, map (\<lambda>_. Inl (SIo err)) prepared, w\<lparr>ws_file := f\<rparr>)
         | Inr _ \<Rightarrow>
           (case checked_add (ws_sequence w) persisted of
              None \<Rightarrow> (Inl (SWriter ''event sequence overflow''), [], w\<lparr>ws_file := f\<rparr>)
            | Some next_sequence \<Rightarrow>
              let stats = ws_stats w;
                  stats = stats\<lparr>st_events := wrapping_add (st_events stats) persisted,
                    st_event_storage_bytes := wrapping_add (st_event_storage_bytes stats) persisted_bytes,
                    st_event_sync_batches :=
                      (if persisted > 0 then wrapping_add (st_event_sync_batches stats) 1
                       else st_event_sync_batches stats)\<rparr>;
                  refused = (case failure of Some err \<Rightarrow> err
                     | None \<Rightarrow> SWriter ''event batch stopped before this event was persisted'');
                  replies = map (\<lambda>e. Inr (sequence e)) (take persisted prepared)
                            @ map (\<lambda>_. Inl refused) (drop persisted prepared)
              in ((case failure of None \<Rightarrow> Inr () | Some _ \<Rightarrow> Inl batch_stopped), replies,
                  w\<lparr>ws_file := f, ws_sequence := next_sequence,
                    ws_storage_bytes := saturating_add (ws_storage_bytes w) persisted_bytes,
                    ws_stats := stats\<rparr>))))"

section \<open>The command loop\<close>

datatype writer_command = CAppend pending_event | CFlush | CShutdown

datatype writer_reply =
  RAppend "storage_error + nat"
| RFlush "io_error + writer_stats"
| RShutdown "io_error + writer_stats"

text \<open>A queued command, and whether it was there when the writer polled for it.\<close>

type_synonym command_queue = "(writer_command \<times> bool) list"

fun collect_batch :: "command_queue \<Rightarrow> pending_event list \<times> writer_command option \<times> command_queue" where
  "collect_batch ((CAppend e, True) # q) =
     (case collect_batch q of (es, deferred, rest) \<Rightarrow> (e # es, deferred, rest))"
| "collect_batch ((c, True) # q) = ([], Some c, q)"
| "collect_batch q = ([], None, q)"

lemma collect_batch_length:
  "collect_batch q = (es, deferred, rest) \<Longrightarrow>
   length rest + (case deferred of None \<Rightarrow> 0 | Some _ \<Rightarrow> 1) \<le> length q"
  by (induction q arbitrary: es deferred rest rule: collect_batch.induct) (auto split: prod.splits)

text \<open>\<open>deferred.take()\<close>, or else the next command received.\<close>

fun next_command :: "writer_command option \<Rightarrow> command_queue \<Rightarrow> (writer_command \<times> command_queue) option" where
  "next_command (Some c) queue = Some (c, queue)"
| "next_command None [] = None"
| "next_command None ((c, _) # queue) = Some (c, queue)"

definition pending_commands :: "writer_command option \<Rightarrow> command_queue \<Rightarrow> nat" where
  "pending_commands deferred queue = length queue + (case deferred of None \<Rightarrow> 0 | Some _ \<Rightarrow> 1)"

lemma next_command_pending:
  "next_command deferred queue = Some (c, q) \<Longrightarrow> length q < pending_commands deferred queue"
  by (cases "(deferred, queue)" rule: next_command.cases) (auto simp: pending_commands_def)

lemma collect_batch_pending:
  "collect_batch q = (es, deferred, rest) \<Longrightarrow> pending_commands deferred rest \<le> length q"
  using collect_batch_length[of q es deferred rest] by (simp add: pending_commands_def)

function writer_commands ::
  "('x) log_codecs_scheme \<Rightarrow> writer_env \<Rightarrow> writer_config \<Rightarrow> writer_state \<Rightarrow> writer_command option
   \<Rightarrow> command_queue \<Rightarrow> (storage_error + writer_stats) \<times> writer_reply list \<times> writer_state" where
  "writer_commands L env cfg w deferred queue =
     (case next_command deferred queue of
        None \<Rightarrow>
          (case sync_data (ws_file w) of
             (Inl err, f) \<Rightarrow> (Inl (SIo err), [], w\<lparr>ws_file := f\<rparr>)
           | (Inr _, f) \<Rightarrow> (Inr (ws_stats w), [], w\<lparr>ws_file := f\<rparr>))
      | Some (CAppend e, queue) \<Rightarrow>
          (case collect_batch queue of (others, deferred, queue) \<Rightarrow>
           (case append_batch L env cfg w (e # others) of
              (Inl err, replies, w) \<Rightarrow> (Inl err, map RAppend replies, w)
            | (Inr _, replies, w) \<Rightarrow>
              (case writer_commands L env cfg w deferred queue of
                 (final, rest, w) \<Rightarrow> (final, map RAppend replies @ rest, w))))
      | Some (CFlush, queue) \<Rightarrow>
          (case sync_data (ws_file w) of
             (Inl err, f) \<Rightarrow> (Inl (SWriter ''event flush failed''), [RFlush (Inl err)], w\<lparr>ws_file := f\<rparr>)
           | (Inr _, f) \<Rightarrow>
             (case writer_commands L env cfg (w\<lparr>ws_file := f\<rparr>) None queue of
                (final, rest, w') \<Rightarrow> (final, RFlush (Inr (ws_stats w)) # rest, w')))
      | Some (CShutdown, queue) \<Rightarrow>
          (case sync_data (ws_file w) of
             (Inl err, f) \<Rightarrow>
               (Inl (SWriter ''event shutdown flush failed''), [RShutdown (Inl err)], w\<lparr>ws_file := f\<rparr>)
           | (Inr _, f) \<Rightarrow> (Inr (ws_stats w), [RShutdown (Inr (ws_stats w))], w\<lparr>ws_file := f\<rparr>)))"
  by pat_completeness auto

termination writer_commands
proof (relation "measure (\<lambda>(_, _, _, _, deferred, queue). pending_commands deferred queue)", goal_cases)
  case 1
  show ?case by simp
qed (auto dest!: next_command_pending collect_batch_pending[OF sym] simp: pending_commands_def[of None])

declare writer_commands.simps [simp del]

text \<open>Start of \<open>writer_loop\<close>: the writer lock, the format of the file on disk, and the header of
  a new block log.\<close>

definition writer_loop ::
  "('x) log_codecs_scheme \<Rightarrow> writer_env \<Rightarrow> writer_config \<Rightarrow> bool \<Rightarrow> writer_state \<Rightarrow> command_queue
   \<Rightarrow> (storage_error + writer_stats) \<times> writer_reply list \<times> writer_state" where
  "writer_loop L env cfg lock_acquired w queue =
     (if \<not> lock_acquired then (Inl (SWriter ''another writer already owns this run''), [], w)
      else
        let existing_format = detect_event_log_format (Some (ef_contents (ws_file w))) in
        if existing_format \<noteq> None \<and> existing_format \<noteq> Some (wc_format cfg)
        then (Inl (SInvalidPolicy ''event log changed''), [], w)
        else if existing_format = None \<and> wc_format cfg = ZstdBlocks then
          let header_bytes = u64_of_usize (length EVENT_BLOCK_HEADER) in
          if header_bytes > wc_max_event_storage_bytes cfg
          then (Inl (SEventStorageBudgetExceeded (ws_storage_bytes w) header_bytes
                       (wc_max_event_storage_bytes cfg)), [], w)
          else (case write_all (ws_file w) EVENT_BLOCK_HEADER of
             (Inl err, f) \<Rightarrow> (Inl (SIo err), [], w\<lparr>ws_file := f\<rparr>)
           | (Inr _, f) \<Rightarrow> (case sync_data f of
                (Inl err, f) \<Rightarrow> (Inl (SIo err), [], w\<lparr>ws_file := f\<rparr>)
              | (Inr _, f) \<Rightarrow>
                  writer_commands L env cfg
                    (w\<lparr>ws_file := f, ws_storage_bytes := saturating_add (ws_storage_bytes w) header_bytes,
                       ws_stats := (ws_stats w)\<lparr>st_event_storage_bytes :=
                         wrapping_add (st_event_storage_bytes (ws_stats w)) header_bytes\<rparr>\<rparr>)
                    None queue))
        else writer_commands L env cfg w None queue)"

section \<open>One record\<close>

lemma write_all_ok: "write_all f bs = (Inr u, f') \<Longrightarrow>
   ef_contents f' = ef_contents f @ bs \<and> ef_synced f' = ef_synced f \<and> ef_sync_faults f' = ef_sync_faults f"
  by (auto simp: write_all_def split: list.splits option.splits)

lemma write_all_err: "write_all f bs = (Inl err, f') \<Longrightarrow>
   (\<exists>k. ef_contents f' = ef_contents f @ take (min k (length bs - 1)) bs) \<and> ef_synced f' = ef_synced f"
  by (auto simp: write_all_def split: list.splits option.splits)

lemma append_record_ok:
  assumes "append_record cfg storage pb ser f = (Inr req, f')" "length ser < U64_MAX"
    and "storage + pb \<le> U64_MAX"
  shows "req = Suc (length ser) \<and> ef_contents f' = ef_contents f @ ser @ [newline]
    \<and> storage + pb + req \<le> wc_max_event_storage_bytes cfg \<and> ef_synced f' = ef_synced f"
  using assms
  by (auto simp: append_record_def Let_def split: option.splits if_splits prod.splits sum.splits
        dest!: write_all_ok)

lemma append_record_err:
  assumes "append_record cfg storage pb ser f = (Inl err, f')" "length ser < U64_MAX"
    and "storage + pb \<le> wc_max_event_storage_bytes cfg" "wc_max_event_storage_bytes cfg \<le> U64_MAX"
    and "length (ef_contents f) = storage + pb"
  shows "\<exists>part. ef_contents f' = ef_contents f @ part \<and> prefix part ser
    \<and> length (ef_contents f') \<le> wc_max_event_storage_bytes cfg \<and> ef_synced f' = ef_synced f"
proof -
  let ?max = "wc_max_event_storage_bytes cfg"
  consider (budget) "f' = f"
    | (line) "Suc (storage + pb + length ser) \<le> ?max" "write_all f ser = (Inl (IoError Other ''write failed''), f')"
    | (newline) g where "Suc (storage + pb + length ser) \<le> ?max" "write_all f ser = (Inr (), g)"
        "write_all g [newline] = (Inl (IoError Other ''write failed''), f')"
    using assms(1-4)
    by (auto simp: append_record_def Let_def write_all_def split: option.splits if_splits prod.splits sum.splits list.splits)
  then show ?thesis
  proof cases
    case budget
    then show ?thesis using assms(3,5) by (intro exI[of _ "[]"]) simp
  next
    case line
    obtain k where k: "ef_contents f' = ef_contents f @ take (min k (length ser - 1)) ser" "ef_synced f' = ef_synced f"
      using write_all_err[OF line(2)] by blast
    then show ?thesis using line(1) assms(5)
      by (intro exI[of _ "take (min k (length ser - 1)) ser"]) (auto simp: take_is_prefix)
  next
    case newline
    then show ?thesis using assms(5) write_all_ok[OF newline(2)] write_all_err[OF newline(3)]
      by (intro exI[of _ ser]) auto
  qed
qed

section \<open>The file between two records\<close>

definition writer_image :: "('x) log_codecs_scheme \<Rightarrow> writer_config \<Rightarrow> phys list \<Rightarrow> event_file \<Rightarrow> bool" where
  "writer_image L cfg rs f \<longleftrightarrow> good_log L (wc_format cfg) (wc_encryption cfg) rs
     \<and> ef_contents f = log_image (wc_format cfg) rs
     \<and> length (ef_contents f) \<le> wc_max_event_storage_bytes cfg"

text \<open>After a failed write the file may end in an incomplete record.\<close>

definition stopped_image :: "('x) log_codecs_scheme \<Rightarrow> writer_config \<Rightarrow> phys list \<Rightarrow> event_file \<Rightarrow> bool" where
  "stopped_image L cfg rs f \<longleftrightarrow> good_log L (wc_format cfg) (wc_encryption cfg) rs
     \<and> (\<exists>part. ef_contents f = log_image (wc_format cfg) rs @ part \<and> torn (wc_format cfg) part)
     \<and> length (ef_contents f) \<le> wc_max_event_storage_bytes cfg"

lemma writer_image_stopped: "writer_image L cfg rs f \<Longrightarrow> stopped_image L cfg rs f"
  by (auto simp: writer_image_def stopped_image_def intro: exI[of _ "[]"])

lemma record_limit_u64: "record_limit fmt < U64_MAX"
  by (cases fmt) (simp_all add: record_limit_def)

lemma torn_prefix:
  assumes "log_laws L" "phys_record L fmt enc r" "prefix part (snd r)"
  shows "torn fmt part"
proof -
  have "newline \<notin> set part" "length part \<le> record_limit fmt"
    using phys_record_line[OF assms(1,2)] set_mono_prefix[OF assms(3)] prefix_length_le[OF assms(3)] by auto
  moreover have "part = [] \<or> hd part = CHR ''{''" if "fmt = Jsonl"
    using jsonl_record_brace[OF assms(1), of enc r] assms(2,3) that
    by (cases part) (auto simp: starts_with_iff phys_frame_def prefix_def)
  ultimately show ?thesis by (simp add: torn_def)
qed

lemma extend_image:
  assumes img: "writer_image L cfg rs f" and r: "phys_record L (wc_format cfg) (wc_encryption cfg) r"
    and seqs: "consecutive (Suc (length (log_events rs))) (fst r)"
    and bound: "length (log_events rs) + length (fst r) \<le> U64_MAX"
    and max: "wc_max_event_storage_bytes cfg \<le> U64_MAX"
    and pb: "storage + pb = length (log_image (wc_format cfg) rs)"
    and app: "append_record cfg storage pb (snd r) f = (Inr req, f')"
  shows "writer_image L cfg (rs @ [r]) f'" "saturating_add pb req = pb + req"
    "storage + (pb + req) = length (log_image (wc_format cfg) (rs @ [r]))" "ef_synced f' = ef_synced f"
proof -
  have laws: "log_laws L" using img by (simp add: writer_image_def good_log_def)
  have "length (snd r) < U64_MAX" using phys_record_line[OF laws r] record_limit_u64[of "wc_format cfg"] by linarith
  moreover have "storage + pb \<le> U64_MAX" using img pb by (simp add: writer_image_def good_log_def)
  ultimately have ok: "req = Suc (length (snd r)) \<and> ef_contents f' = ef_contents f @ snd r @ [newline]
    \<and> storage + pb + req \<le> wc_max_event_storage_bytes cfg \<and> ef_synced f' = ef_synced f"
    by (rule append_record_ok[OF app])
  show "ef_synced f' = ef_synced f" using ok by simp
  show "saturating_add pb req = pb + req" using ok max by simp
  show "storage + (pb + req) = length (log_image (wc_format cfg) (rs @ [r]))"
    using ok pb by (simp add: phys_frame_def)
  show "writer_image L cfg (rs @ [r]) f'"
    using img ok r seqs bound max pb by (simp add: writer_image_def good_log_def phys_frame_def)
qed

lemma stop_image:
  assumes img: "writer_image L cfg rs f" and r: "phys_record L (wc_format cfg) (wc_encryption cfg) r"
    and max: "wc_max_event_storage_bytes cfg \<le> U64_MAX"
    and pb: "storage + pb = length (log_image (wc_format cfg) rs)"
    and app: "append_record cfg storage pb (snd r) f = (Inl err, f')"
  shows "stopped_image L cfg rs f'" "ef_synced f' = ef_synced f"
proof -
  have laws: "log_laws L" using img by (simp add: writer_image_def good_log_def)
  have "length (snd r) < U64_MAX" using phys_record_line[OF laws r] record_limit_u64[of "wc_format cfg"] by linarith
  then obtain part where part: "ef_contents f' = ef_contents f @ part" "prefix part (snd r)"
    "length (ef_contents f') \<le> wc_max_event_storage_bytes cfg" "ef_synced f' = ef_synced f"
    using append_record_err[OF app _ _ max] img pb by (auto simp: writer_image_def)
  show "ef_synced f' = ef_synced f" by (rule part(4))
  show "stopped_image L cfg rs f'"
    using part torn_prefix[OF laws r part(2)] img by (auto simp: stopped_image_def writer_image_def)
qed

section \<open>The append loops\<close>

text \<open>What both append functions guarantee: a number of envelopes from the front are in complete
  records, the counters agree with the file, and without a failure all of them are.\<close>

definition appended ::
  "('x) log_codecs_scheme \<Rightarrow> writer_config \<Rightarrow> nat \<Rightarrow> phys list \<Rightarrow> event_envelope list \<Rightarrow> nat
   \<Rightarrow> event_file \<Rightarrow> append_result \<times> event_file \<Rightarrow> bool" where
  "appended L cfg storage rs es persisted f = (\<lambda>((p', pb', failure), f').
     \<exists>rs'. persisted \<le> p' \<and> p' \<le> persisted + length es
       \<and> log_events rs' = take (p' - persisted) es
       \<and> stopped_image L cfg (rs @ rs') f'
       \<and> storage + pb' = length (log_image (wc_format cfg) (rs @ rs'))
       \<and> ef_synced f' = ef_synced f
       \<and> (failure = None \<longrightarrow> p' = persisted + length es \<and> writer_image L cfg (rs @ rs') f'))"

lemma appended_stop:
  "stopped_image L cfg rs f' \<Longrightarrow> storage + pb = length (log_image (wc_format cfg) rs) \<Longrightarrow>
   ef_synced f' = ef_synced f \<Longrightarrow> appended L cfg storage rs es p f ((p, pb, Some err), f')"
  by (auto simp: appended_def intro!: exI[of _ "[]"])

lemma appended_done:
  "writer_image L cfg rs f \<Longrightarrow> storage + pb = length (log_image (wc_format cfg) rs) \<Longrightarrow>
   appended L cfg storage rs [] p f ((p, pb, None), f)"
  by (auto simp: appended_def writer_image_stopped intro!: exI[of _ "[]"])

lemma appended_step:
  assumes "appended L cfg storage (rs @ [r]) (drop (length (fst r)) es) (p + length (fst r)) f1 res"
    and "fst r = take (length (fst r)) es" "ef_synced f1 = ef_synced f" "length (fst r) \<le> length es"
  shows "appended L cfg storage rs es p f res"
proof -
  obtain p' pb' failure f' where res: "res = ((p', pb', failure), f')" by (metis prod.collapse)
  let ?n = "length (fst r)"
  obtain rs' where rs': "p + ?n \<le> p'" "p' \<le> p + ?n + length (drop ?n es)"
      "log_events rs' = take (p' - (p + ?n)) (drop ?n es)" "stopped_image L cfg ((rs @ [r]) @ rs') f'"
      "storage + pb' = length (log_image (wc_format cfg) ((rs @ [r]) @ rs'))" "ef_synced f' = ef_synced f1"
      "failure = None \<longrightarrow> p' = p + ?n + length (drop ?n es) \<and> writer_image L cfg ((rs @ [r]) @ rs') f'"
    using assms(1) by (auto simp: appended_def res)
  have "take (p' - p) es = fst r @ log_events rs'"
  proof -
    have "p' - p = ?n + (p' - (p + ?n))" using rs'(1) by simp
    then have "take (p' - p) es = take ?n es @ take (p' - (p + ?n)) (drop ?n es)"
      by (simp only: take_add)
    then show ?thesis using assms(2) rs'(3) by simp
  qed
  then show ?thesis
    unfolding appended_def res using rs' assms(3,4)
    by (auto intro!: exI[of _ "r # rs'"])
qed

lemma append_jsonl_appended:
  assumes "\<forall>n. length (we_nonce env n) = 24" "wc_format cfg = Jsonl"
    and "wc_max_event_storage_bytes cfg \<le> U64_MAX" "writer_image L cfg rs f"
    and "storage + pb = length (log_image (wc_format cfg) rs)"
    and "consecutive (Suc (length (log_events rs))) es"
    and "length (log_events rs) + length es \<le> U64_MAX" "p + length es \<le> U64_MAX"
  shows "appended L cfg storage rs es p f (append_jsonl_loop L env cfg storage es p pb f)"
  using assms(4-)
proof (induction es arbitrary: rs p pb f)
  case Nil
  then show ?case by (simp add: appended_done)
next
  case (Cons e es)
  let ?loop = "append_jsonl_loop L env cfg storage (e # es) p pb f"
  show ?case
  proof (cases "encode_envelope L (we_nonce env (sequence e)) e (wc_encryption cfg)")
    case (Inl err)
    then have "?loop = ((p, pb, Some err), f)" by simp
    then show ?thesis
      using appended_stop[OF writer_image_stopped[OF Cons.prems(1)] Cons.prems(2) refl] by metis
  next
    case (Inr ser)
    let ?r = "([e], ser)"
    have r: "phys_record L (wc_format cfg) (wc_encryption cfg) ?r"
      using Inr assms(1,2) by (auto simp: phys_record_def)
    obtain res f1 where app: "append_record cfg storage pb (snd ?r) f = (res, f1)" by fastforce
    show ?thesis
    proof (cases res)
      case err: (Inl err)
      then have "?loop = ((p, pb, Some err), f1)" using Inr app by simp
      then show ?thesis
        using appended_stop[OF stop_image(1)[OF Cons.prems(1) r assms(3) Cons.prems(2)] Cons.prems(2)
            stop_image(2)[OF Cons.prems(1) r assms(3) Cons.prems(2)]] app err by metis
    next
      case req: (Inr req)
      have next_seq: "consecutive (Suc (length (log_events rs))) (fst ?r)"
          "length (log_events rs) + length (fst ?r) \<le> U64_MAX"
        using Cons.prems(3,4) by simp_all
      note ext = extend_image[OF Cons.prems(1) r next_seq assms(3) Cons.prems(2) app[unfolded req]]
      have "appended L cfg storage (rs @ [?r]) es (p + 1) f1 (append_jsonl_loop L env cfg storage es (p + 1) (pb + req) f1)"
        by (rule Cons.IH[OF ext(1) ext(3)]) (use Cons.prems in simp_all)
      then have step: "appended L cfg storage (rs @ [?r]) (drop (length (fst ?r)) (e # es)) (p + length (fst ?r)) f1
          (append_jsonl_loop L env cfg storage es (p + 1) (pb + req) f1)" by simp
      have "appended L cfg storage rs (e # es) p f (append_jsonl_loop L env cfg storage es (p + 1) (pb + req) f1)"
        by (rule appended_step[OF step _ ext(4)]) simp_all
      moreover have "?loop = append_jsonl_loop L env cfg storage es (p + 1) (pb + req) f1"
        using Inr app req ext(2) Cons.prems(5) by simp
      ultimately show ?thesis by simp
    qed
  qed
qed

lemma fill_block_lines:
  assumes "fill_block L es pt taken = Inr (pt', taken')"
  shows "\<exists>k ms. taken' = taken + k \<and> k \<le> length es \<and> plain_lines L (take k es) ms \<and> pt' = pt @ lines_of ms"
  using assms
proof (induction es arbitrary: pt taken)
  case Nil
  then show ?case by (auto simp: plain_lines_def intro!: exI[of _ "[]"])
next
  case (Cons e es)
  have stop: "\<exists>k ms. taken = taken + k \<and> k \<le> length (e # es) \<and> plain_lines L (take k (e # es)) ms \<and> pt = pt @ lines_of ms"
    by (intro exI[of _ 0] exI[of _ "[]"]) (simp add: plain_lines_def)
  consider "pt' = pt" "taken' = taken"
    | m where "encode_plaintext_envelope L e = Inr m" "fill_block L es (pt @ m @ [newline]) (Suc taken) = Inr (pt', taken')"
    using Cons.prems by (auto simp: and_then_eq_Inr Let_def split: if_splits)
  then show ?case
  proof cases
    case 1
    then show ?thesis using stop by blast
  next
    case (2 m)
    obtain k ms where "taken' = Suc taken + k" "k \<le> length es" "plain_lines L (take k es) ms"
        "pt' = (pt @ m @ [newline]) @ lines_of ms"
      using Cons.IH[OF 2(2)] by blast
    then show ?thesis using 2(1)
      by (intro exI[of _ "Suc k"] exI[of _ "m # ms"]) (simp add: plain_lines_def)
  qed
qed

lemma consecutive_take: "consecutive n es \<Longrightarrow> consecutive n (take k es)"
  by (metis append_take_drop_id consecutive_append)

lemma consecutive_drop: "consecutive n es \<Longrightarrow> k \<le> length es \<Longrightarrow> consecutive (n + k) (drop k es)"
  using consecutive_append[of n "take k es" "drop k es"] by simp

lemma append_zstd_appended:
  assumes "\<forall>n. length (we_nonce env n) = 24" "wc_format cfg = ZstdBlocks"
    and "wc_max_event_storage_bytes cfg \<le> U64_MAX" "writer_image L cfg rs f"
    and "storage + pb = length (log_image (wc_format cfg) rs)"
    and "consecutive (Suc (length (log_events rs))) es"
    and "length (log_events rs) + length es \<le> U64_MAX" "\<forall>e\<in>set es. run_id e = rid"
  shows "appended L cfg storage rs es p f (append_zstd_loop L env cfg storage es p pb f)"
  using assms(4-)
proof (induction "length es" arbitrary: es rs p pb f rule: less_induct)
  case less
  let ?loop = "append_zstd_loop L env cfg storage es p pb f"
  note unfold = append_zstd_loop.simps[of L env cfg storage es p pb f]
  show ?case
  proof (cases "es = []")
    case True
    then show ?thesis using appended_done[OF less.prems(1,2)] unfold by simp
  next
    case False
    note unfold = unfold[unfolded if_not_P[OF False]]
    show ?thesis
    proof (cases "fill_block L es [] 0")
      case (Inl err)
      then have "?loop = ((p, pb, Some err), f)" using unfold by simp
      then show ?thesis
        using appended_stop[OF writer_image_stopped[OF less.prems(1)] less.prems(2) refl] by metis
    next
      case (Inr filled)
      obtain pt n where filled: "filled = (pt, n)" by fastforce
      obtain ms where n: "n \<le> length es" "plain_lines L (take n es) ms" "pt = lines_of ms"
        using fill_block_lines[of L es "[]" 0 pt n] Inr filled by auto
      let ?nonce = "we_nonce env (sequence (hd es))"
      have hd: "sequence (hd es) = Suc (length (log_events rs))" "run_id (hd es) = rid"
        using less.prems(3,5) False by (cases es; simp)+
      show ?thesis
      proof (cases "encode_event_block L ?nonce pt (run_id (hd es)) (sequence (hd es)) n (wc_encryption cfg)")
        case err: (Inl err)
        then have "?loop = ((p, pb, Some err), f)" using unfold Inr filled by simp
        then show ?thesis
          using appended_stop[OF writer_image_stopped[OF less.prems(1)] less.prems(2) refl] by metis
      next
        case ser: (Inr ser)
        let ?r = "(take n es, ser)"
        have n0: "0 < n" using ser by (rule encode_event_block_count)
        have seqs: "consecutive (Suc (length (log_events rs))) (fst ?r)"
          using consecutive_take[OF less.prems(3)] by simp
        have bound: "length (log_events rs) + length (fst ?r) \<le> U64_MAX" using less.prems(4) n(1) by simp
        have runs: "\<forall>e\<in>set (take n es). run_id e = rid" using less.prems(5) by (auto dest: in_set_takeD)
        have r: "phys_record L (wc_format cfg) (wc_encryption cfg) ?r"
          unfolding phys_record_def assms(2) event_log_format.case fst_conv snd_conv
          by (intro exI[of _ ?nonce] exI[of _ ms] exI[of _ "Suc (length (log_events rs))"] exI[of _ rid] conjI)
            (use ser assms(1) n seqs hd less.prems(4) runs in \<open>simp_all add: min_def\<close>)
        obtain res f1 where app: "append_record cfg storage pb (snd ?r) f = (res, f1)" by fastforce
        show ?thesis
        proof (cases res)
          case err: (Inl err)
          then have "?loop = ((p, pb, Some err), f1)" using unfold Inr filled ser app by simp
          then show ?thesis
            using appended_stop[OF stop_image(1)[OF less.prems(1) r assms(3) less.prems(2)] less.prems(2)
                stop_image(2)[OF less.prems(1) r assms(3) less.prems(2)]] app err by metis
        next
          case req: (Inr req)
          note ext = extend_image[OF less.prems(1) r seqs bound assms(3) less.prems(2) app[unfolded req]]
          have "appended L cfg storage (rs @ [?r]) (drop n es) (p + n) f1
              (append_zstd_loop L env cfg storage (drop n es) (p + n) (pb + req) f1)"
          proof (rule less.hyps[OF _ ext(1) ext(3)])
            show "length (drop n es) < length es" using n0 False by simp
            show "consecutive (Suc (length (log_events (rs @ [?r])))) (drop n es)"
              using consecutive_drop[OF less.prems(3) n(1)] n(1) by (simp add: min_def)
            show "length (log_events (rs @ [?r])) + length (drop n es) \<le> U64_MAX"
              using less.prems(4) n(1) by (simp add: min_def)
            show "\<forall>e\<in>set (drop n es). run_id e = rid" using less.prems(5) by (auto dest: in_set_dropD)
          qed
          then have step: "appended L cfg storage (rs @ [?r]) (drop (length (fst ?r)) es) (p + length (fst ?r)) f1
              (append_zstd_loop L env cfg storage (drop n es) (p + n) (pb + req) f1)"
            using n(1) by (simp add: min_absorb2)
          have "appended L cfg storage rs es p f (append_zstd_loop L env cfg storage (drop n es) (p + n) (pb + req) f1)"
            by (rule appended_step[OF step _ ext(4)]) (simp_all add: n(1))
          moreover have "?loop = append_zstd_loop L env cfg storage (drop n es) (p + n) (pb + req) f1"
            using unfold Inr filled ser app req ext(2) by simp
          ultimately show ?thesis by simp
        qed
      qed
    qed
  qed
qed

section \<open>Batches\<close>

text \<open>The envelopes of a list of pending events numbered from \<open>n\<close>.\<close>

fun number_events :: "writer_env \<Rightarrow> nat \<Rightarrow> pending_event list \<Rightarrow> event_envelope list" where
  "number_events env n [] = []"
| "number_events env n (p # ps) = from_pending (we_uuid env n) n p # number_events env (Suc n) ps"

lemma number_events_simps [simp]:
  "length (number_events env n ps) = length ps" "consecutive n (number_events env n ps)"
  "map sequence (number_events env n ps) = [n..<n + length ps]"
  "number_events env n (ps @ qs) = number_events env n ps @ number_events env (n + length ps) qs"
  by (induction ps arbitrary: n) (simp_all add: upt_conv_Cons del: upt_Suc)

lemma number_events_run:
  "e \<in> set (number_events env n ps) \<Longrightarrow> \<exists>p\<in>set ps. run_id e = pe_run_id p"
  by (induction ps arbitrary: n) auto

lemma prepare_batch_eq:
  "prepare_batch env seq offset ps = Inr es \<longleftrightarrow>
     es = number_events env (seq + offset) ps \<and> (ps = [] \<or> seq + offset + length ps \<le> Suc U64_MAX)"
proof (induction ps arbitrary: offset es)
  case (Cons p ps)
  show ?case by (cases "ps = []") (auto simp: and_then_eq_Inr Cons)
qed auto

definition writer_inv :: "('x) log_codecs_scheme \<Rightarrow> writer_config \<Rightarrow> phys list \<Rightarrow> writer_state \<Rightarrow> bool" where
  "writer_inv L cfg rs w \<longleftrightarrow> writer_image L cfg rs (ws_file w)
     \<and> ws_sequence w = Suc (length (log_events rs)) \<and> ws_sequence w \<le> U64_MAX
     \<and> ws_storage_bytes w = length (log_image (wc_format cfg) rs)
     \<and> ef_synced (ws_file w) = length (ef_contents (ws_file w))
     \<and> wc_max_event_storage_bytes cfg \<le> U64_MAX"

text \<open>The envelopes \<open>es\<close> are in complete records within the synced part of the file, and the file
  holds no event that is not in \<open>submitted\<close>, in its order.\<close>

definition durable ::
  "('x) log_codecs_scheme \<Rightarrow> writer_config \<Rightarrow> event_envelope list \<Rightarrow> event_envelope list \<Rightarrow> event_file \<Rightarrow> bool" where
  "durable L cfg submitted es f \<longleftrightarrow> (\<exists>rs m. stopped_image L cfg rs f \<and> m \<le> length rs
     \<and> prefix (log_events rs) submitted
     \<and> length (log_image (wc_format cfg) (take m rs)) \<le> ef_synced f
     \<and> log_events (take m rs) = es)"

lemma durable_mono: "durable L cfg es acked f \<Longrightarrow> prefix es es' \<Longrightarrow> durable L cfg es' acked f"
  unfolding durable_def using prefix_order.trans by blast

fun acknowledged :: "(storage_error + nat) list \<Rightarrow> nat list" where
  "acknowledged [] = []"
| "acknowledged (Inr n # rs) = n # acknowledged rs"
| "acknowledged (Inl _ # rs) = acknowledged rs"

lemma acknowledged_append [simp]: "acknowledged (xs @ ys) = acknowledged xs @ acknowledged ys"
  by (induction xs rule: acknowledged.induct) simp_all

lemma acknowledged_errors [simp]: "acknowledged (map (\<lambda>_. Inl e) zs) = []"
  by (induction zs) simp_all

lemma acknowledged_sequences [simp]: "acknowledged (map (\<lambda>e. Inr (f e)) us) = map f us"
  by (induction us) simp_all

text \<open>Answers to a series of appends: sequence numbers from \<open>s\<close> to the first \<open>j\<close>, then only refusals.\<close>

definition answered :: "nat \<Rightarrow> nat \<Rightarrow> (storage_error + nat) list \<Rightarrow> bool" where
  "answered s j replies \<longleftrightarrow> (\<exists>refused. replies = map Inr [s..<s + j] @ map Inl refused)"

lemma acknowledged_map [simp]: "acknowledged (map Inr ns) = ns" "acknowledged (map Inl errs) = []"
  by (induction ns, simp_all) (induction errs, simp_all)

lemma answered_acknowledged: "answered s j replies \<Longrightarrow> acknowledged replies = [s..<s + j]"
  by (auto simp: answered_def)

lemma answered_none [simp]: "answered s 0 []" "answered s 0 (map (\<lambda>_. Inl err) xs)"
  unfolding answered_def by (auto intro: exI[of _ "map (\<lambda>_. err) xs"])

lemma answered_append:
  assumes "answered s j replies" "length replies \<le> j" "answered (s + j) j' replies'"
  shows "answered s (j + j') (replies @ replies')"
proof -
  have "replies = map Inr [s..<s + j]" using assms(1,2) by (auto simp: answered_def)
  moreover have "[s..<s + (j + j')] = [s..<s + j] @ [s + j..<s + j + j']"
    using upt_add_eq_append[of s "s + j" j'] by (simp add: add.assoc)
  ultimately show ?thesis using assms(3) by (auto simp: answered_def)
qed

lemma answered_partial:
  assumes "map sequence es = [s..<s + length es]" "p \<le> length es"
  shows "answered s p (map (\<lambda>e. Inr (sequence e)) (take p es) @ map (\<lambda>_. Inl err) (drop p es))"
proof -
  have "map (\<lambda>e. Inr (sequence e)) (take p es) = map Inr (take p (map sequence es))"
    by (simp add: take_map)
  then show ?thesis
    using assms by (auto simp: answered_def take_upt intro!: exI[of _ "map (\<lambda>_. err) (drop p es)"])
qed

lemma sync_data_cases:
  assumes "sync_data f = (res, f')"
  obtains (failed) err where "res = Inl err" "ef_contents f' = ef_contents f" "ef_synced f' = ef_synced f"
    | (synced) "res = Inr ()" "ef_contents f' = ef_contents f" "ef_synced f' = length (ef_contents f)"
  using assms by (auto simp: sync_data_def split: list.splits bool.splits)

lemma stopped_image_contents:
  "ef_contents f' = ef_contents f \<Longrightarrow> stopped_image L cfg rs f' = stopped_image L cfg rs f"
  "ef_contents f' = ef_contents f \<Longrightarrow> writer_image L cfg rs f' = writer_image L cfg rs f"
  by (simp_all add: stopped_image_def writer_image_def)

lemma stopped_image_length: "stopped_image L cfg rs f \<Longrightarrow> length (log_image (wc_format cfg) rs) \<le> length (ef_contents f)"
  by (auto simp: stopped_image_def)

lemma append_records_appended:
  assumes "writer_inv L cfg rs w" "\<forall>n. length (we_nonce env n) = 24"
    and "\<forall>p\<in>set batch. pe_run_id p = rid"
    and "batch = [] \<or> ws_sequence w + length batch \<le> Suc U64_MAX"
  shows "appended L cfg (ws_storage_bytes w) rs (number_events env (ws_sequence w) batch) 0 (ws_file w)
     (case wc_format cfg of
        Jsonl \<Rightarrow> append_jsonl_records L env cfg (ws_file w) (number_events env (ws_sequence w) batch) (ws_storage_bytes w)
      | ZstdBlocks \<Rightarrow> append_zstd_blocks L env cfg (ws_file w) (number_events env (ws_sequence w) batch) (ws_storage_bytes w))"
proof -
  let ?es = "number_events env (ws_sequence w) batch"
  have inv: "writer_image L cfg rs (ws_file w)" "ws_storage_bytes w + 0 = length (log_image (wc_format cfg) rs)"
      "wc_max_event_storage_bytes cfg \<le> U64_MAX" "consecutive (Suc (length (log_events rs))) ?es"
      "length (log_events rs) + length ?es \<le> U64_MAX" "0 + length ?es \<le> U64_MAX"
    using assms(1,4) by (auto simp: writer_inv_def)
  have runs: "\<forall>e\<in>set ?es. run_id e = rid" using assms(3) number_events_run by fastforce
  show ?thesis
  proof (cases "wc_format cfg")
    case Jsonl
    show ?thesis
      using append_jsonl_appended[OF assms(2) Jsonl inv(3) inv(1) inv(2) inv(4-6)]
      by (simp add: Jsonl append_jsonl_records_def)
  next
    case ZstdBlocks
    show ?thesis
      using append_zstd_appended[OF assms(2) ZstdBlocks inv(3) inv(1) inv(2) inv(4,5) runs]
      by (simp add: ZstdBlocks append_zstd_blocks_def)
  qed
qed

lemma good_log_no_events:
  "good_log L (wc_format cfg) (wc_encryption cfg) (rs @ rs') \<Longrightarrow> log_events rs' = [] \<Longrightarrow> rs' = []"
  using phys_record_line[of L "wc_format cfg" "wc_encryption cfg" "hd rs'"]
  by (cases rs') (auto simp: good_log_def)

text \<open>What one batch does.\<close>

lemma append_batch_spec:
  assumes inv: "writer_inv L cfg rs w" and nonces: "\<forall>n. length (we_nonce env n) = 24"
    and runs: "\<forall>p\<in>set batch. pe_run_id p = rid"
    and app: "append_batch L env cfg w batch = (result, replies, w')"
  obtains j where "j \<le> length batch" "answered (ws_sequence w) j replies" "length replies \<le> length batch"
    "durable L cfg (log_events rs @ number_events env (ws_sequence w) batch)
       (log_events rs @ take j (number_events env (ws_sequence w) batch)) (ws_file w')"
    "result = Inr () \<Longrightarrow> j = length batch \<and> (\<exists>rs'. log_events rs' = number_events env (ws_sequence w) batch
        \<and> writer_inv L cfg (rs @ rs') w')"
proof (cases "prepare_batch env (ws_sequence w) 0 batch")
  case (Inl err)
  then have "w' = w" "replies = []" "result = Inl err" using app by (simp_all add: append_batch_def)
  moreover have "durable L cfg (log_events rs @ number_events env (ws_sequence w) batch) (log_events rs) (ws_file w)"
    unfolding durable_def using inv
    by (intro exI[of _ rs] exI[of _ "length rs"])
      (auto simp: writer_inv_def writer_image_stopped intro: stopped_image_length writer_image_stopped)
  ultimately show thesis using that[of 0] by simp
next
  case (Inr es)
  let ?es = "number_events env (ws_sequence w) batch"
  have es: "es = ?es" and fits: "batch = [] \<or> ws_sequence w + length batch \<le> Suc U64_MAX"
    using Inr by (simp_all add: prepare_batch_eq)
  obtain p pb failure f where loop: "(case wc_format cfg of
        Jsonl \<Rightarrow> append_jsonl_records L env cfg (ws_file w) ?es (ws_storage_bytes w)
      | ZstdBlocks \<Rightarrow> append_zstd_blocks L env cfg (ws_file w) ?es (ws_storage_bytes w)) = ((p, pb, failure), f)"
    by (metis prod.collapse)
  obtain rs' where rs': "p \<le> length batch" "log_events rs' = take p ?es" "stopped_image L cfg (rs @ rs') f"
      "ws_storage_bytes w + pb = length (log_image (wc_format cfg) (rs @ rs'))" "ef_synced f = ef_synced (ws_file w)"
      "failure = None \<longrightarrow> p = length batch \<and> writer_image L cfg (rs @ rs') f"
    using append_records_appended[OF inv nonces runs fits] unfolding loop by (auto simp: appended_def)
  have old: "length (log_image (wc_format cfg) rs) \<le> ef_synced f"
    using inv rs'(5) by (auto simp: writer_inv_def writer_image_def)
  have pre: "prefix (log_events (rs @ rs')) (log_events rs @ ?es)" using rs'(2) by (simp add: take_is_prefix)
  have none: "durable L cfg (log_events rs @ ?es) (log_events rs) g" if "ef_contents g = ef_contents f" "ef_synced f \<le> ef_synced g" for g
    unfolding durable_def using rs'(3) old pre that stopped_image_contents(1)[OF that(1)]
    by (intro exI[of _ "rs @ rs'"] exI[of _ "length rs"]) auto
  obtain synced g where sync: "(if p > 0 then sync_data f else (Inr (), f)) = (synced, g)" by fastforce
  have "ef_synced f \<le> length (ef_contents f)"
    using inv rs'(5) stopped_image_length[OF rs'(3)] by (auto simp: writer_inv_def writer_image_def)
  then have g: "ef_contents g = ef_contents f \<and> ef_synced f \<le> ef_synced g"
    using sync by (cases "p > 0") (auto elim!: sync_data_cases)
  show thesis
  proof (cases synced)
    case failed: (Inl err)
    then have "w' = w\<lparr>ws_file := g\<rparr>" "answered (ws_sequence w) 0 replies" "length replies \<le> length batch"
        "result = Inl batch_stopped"
      using app Inr es loop sync by (auto simp: append_batch_def)
    then show thesis using that[of 0] none[of g] g by simp
  next
    case ok: (Inr u)
    show thesis
    proof (cases "checked_add (ws_sequence w) p")
      case None
      then have "w' = w\<lparr>ws_file := g\<rparr>" "replies = []" "is_ok result = False"
        using app Inr es loop sync ok by (auto simp: append_batch_def)
      then show thesis using that[of 0] none[of g] g by (cases result) simp_all
    next
      case (Some nxt)
      have w': "ws_file w' = g" "ws_sequence w' = nxt"
          "ws_storage_bytes w' = saturating_add (ws_storage_bytes w) pb"
          "answered (ws_sequence w) p replies" "length replies \<le> length batch" "result = (case failure of None \<Rightarrow> Inr () | Some _ \<Rightarrow> Inl batch_stopped)"
        using app Inr es loop sync ok Some rs'(1) answered_partial[of ?es "ws_sequence w" p]
        by (auto simp: append_batch_def Let_def)
      have nxt: "nxt = ws_sequence w + p" "nxt \<le> U64_MAX" using Some by simp_all
      have all: "ef_synced g = length (ef_contents g)" if "p > 0"
        using sync ok that by (auto elim!: sync_data_cases)
      have empty: "rs' = []" if "p = 0"
        using good_log_no_events[of L cfg rs rs'] rs'(2,3) that by (auto simp: stopped_image_def)
      have dur: "durable L cfg (log_events rs @ ?es) (log_events rs @ take p ?es) g"
      proof (cases "p > 0")
        case True
        have "length (log_image (wc_format cfg) (rs @ rs')) \<le> ef_synced g"
          using all[OF True] stopped_image_length[OF rs'(3)] g by simp
        then show ?thesis
          unfolding durable_def using rs'(2,3) g pre
          by (intro exI[of _ "rs @ rs'"] exI[of _ "length (rs @ rs')"])
            (simp add: stopped_image_contents(1)[of g f])
      next
        case False
        then show ?thesis using none[of g] g by simp
      qed
      have "writer_inv L cfg (rs @ rs') w'" if "failure = None"
      proof -
        have img: "writer_image L cfg (rs @ rs') g" "p = length batch"
          using rs'(6) that g by (simp_all add: stopped_image_contents(2)[of g f])
        have "length (log_image (wc_format cfg) (rs @ rs')) \<le> U64_MAX"
          using img(1) by (simp add: writer_image_def good_log_def)
        moreover have "ef_synced g = length (ef_contents g)"
          using all empty inv img(1) rs'(5) sync ok
          by (cases "p > 0") (auto simp: writer_inv_def writer_image_def)
        ultimately show ?thesis
          using img w' nxt rs'(2,4) inv by (simp add: writer_inv_def)
      qed
      then show thesis
        using that[of p] dur w'(1,4-6) rs'(1,2,6) by (cases failure) auto
    qed
  qed
qed

section \<open>Runs of the writer\<close>

text \<open>The events a queue still holds, and the answers to appends among the replies.\<close>

definition command_event :: "writer_command \<Rightarrow> pending_event list" where
  "command_event c = (case c of CAppend e \<Rightarrow> [e] | _ \<Rightarrow> [])"

definition queue_events :: "writer_command option \<Rightarrow> command_queue \<Rightarrow> pending_event list" where
  "queue_events deferred queue =
     (case deferred of None \<Rightarrow> [] | Some c \<Rightarrow> command_event c) @ concat (map (\<lambda>(c, _). command_event c) queue)"

definition queue_commands :: "writer_command option \<Rightarrow> command_queue \<Rightarrow> writer_command list" where
  "queue_commands deferred queue = (case deferred of None \<Rightarrow> [] | Some c \<Rightarrow> [c]) @ map fst queue"

fun append_replies :: "writer_reply list \<Rightarrow> (storage_error + nat) list" where
  "append_replies [] = []"
| "append_replies (RAppend r # rs) = r # append_replies rs"
| "append_replies (_ # rs) = append_replies rs"

lemma append_replies_append [simp]: "append_replies (xs @ ys) = append_replies xs @ append_replies ys"
  by (induction xs rule: append_replies.induct) simp_all

lemma append_replies_map [simp]: "append_replies (map RAppend rs) = rs"
  by (induction rs) simp_all

lemma queue_events_simps [simp]:
  "queue_events None [] = []"
  "queue_events (Some c) queue = command_event c @ queue_events None queue"
  "queue_events None ((c, waiting) # queue) = command_event c @ queue_events None queue"
  "command_event (CAppend e) = [e]" "command_event CFlush = []" "command_event CShutdown = []"
  by (simp_all add: queue_events_def command_event_def)

lemma collect_batch_events:
  "collect_batch q = (es, deferred, rest) \<Longrightarrow> queue_events None q = es @ queue_events deferred rest"
  by (induction q arbitrary: es deferred rest rule: collect_batch.induct) (auto split: prod.splits)

lemma queue_commands_simps [simp]:
  "queue_commands None [] = []" "queue_commands (Some c) queue = c # queue_commands None queue"
  "queue_commands None ((c, waiting) # queue) = c # queue_commands None queue"
  by (simp_all add: queue_commands_def)

lemma queue_commands_events: "queue_commands None q = [] \<Longrightarrow> queue_events None q = []"
  by (simp add: queue_commands_def)

lemma collect_batch_commands:
  "collect_batch q = (es, deferred, rest) \<Longrightarrow> queue_commands None q = map CAppend es @ queue_commands deferred rest"
  by (induction q arbitrary: es deferred rest rule: collect_batch.induct) (auto split: prod.splits)

lemma next_command_commands:
  "next_command deferred queue = Some (c, q) \<Longrightarrow> queue_commands deferred queue = c # queue_commands None q"
  by (cases "(deferred, queue)" rule: next_command.cases) auto

text \<open>The writer ended without an error, and was not asked to while commands were still waiting.\<close>

definition served_all :: "storage_error + writer_stats \<Rightarrow> writer_command list \<Rightarrow> bool" where
  "served_all final commands \<longleftrightarrow> is_ok final \<and> CShutdown \<notin> set (butlast commands)"

lemma served_all_rest: "served_all final (cs @ cs') \<Longrightarrow> served_all final cs'"
  by (cases "cs' = []") (auto simp: served_all_def butlast_append)

lemma next_command_events:
  "next_command deferred queue = Some (c, q) \<Longrightarrow> queue_events deferred queue = command_event c @ queue_events None q"
  by (cases "(deferred, queue)" rule: next_command.cases) auto

lemma writer_inv_durable:
  "writer_inv L cfg rs w \<Longrightarrow> ef_contents f = ef_contents (ws_file w) \<Longrightarrow> ef_synced (ws_file w) \<le> ef_synced f \<Longrightarrow>
   durable L cfg (log_events rs @ es) (log_events rs) f"
  unfolding durable_def writer_inv_def
  by (intro exI[of _ rs] exI[of _ "length rs"]) (auto simp: writer_image_def stopped_image_def intro: exI[of _ "[]"])

lemma sync_data_inv:
  assumes "writer_inv L cfg rs w" "sync_data (ws_file w) = (res, f)"
  shows "durable L cfg (log_events rs @ es) (log_events rs) f" "writer_inv L cfg rs (w\<lparr>ws_file := f\<rparr>)"
proof -
  have f: "ef_contents f = ef_contents (ws_file w)" "ef_synced f = ef_synced (ws_file w)"
    using assms by (auto simp: writer_inv_def elim!: sync_data_cases)
  show "durable L cfg (log_events rs @ es) (log_events rs) f" using writer_inv_durable[OF assms(1) f(1)] f(2) by simp
  show "writer_inv L cfg rs (w\<lparr>ws_file := f\<rparr>)"
    using assms(1) f by (simp add: writer_inv_def stopped_image_contents(2)[of f "ws_file w"])
qed

lemma writer_commands_spec:
  assumes "writer_inv L cfg rs w" "\<forall>n. length (we_nonce env n) = 24"
    and "\<forall>p\<in>set (queue_events deferred queue). pe_run_id p = rid"
    and "writer_commands L env cfg w deferred queue = (final, replies, w')"
  shows "\<exists>j. answered (ws_sequence w) j (append_replies replies)
     \<and> length (append_replies replies) \<le> length (queue_events deferred queue)
     \<and> (served_all final (queue_commands deferred queue) \<longrightarrow> j = length (queue_events deferred queue))
     \<and> durable L cfg (log_events rs @ number_events env (ws_sequence w) (queue_events deferred queue))
          (log_events rs @ take j (number_events env (ws_sequence w) (queue_events deferred queue))) (ws_file w')"
  using assms
proof (induction "pending_commands deferred queue" arbitrary: deferred queue rs w replies rule: less_induct)
  case less
  note unfold = less.prems(4)[unfolded writer_commands.simps[of L env cfg w deferred queue]]
  show ?case
  proof (cases "next_command deferred queue")
    case None
    then have "queue_events deferred queue = []" by (cases "(deferred, queue)" rule: next_command.cases) auto
    then show ?thesis
      using None unfold sync_data_inv(1)[OF less.prems(1), where es = "[]"]
      by (intro exI[of _ 0]) (auto split: prod.splits sum.splits)
  next
    case (Some nx)
    obtain c q where q: "nx = (c, q)" by fastforce
    note events = next_command_events[OF Some[unfolded q]]
    note pending = next_command_pending[OF Some[unfolded q]]
    show ?thesis
    proof (cases c)
      case (CAppend e)
      obtain others deferred' rest where col: "collect_batch q = (others, deferred', rest)"
        by (metis prod.collapse)
      obtain res rep w1 where app: "append_batch L env cfg w (e # others) = (res, rep, w1)"
        by (metis prod.collapse)
      have evs: "queue_events deferred queue = (e # others) @ queue_events deferred' rest"
        using events CAppend collect_batch_events[OF col] by simp
      have runs: "\<forall>p\<in>set (e # others). pe_run_id p = rid" using less.prems(3) evs by auto
      obtain j where j: "j \<le> length (e # others)" "answered (ws_sequence w) j rep"
          "durable L cfg (log_events rs @ number_events env (ws_sequence w) (e # others))
             (log_events rs @ take j (number_events env (ws_sequence w) (e # others))) (ws_file w1)"
          "res = Inr () \<Longrightarrow> j = length (e # others) \<and> (\<exists>rs'. log_events rs' = number_events env (ws_sequence w) (e # others)
             \<and> writer_inv L cfg (rs @ rs') w1)" "length rep \<le> length (e # others)"
        using append_batch_spec[OF less.prems(1,2) runs app] by metis
      show ?thesis
      proof (cases res)
        case (Inl err)
        have evs_j: "take j (number_events env (ws_sequence w) (queue_events deferred queue)) =
            take j (number_events env (ws_sequence w) (e # others))"
          unfolding evs number_events_simps(4) take_append using j(1) by simp
        have "replies = map RAppend rep" "w' = w1" "\<not> is_ok final" using unfold Some q CAppend col app Inl by auto
        moreover have "prefix (log_events rs @ number_events env (ws_sequence w) (e # others))
            (log_events rs @ number_events env (ws_sequence w) (queue_events deferred queue))"
          unfolding evs number_events_simps(4) by simp
        ultimately show ?thesis using j(2,5) durable_mono[OF j(3)] evs_j
          by (intro exI[of _ j]) (simp add: evs served_all_def)
      next
        case (Inr u)
        then obtain rs' where rs': "log_events rs' = number_events env (ws_sequence w) (e # others)"
            "writer_inv L cfg (rs @ rs') w1" "j = length (e # others)"
          using j(4) by auto
        obtain final' rep' w2 where rec: "writer_commands L env cfg w1 deferred' rest = (final', rep', w2)"
          by (metis prod.collapse)
        have res: "final = final'" "replies = map RAppend rep @ rep'" "w' = w2"
          using unfold Some q CAppend col app Inr rec by auto
        have seq: "ws_sequence w1 = ws_sequence w + j"
          using rs' less.prems(1) by (simp add: writer_inv_def)
        have fewer: "pending_commands deferred' rest < pending_commands deferred queue"
          using collect_batch_pending[OF col] pending by simp
        have runs': "\<forall>p\<in>set (queue_events deferred' rest). pe_run_id p = rid"
          using less.prems(3) unfolding evs by simp
        note IH = less.hyps[OF fewer rs'(2) less.prems(2) runs' rec[folded res(1) res(3)]]
        obtain j' where j': "answered (ws_sequence w1) j' (append_replies rep')"
          "durable L cfg (log_events (rs @ rs') @ number_events env (ws_sequence w1) (queue_events deferred' rest))
             (log_events (rs @ rs') @ take j' (number_events env (ws_sequence w1) (queue_events deferred' rest))) (ws_file w2)"
          "length (append_replies rep') \<le> length (queue_events deferred' rest)"
          "served_all final (queue_commands deferred' rest) \<longrightarrow> j' = length (queue_events deferred' rest)"
          using IH res(3) by blast
        have "take (j + j') (number_events env (ws_sequence w) (queue_events deferred queue)) =
          log_events rs' @ take j' (number_events env (ws_sequence w1) (queue_events deferred' rest))"
          unfolding evs number_events_simps(4) using rs' seq by (simp del: number_events.simps)
        moreover have "log_events (rs @ rs') @ number_events env (ws_sequence w1) (queue_events deferred' rest) =
            log_events rs @ number_events env (ws_sequence w) (queue_events deferred queue)"
          unfolding evs number_events_simps(4) using rs' seq by (simp del: number_events.simps)
        moreover have "answered (ws_sequence w) (j + j') (append_replies replies)"
            "length (append_replies replies) \<le> length (queue_events deferred queue)"
          using answered_append[OF j(2) _ j'(1)[unfolded seq]] j(5) j'(3) rs'(3) res(2) by (simp_all add: evs)
        moreover have "served_all final (queue_commands deferred queue) \<longrightarrow> j + j' = length (queue_events deferred queue)"
          using j'(4) rs'(3) served_all_rest[of final "map CAppend (e # others)" "queue_commands deferred' rest"]
            next_command_commands[OF Some[unfolded q]] collect_batch_commands[OF col] CAppend
          by (simp add: evs)
        ultimately show ?thesis
          using j'(2) res(3) by (intro exI[of _ "j + j'"]) simp
      qed
    next
      case CFlush
      obtain sres f where sync: "sync_data (ws_file w) = (sres, f)" by fastforce
      note inv = sync_data_inv[OF less.prems(1) sync]
      show ?thesis
      proof (cases sres)
        case (Inl err)
        then show ?thesis using unfold Some q CFlush sync inv(1) by (intro exI[of _ 0]) (auto simp: served_all_def)
      next
        case (Inr u)
        obtain final' rep' w2 where rec: "writer_commands L env cfg (w\<lparr>ws_file := f\<rparr>) None q = (final', rep', w2)"
          by (metis prod.collapse)
        have res: "final = final'" "replies = RFlush (Inr (ws_stats w)) # rep'" "w' = w2"
          using unfold Some q CFlush sync Inr rec by auto
        have fewer: "pending_commands None q < pending_commands deferred queue"
          using pending by (simp add: pending_commands_def[of None])
        have evs: "queue_events deferred queue = queue_events None q" using events CFlush by simp
        have rest: "served_all final (queue_commands deferred queue) \<Longrightarrow> served_all final (queue_commands None q)"
          using served_all_rest[of final "[CFlush]" "queue_commands None q"] next_command_commands[OF Some[unfolded q]] CFlush by simp
        show ?thesis
          using less.hyps[OF fewer inv(2) less.prems(2) less.prems(3)[unfolded evs] rec[folded res(1) res(3)]] evs res(2) rest
          by auto
      qed
    next
      case CShutdown
      have "served_all final (queue_commands deferred queue) \<longrightarrow> queue_events deferred queue = []"
        using next_command_commands[OF Some[unfolded q]] events CShutdown queue_commands_events[of q]
        by (auto simp: served_all_def split: if_splits)
      then show ?thesis
        using CShutdown unfold Some q
          sync_data_inv(1)[OF less.prems(1), where es = "number_events env (ws_sequence w) (queue_events deferred queue)"]
        by (intro exI[of _ 0]) (auto split: prod.splits sum.splits)
    qed
  qed
qed

section \<open>Crash and recovery\<close>

lemma torn_mono: "torn fmt part \<Longrightarrow> prefix q part \<Longrightarrow> torn fmt q"
  by (cases q) (auto simp: torn_def prefix_def)

lemma good_log_take: "good_log L fmt enc rs \<Longrightarrow> good_log L fmt enc (take k rs)"
  using good_log_append[of L fmt enc "take k rs" "drop k rs"] by simp

text \<open>Whatever a crash leaves of the unsynced bytes, the disk holds complete records with at least
  the durable events and possibly an incomplete one.\<close>

lemma durable_crash:
  assumes "durable L cfg submitted es f" "crash_image f p"
  obtains rs tail where "good_log L (wc_format cfg) (wc_encryption cfg) rs" "torn (wc_format cfg) tail"
    "p = log_image (wc_format cfg) rs @ tail" "prefix es (log_events rs)" "prefix (log_events rs) submitted"
    "length p \<le> wc_max_event_storage_bytes cfg"
proof -
  let ?fmt = "wc_format cfg"
  obtain rs m part where rs: "good_log L ?fmt (wc_encryption cfg) rs" "ef_contents f = log_image ?fmt rs @ part"
      "torn ?fmt part" "m \<le> length rs" "length (log_image ?fmt (take m rs)) \<le> ef_synced f"
      "log_events (take m rs) = es" "prefix (log_events rs) submitted"
      "length (ef_contents f) \<le> wc_max_event_storage_bytes cfg"
    using assms(1) by (auto simp: durable_def stopped_image_def)
  have p: "prefix p (log_image ?fmt rs @ part)" "length (log_image ?fmt (take m rs)) \<le> length p"
    using assms(2) rs(2,5) by (auto simp: crash_image_def)
  have keep: "prefix es (log_events (take k rs))" if "m \<le> k" for k
  proof -
    have "take k rs = take m rs @ drop m (take k rs)" using that by (metis append_take_drop_id min.absorb1 take_take)
    then have "log_events (take k rs) = es @ log_events (drop m (take k rs))"
      using rs(6) log_events_simps(3)[of "take m rs" "drop m (take k rs)"] by simp
    then show ?thesis by simp
  qed
  have submitted: "prefix (log_events (take k rs)) submitted" for k
    using rs(7) log_events_simps(3)[of "take k rs" "drop k rs"] by (auto simp: prefix_def)
  have size: "length p \<le> wc_max_event_storage_bytes cfg"
    using prefix_length_le[OF p(1)] rs(2,8) by simp
  show thesis
  proof (cases "prefix p (log_image ?fmt rs)")
    case False
    then obtain q where "p = log_image ?fmt rs @ q" "prefix q part" using p(1) by (auto simp: prefix_append)
    then show thesis using that[OF rs(1) torn_mono[OF rs(3)]] keep[of "length rs"] rs(4) submitted[of "length rs"] size by simp
  next
    case True
    have "prefix (log_header ?fmt) p"
    proof (rule prefix_length_prefix)
      show "prefix (log_header ?fmt) (log_image ?fmt rs)" by (simp add: log_image_def)
      show "length (log_header ?fmt) \<le> length p" using p(2) by (simp add: log_image_def)
    qed (rule True)
    then obtain q where q: "p = log_header ?fmt @ q" by (auto elim: prefixE)
    have pq: "prefix q (concat (map phys_frame rs))" "length (concat (map phys_frame (take m rs))) \<le> length q"
      using True p(2) q by (simp_all add: log_image_def)
    have good: "\<forall>r\<in>set rs. log_laws L \<and> phys_record L ?fmt (wc_encryption cfg) r" using rs(1) by (simp add: good_log_def)
    obtain k tail where k: "m \<le> k" "k \<le> length rs" "q = concat (map phys_frame (take k rs)) @ tail"
        "newline \<notin> set tail" "length tail \<le> record_limit ?fmt"
        "tail = [] \<or> k < length rs \<and> prefix tail (phys_frame (rs ! k))"
      using event_frames.prefix_frames_keep[OF good pq(1) rs(4) pq(2)] by blast
    have "torn ?fmt tail"
    proof (cases "tail = []")
      case False
      then have r: "prefix tail (phys_frame (rs ! k))" "phys_record L ?fmt (wc_encryption cfg) (rs ! k)" "log_laws L"
        using k(6) rs(1) by (auto simp: good_log_def)
      then have "prefix tail (snd (rs ! k))" using k(4) by (auto simp: phys_frame_def)
      then show ?thesis using torn_prefix[OF r(3,2)] by blast
    qed simp
    then show thesis
      using that[OF good_log_take[OF rs(1)], of tail k] keep[OF k(1)] submitted[of k] size k(3) q
      by (simp add: log_image_def)
  qed
qed

text \<open>What a reader finds after the next start: recovery with repair, then the events of the
  repaired log in order.\<close>

definition recovered_events ::
  "('x) log_codecs_scheme \<Rightarrow> bytes \<Rightarrow> encryption_key option \<Rightarrow> storage_error + event_envelope list" where
  "recovered_events L disk enc =
     and_then (recover_events_with_key L (Some disk) True enc) (\<lambda>(_, log).
     and_then (for_each_event_with_key L log enc (\<lambda>es e. Inr (es @ [e])) []) (\<lambda>(_, es). Inr es))"

lemma try_fold_collect: "try_fold (\<lambda>es e. Inr (es @ [e])) acc es = Inr (acc @ es)"
  by (induction es arbitrary: acc) simp_all

lemma recovered_log_image:
  assumes "good_log L fmt enc rs" "torn fmt tail"
  shows "recovered_events L (log_image fmt rs @ tail) enc = Inr (log_events rs)"
proof -
  have "and_then (for_each_event_with_key L (Some (log_image fmt rs @ [])) enc (\<lambda>es e. Inr (es @ [e])) []) (\<lambda>(_, es). Inr es)
      = Inr (log_events rs)"
    by (subst for_each_log_image[OF assms(1) torn_Nil]) (simp add: try_fold_collect)
  then show ?thesis by (simp add: recovered_events_def recover_log_image[OF assms])
qed

section \<open>Starting the writer\<close>

text \<open>The state the writer starts in: a repaired log, or an empty file.\<close>

definition writer_start :: "('x) log_codecs_scheme \<Rightarrow> writer_config \<Rightarrow> phys list \<Rightarrow> writer_state \<Rightarrow> bool" where
  "writer_start L cfg rs w \<longleftrightarrow> writer_inv L cfg rs w
     \<or> rs = [] \<and> log_laws L \<and> ef_contents (ws_file w) = [] \<and> ef_synced (ws_file w) = 0
       \<and> ws_sequence w = 1 \<and> ws_storage_bytes w = 0 \<and> wc_max_event_storage_bytes cfg \<le> U64_MAX"

lemma writer_inv_detect:
  assumes "writer_inv L cfg rs w" "ef_contents (ws_file w) \<noteq> []"
  shows "detect_event_log_format (Some (ef_contents (ws_file w))) = Some (wc_format cfg)"
  using detect_log_image[of L "wc_format cfg" "wc_encryption cfg" rs "[]"] assms
  by (auto simp: writer_inv_def writer_image_def detect_event_log_format_def unwrap_format_def split: if_splits)

lemma writer_inv_header: "writer_inv L cfg rs w \<Longrightarrow> wc_format cfg = ZstdBlocks \<Longrightarrow> ef_contents (ws_file w) \<noteq> []"
  by (auto simp: writer_inv_def writer_image_def log_image_def log_header_def header_facts(1))

lemma header_length: "length EVENT_BLOCK_HEADER = 28" by (simp add: EVENT_BLOCK_HEADER_def)

lemma fresh_jsonl_inv:
  "writer_start L cfg rs w \<Longrightarrow> wc_format cfg = Jsonl \<Longrightarrow> writer_inv L cfg rs w"
  by (auto simp: writer_start_def writer_inv_def writer_image_def good_log_def log_image_def log_header_def U64_MAX_def)

text \<open>A crash before the header of a new block log is synced leaves a beginning of it.\<close>

definition header_only :: "writer_config \<Rightarrow> event_file \<Rightarrow> bool" where
  "header_only cfg f \<longleftrightarrow> wc_format cfg = ZstdBlocks \<and> prefix (ef_contents f) EVENT_BLOCK_HEADER
     \<and> length (ef_contents f) \<le> wc_max_event_storage_bytes cfg"

lemma writer_loop_spec:
  assumes start: "writer_start L cfg rs w" and nonces: "\<forall>n. length (we_nonce env n) = 24"
    and runs: "\<forall>p\<in>set (queue_events None queue). pe_run_id p = rid"
    and loop: "writer_loop L env cfg lock w queue = (final, replies, w')"
  shows "\<exists>j. answered (ws_sequence w) j (append_replies replies)
     \<and> length (append_replies replies) \<le> length (queue_events None queue)
     \<and> (served_all final (queue_commands None queue) \<longrightarrow> j = length (queue_events None queue))
     \<and> (durable L cfg (log_events rs @ number_events env (ws_sequence w) (queue_events None queue))
          (log_events rs @ take j (number_events env (ws_sequence w) (queue_events None queue))) (ws_file w')
        \<or> j = 0 \<and> rs = [] \<and> header_only cfg (ws_file w'))"
proof (cases "writer_inv L cfg rs w")
  case inv: True
  have "(final, replies, w') = writer_commands L env cfg w None queue \<or> replies = [] \<and> w' = w \<and> \<not> is_ok final"
    using loop writer_inv_detect[OF inv] writer_inv_header[OF inv]
    by (cases "ef_contents (ws_file w) = []") (auto simp: writer_loop_def Let_def detect_event_log_format_def split: if_splits)
  then show ?thesis
  proof
    assume "(final, replies, w') = writer_commands L env cfg w None queue"
    from writer_commands_spec[OF inv nonces runs this[symmetric]] show ?thesis by blast
  next
    assume "replies = [] \<and> w' = w \<and> \<not> is_ok final"
    then show ?thesis using writer_inv_durable[OF inv refl] by (intro exI[of _ 0]) (simp add: served_all_def)
  qed
next
  case False
  then have fresh: "rs = []" "log_laws L" "ef_contents (ws_file w) = []" "ef_synced (ws_file w) = 0"
      "ws_sequence w = 1" "ws_storage_bytes w = 0" "wc_max_event_storage_bytes cfg \<le> U64_MAX"
      "wc_format cfg = ZstdBlocks"
    using start fresh_jsonl_inv[OF start] by (auto simp: writer_start_def intro: event_log_format.exhaust)
  let ?max = "wc_max_event_storage_bytes cfg"
  obtain wres f where wr: "write_all (ws_file w) EVENT_BLOCK_HEADER = (wres, f)" by fastforce
  obtain sres g where sync: "sync_data f = (sres, g)" by fastforce
  define w1 where "w1 = w\<lparr>ws_file := g, ws_storage_bytes := saturating_add (ws_storage_bytes w) (u64_of_usize (length EVENT_BLOCK_HEADER)),
      ws_stats := (ws_stats w)\<lparr>st_event_storage_bytes :=
        wrapping_add (st_event_storage_bytes (ws_stats w)) (u64_of_usize (length EVENT_BLOCK_HEADER))\<rparr>\<rparr>"
  consider (early) "replies = []" "w' = w" "\<not> is_ok final"
    | (unwritten) err where "28 \<le> ?max" "wres = Inl err" "replies = []" "ws_file w' = f" "\<not> is_ok final"
    | (unsynced) u err where "28 \<le> ?max" "wres = Inr u" "sres = Inl err" "replies = []" "ws_file w' = g" "\<not> is_ok final"
    | (run) u v where "28 \<le> ?max" "wres = Inr u" "sres = Inr v" "writer_commands L env cfg w1 None queue = (final, replies, w')"
    using loop wr sync fresh
    by (auto simp: writer_loop_def Let_def detect_event_log_format_def w1_def header_length U64_MAX_def
          split: if_splits sum.splits)
  then show ?thesis
  proof cases
    case early
    then show ?thesis using fresh by (intro exI[of _ 0]) (simp add: header_only_def served_all_def)
  next
    case unwritten
    then show ?thesis using fresh write_all_err[of "ws_file w" EVENT_BLOCK_HEADER err f] wr
      by (intro exI[of _ 0]) (auto simp: header_only_def take_is_prefix header_length served_all_def)
  next
    case unsynced
    then show ?thesis using fresh write_all_ok[of "ws_file w" EVENT_BLOCK_HEADER u f] wr \<open>sync_data f = (sres, g)\<close>
      by (intro exI[of _ 0]) (auto simp: header_only_def header_length served_all_def elim!: sync_data_cases)
  next
    case run
    have g: "ef_contents g = EVENT_BLOCK_HEADER" "ef_synced g = length EVENT_BLOCK_HEADER"
      using fresh write_all_ok[of "ws_file w" EVENT_BLOCK_HEADER u f] wr run \<open>sync_data f = (sres, g)\<close>
      by (auto elim!: sync_data_cases)
    have "writer_inv L cfg [] w1"
      using fresh g run(1)
      by (simp add: writer_inv_def writer_image_def w1_def good_log_def log_image_def log_header_def header_length U64_MAX_def)
    from writer_commands_spec[OF this nonces runs run(4)] show ?thesis
      using fresh by (auto simp: w1_def)
  qed
qed

end
