(* ===== verification/Run_Sessions.thy ===== *)
theory Run_Sessions
  imports Event_Writer
begin

text \<open>
  A run over several recorder processes (\<open>src/storage.rs\<close>): the part of
  \<open>RunStore::create_with_encryption\<close> that opens the event log, the writer it starts, and the
  step relation of sessions that each end in a crash at some point. What was acknowledged in any
  session is found by every later one.
\<close>

section \<open>Opening the log\<close>

definition open_event_log ::
  "('x) log_codecs_scheme \<Rightarrow> writer_config \<Rightarrow> str \<Rightarrow> bytes option
   \<Rightarrow> storage_error + recovery_report \<times> bytes option" where
  "open_event_log L cfg rid file =
     (let existing_format = detect_event_log_format file in
      if existing_format \<noteq> None \<and> existing_format \<noteq> Some (wc_format cfg)
      then Inl (SInvalidPolicy ''event log format differs from the capture policy'')
      else
      and_then (recover_events_with_key L file True (wc_encryption cfg)) (\<lambda>(recovery, log).
      if valid_bytes recovery > wc_max_event_storage_bytes cfg
      then Inl (SEventStorageBudgetExceeded (valid_bytes recovery) 0 (wc_max_event_storage_bytes cfg))
      else
      and_then
        (if valid_events recovery > 0
         then and_then (for_each_run_event_with_key L log rid (wc_encryption cfg) (\<lambda>_ _. Inr ()) ()) (\<lambda>_. Inr ())
         else Inr ()) (\<lambda>_.
      Inr (recovery, log))))"

text \<open>The counters and the file of the writer that \<open>create_with_encryption\<close> spawns; the repaired
  log is on disk, and the faults of the session are those of the environment.\<close>

definition start_writer ::
  "recovery_report \<Rightarrow> bytes option \<Rightarrow> nat option list \<Rightarrow> bool list \<Rightarrow> writer_state" where
  "start_writer recovery log write_faults sync_faults =
     (let contents = (case log of None \<Rightarrow> [] | Some bs \<Rightarrow> bs) in
      \<lparr>ws_file = \<lparr>ef_contents = contents, ef_synced = length contents,
                  ef_write_faults = write_faults, ef_sync_faults = sync_faults\<rparr>,
       ws_sequence = saturating_add (last_sequence recovery) 1,
       ws_storage_bytes = valid_bytes recovery,
       ws_stats = \<lparr>st_events = valid_events recovery, st_event_storage_bytes = valid_bytes recovery,
                   st_blobs = 0, st_blob_bytes = 0, st_queue_waits = 0, st_event_sync_batches = 0,
                   st_capture_drops = 0\<rparr>\<rparr>)"

section \<open>Sessions\<close>

text \<open>The envelopes of the events of a session that were acknowledged to their sender.\<close>

definition acknowledged_events ::
  "writer_env \<Rightarrow> nat \<Rightarrow> command_queue \<Rightarrow> writer_reply list \<Rightarrow> event_envelope list" where
  "acknowledged_events env start queue replies =
     filter (\<lambda>e. sequence e \<in> set (acknowledged (append_replies replies)))
       (number_events env start (queue_events None queue))"

text \<open>The events of a disk image, none when it cannot be recovered.\<close>

definition disk_events ::
  "('x) log_codecs_scheme \<Rightarrow> writer_config \<Rightarrow> bytes option \<Rightarrow> event_envelope list" where
  "disk_events L cfg disk =
     (case disk of None \<Rightarrow> []
      | Some bs \<Rightarrow> (case recovered_events L bs (wc_encryption cfg) of Inl _ \<Rightarrow> [] | Inr es \<Rightarrow> es))"

text \<open>The disk between two sessions, and everything acknowledged so far. A session opens the log,
  serves a queue under arbitrary write and sync faults, and ends in a crash: a fault stops the
  writer at any byte, and of the bytes not synced the disk keeps any beginning. The event
  identifiers are arbitrary: nothing relates the clock of one process to that of another.\<close>

inductive run_history ::
  "('x) log_codecs_scheme \<Rightarrow> writer_config \<Rightarrow> str \<Rightarrow> bytes option \<Rightarrow> event_envelope list \<Rightarrow> bool"
  for L cfg rid where
  created: "run_history L cfg rid None []"
| session: "run_history L cfg rid disk acked \<Longrightarrow>
    open_event_log L cfg rid disk = Inr (recovery, log) \<Longrightarrow>
    length (disk_events L cfg disk) < U64_MAX \<Longrightarrow>
    (\<forall>n. length (we_nonce env n) = 24) \<Longrightarrow>
    (\<forall>p\<in>set (queue_events None queue). pe_run_id p = rid) \<Longrightarrow>
    w = start_writer recovery log write_faults sync_faults \<Longrightarrow>
    writer_loop L env cfg locked w queue = (final, replies, w') \<Longrightarrow>
    crash_image (ws_file w') disk' \<Longrightarrow>
    run_history L cfg rid (Some disk') (acked @ acknowledged_events env (ws_sequence w) queue replies)"

section \<open>What the disk holds\<close>

text \<open>The invariant of the history: a log of the run, possibly torn, or less than a header.\<close>

definition holds_log :: "('x) log_codecs_scheme \<Rightarrow> writer_config \<Rightarrow> bytes \<Rightarrow> event_envelope list \<Rightarrow> bool" where
  "holds_log L cfg bs es \<longleftrightarrow> (\<exists>rs tail. good_log L (wc_format cfg) (wc_encryption cfg) rs
     \<and> torn (wc_format cfg) tail \<and> bs = log_image (wc_format cfg) rs @ tail \<and> log_events rs = es
     \<and> length bs \<le> wc_max_event_storage_bytes cfg)"

definition holds_header :: "writer_config \<Rightarrow> bytes \<Rightarrow> event_envelope list \<Rightarrow> bool" where
  "holds_header cfg bs es \<longleftrightarrow> es = [] \<and> wc_format cfg = ZstdBlocks \<and> prefix bs EVENT_BLOCK_HEADER
     \<and> length bs \<le> wc_max_event_storage_bytes cfg"

text \<open>The check of the identifiers over all events of a log.\<close>

fun check_event_ids :: "uuid option \<Rightarrow> event_envelope list \<Rightarrow> storage_error + unit" where
  "check_event_ids previous [] = Inr ()"
| "check_event_ids previous (e # es) = and_then (check_event_id previous e) (\<lambda>_. check_event_ids (Some (event_id e)) es)"

lemma check_event_ids_ok: "check_event_ids previous es = Inr () \<longleftrightarrow> ids_increase previous es"
  by (induction es arbitrary: previous) (auto simp: and_then_eq_Inr check_event_id_ok)

lemma check_event_ids_error:
  "check_event_ids previous es = Inl err \<Longrightarrow> category err \<in> {''duplicate_event_id'', ''invalid_event_id_order''}"
  by (induction es arbitrary: previous)
    (auto simp: and_then_def check_event_id_def split: sum.splits option.splits if_splits)

lemma ids_increase_append:
  "ids_increase p (xs @ ys) \<longleftrightarrow> ids_increase p xs
     \<and> ids_increase (if xs = [] then p else Some (event_id (last xs))) ys"
  by (induction xs arbitrary: p) auto

lemma visit_run_events_checks:
  assumes "log_laws L" "delivers L r es" "\<forall>e\<in>set es. run_id e = rid"
  shows "visit_run_events L (dr_encryption r \<noteq> None) rid (\<lambda>_ _. Inr ()) n (length es) previous r () = check_event_ids previous es"
  using assms(2-)
proof (induction es arbitrary: r n previous)
  case (Cons e es)
  obtain r' where r': "next_or_changed L r = Inr (decoded (dr_encryption r) e, r')" "delivers L r' es"
      "dr_encryption r' = dr_encryption r"
    using delivers_next[OF assms(1) Cons.prems(1)] by metis
  then show ?case
    using Cons.IH[OF r'(2), of "Suc n" "Some (event_id e)"] Cons.prems(2)
    by (simp add: check_scope_decoded and_then_def del: not_None_eq split: sum.splits)
qed simp

lemma for_each_run_image:
  assumes "good_log L fmt enc rs" "torn fmt tail" "\<forall>e\<in>set (log_events rs). run_id e = rid"
  shows "and_then (for_each_run_event_with_key L (Some (log_image fmt rs @ tail)) rid enc (\<lambda>_ _. Inr ()) ())
      (\<lambda>_. Inr ()) = check_event_ids None (log_events rs)"
proof -
  obtain r where r: "open_decoded_reader (Some (log_image fmt rs @ tail)) enc = Inr r"
      "delivers L r (log_events rs)" "dr_encryption r = enc"
    using open_reader_delivers[OF assms(1,2)] by metis
  have laws: "log_laws L" using assms(1) by (simp add: good_log_def)
  have "and_then x (\<lambda>_. Inr ()) = x" for x :: "storage_error + unit" by (cases x) (simp_all add: and_then_def)
  then show ?thesis
    using r(1,3) visit_run_events_checks[OF laws r(2) assms(3), unfolded r(3), of 1]
    by (simp add: for_each_run_event_with_key_def recover_log_image[OF assms(1,2)] and_then_assoc del: not_None_eq)
qed

lemma detect_holds:
  assumes "unwrap_format (detect_event_log_format file) = fmt"
  shows "detect_event_log_format file = None \<or> detect_event_log_format file = Some fmt"
  using assms by (auto simp: unwrap_format_def split: option.splits)

text \<open>Opening a log that the invariant describes: it succeeds when the identifiers increase.\<close>

lemma open_log_image:
  assumes "good_log L (wc_format cfg) (wc_encryption cfg) rs" "torn (wc_format cfg) tail"
    and "\<forall>e\<in>set (log_events rs). run_id e = rid"
    and "length (log_image (wc_format cfg) rs) \<le> wc_max_event_storage_bytes cfg"
  shows "open_event_log L cfg rid (Some (log_image (wc_format cfg) rs @ tail)) =
     and_then (check_event_ids None (log_events rs)) (\<lambda>_.
     Inr (\<lparr>valid_events = length (log_events rs), last_sequence = length (log_events rs),
           valid_bytes = length (log_image (wc_format cfg) rs), discarded_tail_bytes = length tail,
           quarantine = (if tail \<noteq> [] then Some tail else None)\<rparr>,
          Some (log_image (wc_format cfg) rs)))"
proof -
  have "and_then (for_each_run_event_with_key L (Some (log_image (wc_format cfg) rs)) rid (wc_encryption cfg)
      (\<lambda>_ _. Inr ()) ()) (\<lambda>_. Inr ()) = check_event_ids None (log_events rs)"
    using for_each_run_image[OF assms(1) torn_Nil assms(3)] by simp
  then show ?thesis
    using detect_holds[OF detect_log_image[OF assms(1,2)]] assms(4)
    by (auto simp: open_event_log_def Let_def recover_log_image[OF assms(1,2)])
qed

lemma start_log_image:
  assumes "good_log L (wc_format cfg) (wc_encryption cfg) rs" "length (log_events rs) < U64_MAX"
    and "length (log_image (wc_format cfg) rs) \<le> wc_max_event_storage_bytes cfg"
    and "wc_max_event_storage_bytes cfg \<le> U64_MAX"
    and "last_sequence recovery = length (log_events rs)" "valid_bytes recovery = length (log_image (wc_format cfg) rs)"
  shows "writer_start L cfg rs (start_writer recovery (Some (log_image (wc_format cfg) rs)) wfs sfs)"
  using assms by (simp add: writer_start_def writer_inv_def writer_image_def start_writer_def Let_def)

lemma open_header:
  assumes "prefix p EVENT_BLOCK_HEADER" "p \<noteq> EVENT_BLOCK_HEADER" "wc_format cfg = ZstdBlocks"
  shows "\<exists>recovery. open_event_log L cfg rid (Some p) = Inr (recovery, Some []) \<and> last_sequence recovery = 0
     \<and> valid_bytes recovery = 0"
proof -
  have "take (length EVENT_BLOCK_HEADER) p = p" using prefix_length_le[OF assms(1)] by simp
  then have "detect_event_log_format (Some p) = None \<or> detect_event_log_format (Some p) = Some ZstdBlocks"
    using assms(1) by (auto simp: detect_event_log_format_def starts_with_iff prefix_def)
  then show ?thesis
    using assms(3) by (auto simp: open_event_log_def Let_def recover_torn_header[OF assms(1,2)])
qed

lemma start_empty:
  assumes "log_laws L" "wc_max_event_storage_bytes cfg \<le> U64_MAX" "last_sequence recovery = 0" "valid_bytes recovery = 0"
    and "log = None \<or> log = Some []"
  shows "writer_start L cfg [] (start_writer recovery log wfs sfs)"
  using assms by (auto simp: writer_start_def start_writer_def Let_def U64_MAX_def)

section \<open>The invariant\<close>

definition disk_ok :: "('x) log_codecs_scheme \<Rightarrow> writer_config \<Rightarrow> str \<Rightarrow> bytes option \<Rightarrow> event_envelope list \<Rightarrow> bool" where
  "disk_ok L cfg rid disk es \<longleftrightarrow> (\<forall>e\<in>set es. run_id e = rid)
     \<and> (case disk of None \<Rightarrow> es = [] | Some bs \<Rightarrow> holds_log L cfg bs es \<or> holds_header cfg bs es)"

lemma header_log:
  assumes "log_laws L" "wc_format cfg = ZstdBlocks" "length EVENT_BLOCK_HEADER \<le> wc_max_event_storage_bytes cfg"
  shows "holds_log L cfg EVENT_BLOCK_HEADER []"
  unfolding holds_log_def using assms
  by (intro exI[of _ "[]"]) (simp add: good_log_def log_image_def log_header_def header_length U64_MAX_def)

lemma disk_ok_cases:
  assumes "disk_ok L cfg rid disk es" "log_laws L"
  obtains (log) rs tail where "disk = Some (log_image (wc_format cfg) rs @ tail)"
      "good_log L (wc_format cfg) (wc_encryption cfg) rs" "torn (wc_format cfg) tail" "log_events rs = es"
      "length (log_image (wc_format cfg) rs) \<le> wc_max_event_storage_bytes cfg"
  | (header) p where "disk = Some p" "es = []" "wc_format cfg = ZstdBlocks" "prefix p EVENT_BLOCK_HEADER" "p \<noteq> EVENT_BLOCK_HEADER"
  | (none) "disk = None" "es = []"
proof (cases disk)
  case None
  then show thesis using assms none by (simp add: disk_ok_def)
next
  case (Some p)
  consider "holds_log L cfg p es" | "holds_header cfg p es" "p \<noteq> EVENT_BLOCK_HEADER"
    using assms Some header_log[OF assms(2), of cfg] by (auto simp: disk_ok_def holds_header_def)
  then show thesis
    by cases (use Some log header in \<open>auto simp: holds_log_def holds_header_def\<close>)
qed

lemma disk_ok_recovered:
  assumes "disk_ok L cfg rid disk es" "log_laws L"
  shows "disk_events L cfg disk = es"
    and "disk = Some bs \<Longrightarrow> recovered_events L bs (wc_encryption cfg) = Inr es"
proof -
  have rec: "recovered_events L bs (wc_encryption cfg) = Inr es" if "disk = Some bs" for bs
    using assms
  proof (cases rule: disk_ok_cases)
    case (log rs tail)
    then show ?thesis using that recovered_log_image[OF log(2,3)] by simp
  next
    case (header p)
    have "for_each_event_with_key L (Some []) (wc_encryption cfg) (\<lambda>es e. Inr (es @ [e])) [] =
        Inr (\<lparr>valid_events = 0, last_sequence = 0, valid_bytes = 0, discarded_tail_bytes = 0, quarantine = None\<rparr>, [])"
      by (simp add: for_each_event_with_key_def recover_events_with_key_def detect_event_log_format_def unwrap_format_def
            recover_jsonl_records_def line_loop.simps open_decoded_reader_def Let_def)
    then show ?thesis using that header by (simp add: recovered_events_def recover_torn_header)
  qed (use that in auto)
  then show "disk = Some bs \<Longrightarrow> recovered_events L bs (wc_encryption cfg) = Inr es" by blast
  show "disk_events L cfg disk = es"
    using rec assms(1) by (cases disk) (auto simp: disk_events_def disk_ok_def)
qed

lemma disk_ok_opens:
  assumes "disk_ok L cfg rid disk es" "log_laws L" "wc_max_event_storage_bytes cfg \<le> U64_MAX"
  obtains recovery log where "open_event_log L cfg rid disk = and_then (check_event_ids None es) (\<lambda>_. Inr (recovery, log))"
    "\<And>wfs sfs. length es < U64_MAX \<Longrightarrow> \<exists>rs. log_events rs = es \<and> writer_start L cfg rs (start_writer recovery log wfs sfs)"
  using assms(1,2)
proof (cases rule: disk_ok_cases)
  case (log rs tail)
  have ok: "\<forall>e\<in>set (log_events rs). run_id e = rid" using assms(1) log(4) by (simp add: disk_ok_def)
  show thesis
    by (rule that[OF open_log_image[OF log(2,3) ok log(5), folded log(1), unfolded log(4)]], rule exI[of _ rs])
      (use log(4) start_log_image[OF log(2) _ log(5) assms(3)] in simp)
next
  case (header p)
  obtain recovery where r: "open_event_log L cfg rid (Some p) = Inr (recovery, Some [])" "last_sequence recovery = 0"
      "valid_bytes recovery = 0"
    using open_header[OF header(4,5,3)] by metis
  have "open_event_log L cfg rid disk = and_then (check_event_ids None es) (\<lambda>_. Inr (recovery, Some []))"
    using r(1) header(1,2) by simp
  then show thesis
    by (rule that, intro exI[of _ "[]"]) (use start_empty[OF assms(2,3) r(2,3)] header(2) in simp)
next
  case none
  let ?zero = "\<lparr>valid_events = 0, last_sequence = 0, valid_bytes = 0, discarded_tail_bytes = 0, quarantine = None\<rparr>"
  have "open_event_log L cfg rid disk = and_then (check_event_ids None es) (\<lambda>_. Inr (?zero, None))"
    using none by (simp add: open_event_log_def detect_event_log_format_def recover_events_with_key_def Let_def)
  then show thesis
    by (rule that, intro exI[of _ "[]"]) (use start_empty[OF assms(2,3)] none in simp)
qed

lemma opened_log_starts:
  assumes "disk_ok L cfg rid disk es" "log_laws L" "wc_max_event_storage_bytes cfg \<le> U64_MAX"
    and "open_event_log L cfg rid disk = Inr (recovery, log)" "length es < U64_MAX"
  shows "\<exists>rs. log_events rs = es \<and> writer_start L cfg rs (start_writer recovery log wfs sfs)"
proof (rule disk_ok_opens[OF assms(1-3)])
  fix recovery' log'
  assume o: "open_event_log L cfg rid disk = and_then (check_event_ids None es) (\<lambda>_. Inr (recovery', log'))"
    and rs: "\<And>wfs sfs. length es < U64_MAX \<Longrightarrow> \<exists>rs. log_events rs = es \<and> writer_start L cfg rs (start_writer recovery' log' wfs sfs)"
  have "recovery' = recovery" "log' = log" using assms(4)[unfolded o] by (auto simp: and_then_eq_Inr)
  then show ?thesis using rs[OF assms(5)] by simp
qed

lemma number_events_sequence: "e \<in> set (number_events env n ps) \<Longrightarrow> n \<le> sequence e"
  by (induction ps arbitrary: n) (auto dest: Suc_leD)

lemma filter_numbered:
  "filter (\<lambda>e. n \<le> sequence e \<and> sequence e < n + j) (number_events env n ps) = take j (number_events env n ps)"
proof (induction ps arbitrary: n j)
  case (Cons p ps)
  show ?case
  proof (cases j)
    case 0
    then show ?thesis by (simp add: filter_empty_conv)
  next
    case (Suc i)
    have "filter (\<lambda>e. n \<le> sequence e \<and> sequence e < n + j) (number_events env (Suc n) ps) =
        filter (\<lambda>e. Suc n \<le> sequence e \<and> sequence e < Suc n + i) (number_events env (Suc n) ps)"
      using Suc by (intro filter_cong) (auto dest: number_events_sequence)
    then show ?thesis using Cons[of "Suc n" i] Suc by simp
  qed
qed simp

lemma acknowledged_events_take:
  "acknowledged (append_replies replies) = [n..<n + j] \<Longrightarrow>
   acknowledged_events env n queue replies = take j (number_events env n (queue_events None queue))"
  using filter_numbered[of n j env "queue_events None queue"] by (simp add: acknowledged_events_def)

lemma writer_start_sequence: "writer_start L cfg rs w \<Longrightarrow> ws_sequence w = Suc (length (log_events rs))"
  by (auto simp: writer_start_def writer_inv_def)

lemma session_disk_ok:
  assumes start: "writer_start L cfg rs w" and ok: "\<forall>e\<in>set (log_events rs). run_id e = rid"
    and nonces: "\<forall>n. length (we_nonce env n) = 24"
    and runs: "\<forall>p\<in>set (queue_events None queue). pe_run_id p = rid"
    and loop: "writer_loop L env cfg locked w queue = (final, replies, w')"
    and crash: "crash_image (ws_file w') disk'"
  obtains es' where "disk_ok L cfg rid (Some disk') es'"
    "prefix (log_events rs @ acknowledged_events env (ws_sequence w) queue replies) es'"
proof -
  let ?new = "number_events env (ws_sequence w) (queue_events None queue)"
  obtain j where acks: "acknowledged (append_replies replies) = [ws_sequence w..<ws_sequence w + j]"
    and state: "durable L cfg (log_events rs @ ?new) (log_events rs @ take j ?new) (ws_file w')
       \<or> j = 0 \<and> rs = [] \<and> header_only cfg (ws_file w')"
    using writer_loop_spec[OF start nonces runs loop] answered_acknowledged by metis
  note acked = acknowledged_events_take[OF acks, of env queue]
  show thesis
    using state
  proof
    assume "durable L cfg (log_events rs @ ?new) (log_events rs @ take j ?new) (ws_file w')"
    from durable_crash[OF this crash] obtain rs2 tail where
        rs2: "good_log L (wc_format cfg) (wc_encryption cfg) rs2" "torn (wc_format cfg) tail"
        "disk' = log_image (wc_format cfg) rs2 @ tail" "prefix (log_events rs @ take j ?new) (log_events rs2)"
        "prefix (log_events rs2) (log_events rs @ ?new)"
        "length disk' \<le> wc_max_event_storage_bytes cfg"
      by blast
    have "\<forall>e\<in>set (log_events rs2). run_id e = rid"
      using set_mono_prefix[OF rs2(5)] ok runs number_events_run[of _ env "ws_sequence w" "queue_events None queue"] by fastforce
    then have "disk_ok L cfg rid (Some disk') (log_events rs2)"
      using rs2 by (auto simp: disk_ok_def holds_log_def)
    then show thesis using that acked rs2(4) by simp
  next
    assume header: "j = 0 \<and> rs = [] \<and> header_only cfg (ws_file w')"
    then have "prefix disk' EVENT_BLOCK_HEADER" "length disk' \<le> wc_max_event_storage_bytes cfg"
      using crash prefix_length_le by (fastforce simp: crash_image_def header_only_def)+
    then have "disk_ok L cfg rid (Some disk') []"
      using header by (simp add: disk_ok_def holds_header_def header_only_def)
    then show thesis using that[of "[]"] acked header by simp
  qed
qed

lemma run_history_disk_ok:
  assumes "run_history L cfg rid disk acked" "log_laws L" "wc_max_event_storage_bytes cfg \<le> U64_MAX"
  shows "\<exists>es. disk_ok L cfg rid disk es \<and> subseq acked es"
  using assms(1)
proof induction
  case created
  show ?case by (rule exI[of _ "[]"]) (simp add: disk_ok_def)
next
  case (session disk acked recovery log env queue w wfs sfs locked final replies w' disk')
  obtain es where es: "disk_ok L cfg rid disk es" "subseq acked es" using session.IH by blast
  note known = disk_ok_recovered(1)[OF es(1) assms(2)]
  obtain rs where rs: "log_events rs = es" "writer_start L cfg rs w"
    using opened_log_starts[OF es(1) assms(2,3) session.hyps(2)] session.hyps(3,6) known by auto
  have ok: "\<forall>e\<in>set (log_events rs). run_id e = rid" using es(1) rs(1) by (simp add: disk_ok_def)
  obtain es' where es': "disk_ok L cfg rid (Some disk') es'"
      "prefix (es @ acknowledged_events env (ws_sequence w) queue replies) es'"
    using session_disk_ok[OF rs(2) ok session.hyps(4,5,7,8)] rs(1) by metis
  have "subseq (acked @ acknowledged_events env (ws_sequence w) queue replies) es'"
    using es(2) es'(2) by (meson prefix_imp_subseq subseq_append_iff subseq_order.order_refl subseq_order.trans list_emb_append_mono)
  then show ?case using es'(1) by blast
qed

lemma consecutive_sequences: "consecutive n es \<Longrightarrow> map sequence es = [n..<n + length es]"
  by (induction es arbitrary: n) (simp_all add: upt_conv_Cons del: upt_Suc)

lemma disk_ok_sequences:
  assumes "disk_ok L cfg rid disk es" "log_laws L"
  shows "map sequence es = [1..<Suc (length es)]" "\<forall>e\<in>set es. run_id e = rid"
proof -
  have "consecutive 1 es" using assms by (cases rule: disk_ok_cases) (auto simp: good_log_def)
  then show "map sequence es = [1..<Suc (length es)]" using consecutive_sequences[of 1 es] by simp
  show "\<forall>e\<in>set es. run_id e = rid" using assms(1) by (simp add: disk_ok_def)
qed

section \<open>Durability\<close>

text \<open>C1: Acknowledged events survive. Over any number of sessions, with any write and sync faults and
  a crash at any point of each, recovery of the log that is left finds events of this run
  numbered from one without gaps, and every event that was ever acknowledged is among them, in
  the order of acknowledgement. The log opens for a further session when the event identifiers
  on it increase; otherwise opening fails on the identifiers.\<close>

theorem acknowledged_events_survive:
  assumes "log_laws L" "wc_max_event_storage_bytes cfg \<le> U64_MAX"
    and "run_history L cfg rid (Some disk) acked"
  shows "\<exists>es report log. recovered_events L disk (wc_encryption cfg) = Inr es \<and> subseq acked es
     \<and> map sequence es = [1..<Suc (length es)] \<and> (\<forall>e\<in>set es. run_id e = rid)
     \<and> (if ids_increase None es then open_event_log L cfg rid (Some disk) = Inr (report, log)
        else \<exists>err. open_event_log L cfg rid (Some disk) = Inl err
               \<and> category err \<in> {''duplicate_event_id'', ''invalid_event_id_order''})"
proof -
  obtain es where es: "disk_ok L cfg rid (Some disk) es" "subseq acked es"
    using run_history_disk_ok[OF assms(3,1,2)] by blast
  obtain report log where opens: "open_event_log L cfg rid (Some disk) = and_then (check_event_ids None es) (\<lambda>_. Inr (report, log))"
    using disk_ok_opens[OF es(1) assms(1,2)] by metis
  have "if ids_increase None es then open_event_log L cfg rid (Some disk) = Inr (report, log)
        else \<exists>err. open_event_log L cfg rid (Some disk) = Inl err
               \<and> category err \<in> {''duplicate_event_id'', ''invalid_event_id_order''}"
    using opens check_event_ids_ok[of None es] check_event_ids_error[of None es]
    by (cases "check_event_ids None es") auto
  then show ?thesis
    using disk_ok_recovered(2)[OF es(1) assms(1) refl] disk_ok_sequences[OF es(1) assms(1)] es(2) by blast
qed

text \<open>C32: The event log never outgrows its budget, whatever the faults and crashes: the bytes on disk,
  an incomplete last record included, stay within the configured maximum.\<close>

theorem event_storage_bounded:
  assumes "log_laws L" "wc_max_event_storage_bytes cfg \<le> U64_MAX"
    and "run_history L cfg rid (Some disk) acked"
  shows "length disk \<le> wc_max_event_storage_bytes cfg"
  using run_history_disk_ok[OF assms(3,1,2)] by (auto simp: disk_ok_def holds_log_def holds_header_def)

lemma number_events_id: "e \<in> set (number_events env n ps) \<Longrightarrow> event_id e = we_uuid env (sequence e)"
  by (induction ps arbitrary: n) (auto simp: from_pending_def)

text \<open>The identifiers of the events on disk and of those acknowledged after them do not increase when
  the clock has been set back in between.\<close>

lemma set_back_ids:
  assumes "disk_ok L cfg rid (Some disk') es'" "log_laws L" "prefix (es @ acked) es'" "es \<noteq> []" "acked \<noteq> []"
    and "set acked \<subseteq> set (number_events env n ps)" "we_uuid env (Suc (length es)) \<le> event_id (last es)"
  shows "\<not> ids_increase None es'"
proof -
  let ?e = "hd acked"
  obtain rest where es': "es' = es @ ?e # rest"
    using assms(3,5) by (cases acked) (auto simp: prefix_def)
  have "sequence (es' ! length es) = map sequence es' ! length es" using es' by (simp add: nth_append)
  also have "\<dots> = [1..<Suc (length es')] ! length es" using disk_ok_sequences(1)[OF assms(1,2)] by (rule arg_cong)
  also have "\<dots> = Suc (length es)" using es' by (simp del: upt_Suc)
  finally have "sequence ?e = Suc (length es)" using es' by simp
  moreover have "?e \<in> set (number_events env n ps)" using assms(5,6) hd_in_set by blast
  ultimately have "event_id ?e = we_uuid env (Suc (length es))" using number_events_id by metis
  then show ?thesis using assms(4,7) es' by (simp add: ids_increase_append)
qed

text \<open>C33: A clock set back between two sessions closes the log. When the first identifier of a session
  is not greater than the last one on disk, an event the session acknowledges leaves a log on
  which recovery still finds it, but on which opening for a further session fails.\<close>

theorem clock_set_back_closes_log:
  assumes "log_laws L" "wc_max_event_storage_bytes cfg \<le> U64_MAX" "run_history L cfg rid disk acked"
    and "open_event_log L cfg rid disk = Inr (recovery, log)" "length (disk_events L cfg disk) < U64_MAX"
    and "\<forall>n. length (we_nonce env n) = 24" "\<forall>p\<in>set (queue_events None queue). pe_run_id p = rid"
    and "w = start_writer recovery log write_faults sync_faults"
    and "writer_loop L env cfg locked w queue = (final, replies, w')" "crash_image (ws_file w') disk'"
    and "disk_events L cfg disk \<noteq> []" "we_uuid env (ws_sequence w) \<le> event_id (last (disk_events L cfg disk))"
    and "acknowledged_events env (ws_sequence w) queue replies \<noteq> []"
  shows "\<exists>es err. recovered_events L disk' (wc_encryption cfg) = Inr es
     \<and> prefix (disk_events L cfg disk @ acknowledged_events env (ws_sequence w) queue replies) es
     \<and> open_event_log L cfg rid (Some disk') = Inl err
     \<and> category err \<in> {''duplicate_event_id'', ''invalid_event_id_order''}"
proof -
  let ?acked = "acknowledged_events env (ws_sequence w) queue replies"
  obtain es where es: "disk_ok L cfg rid disk es" using run_history_disk_ok[OF assms(3,1,2)] by blast
  note known = disk_ok_recovered(1)[OF es assms(1)]
  obtain rs where rs: "log_events rs = es" "writer_start L cfg rs w"
    using opened_log_starts[OF es assms(1,2,4)] assms(5,8) known by auto
  have ok: "\<forall>e\<in>set (log_events rs). run_id e = rid" using es rs(1) by (simp add: disk_ok_def)
  obtain es' where es': "disk_ok L cfg rid (Some disk') es'" "prefix (es @ ?acked) es'"
    using session_disk_ok[OF rs(2) ok assms(6,7,9,10)] rs(1) by metis
  have "ws_sequence w = Suc (length es)" using writer_start_sequence[OF rs(2)] rs(1) by simp
  moreover have "set ?acked \<subseteq> set (number_events env (ws_sequence w) (queue_events None queue))"
    by (auto simp: acknowledged_events_def)
  ultimately have "\<not> ids_increase None es'"
    using set_back_ids[OF es'(1) assms(1) es'(2)] assms(11-13) known by simp
  then obtain err where err: "check_event_ids None es' = Inl err"
    using check_event_ids_ok[of None es'] by (cases "check_event_ids None es'") auto
  obtain report log' where "open_event_log L cfg rid (Some disk') = and_then (check_event_ids None es') (\<lambda>_. Inr (report, log'))"
    using disk_ok_opens[OF es'(1) assms(1,2)] by metis
  then show ?thesis
    using err check_event_ids_error[OF err] disk_ok_recovered(2)[OF es'(1) assms(1) refl] es'(2) known by simp
qed

section \<open>Sessions for witnesses\<close>

text \<open>A session of two appends in which the second write stops after two bytes.\<close>

definition demo_config :: writer_config where
  "demo_config = \<lparr>wc_max_event_storage_bytes = 100, wc_encryption = None, wc_format = Jsonl\<rparr>"

definition demo_env :: writer_env where
  "demo_env = \<lparr>we_uuid = (\<lambda>n. n), we_nonce = (\<lambda>_. demo_nonce)\<rparr>"

abbreviation demo_pending :: pending_event where
  "demo_pending \<equiv> new_pending_event 0 ''r'' ''proxy'' ''request''"

definition demo_queue :: command_queue where
  "demo_queue = [(CAppend demo_pending, False), (CAppend demo_pending, False)]"

definition demo_lines :: "('x) log_codecs_scheme \<Rightarrow> bool" where
  "demo_lines L \<longleftrightarrow> log_laws L \<and> (\<forall>nonce. encode_envelope L nonce (demo_event 1) None = Inr ''{1}''
     \<and> encode_envelope L nonce (demo_event 2) None = Inr ''{2}'')"

lemma demo_log_lines: "demo_lines demo_log"
  using demo_plain_lines by (simp add: demo_lines_def encode_envelope_eq event_limits)

definition demo_report :: recovery_report where
  "demo_report = \<lparr>valid_events = 0, last_sequence = 0, valid_bytes = 0, discarded_tail_bytes = 0, quarantine = None\<rparr>"

lemmas run_writer_simps = writer_loop_def writer_commands.simps demo_config_def demo_env_def start_writer_def
  detect_event_log_format_def append_batch_def append_jsonl_records_def append_record_def write_all_def sync_data_def
  U64_MAX_def checked_add_def ok_or_def wrapping_add_def saturating_add_def u64_of_usize_def Let_def

lemma demo_session:
  assumes "demo_lines L"
  shows "\<exists>final w'. writer_loop L demo_env demo_config True (start_writer demo_report None [None, None, Some 2] []) demo_queue
     = (final, [RAppend (Inr 1), RAppend (Inl (SIo (IoError Other ''write failed'')))], w')
     \<and> ef_contents (ws_file w') = ''{1}'' @ [newline] @ ''{2'' \<and> ef_synced (ws_file w') = 4"
proof -
  have ev: "from_pending n n demo_pending = demo_event n" for n by (simp add: demo_event_def)
  have lines: "encode_envelope L nonce (demo_event 1) None = Inr ''{1}''" "encode_envelope L nonce (demo_event 2) None = Inr ''{2}''" for nonce
    using assms by (simp_all add: demo_lines_def)
  show ?thesis
    using lines lines(2)[unfolded numeral_2_eq_2] by (simp add: run_writer_simps demo_queue_def demo_report_def ev)
qed

lemma demo_history:
  assumes "demo_lines L"
  shows "run_history L demo_config ''r'' (Some (''{1}'' @ [newline] @ ''{2'')) [demo_event 1]"
proof -
  obtain final w' where loop: "writer_loop L demo_env demo_config True (start_writer demo_report None [None, None, Some 2] [])
      demo_queue = (final, [RAppend (Inr 1), RAppend (Inl (SIo (IoError Other ''write failed'')))], w')"
    and image: "ef_contents (ws_file w') = ''{1}'' @ [newline] @ ''{2''" "ef_synced (ws_file w') = 4"
    using demo_session[OF assms] by blast
  have "run_history L demo_config ''r'' (Some (''{1}'' @ [newline] @ ''{2''))
      ([] @ acknowledged_events demo_env (ws_sequence (start_writer demo_report None [None, None, Some 2] [])) demo_queue
        [RAppend (Inr 1), RAppend (Inl (SIo (IoError Other ''write failed'')))])"
  proof (rule session[OF created _ _ _ _ refl loop])
    show "open_event_log L demo_config ''r'' None = Inr (demo_report, None)"
      by (simp add: open_event_log_def detect_event_log_format_def recover_events_with_key_def demo_report_def)
    show "crash_image (ws_file w') (''{1}'' @ [newline] @ ''{2'')" using image by (simp add: crash_image_def)
  qed (simp_all add: disk_events_def demo_env_def demo_nonce_def demo_queue_def new_pending_event_def U64_MAX_def)
  moreover have "acknowledged_events demo_env 1 demo_queue
      [RAppend (Inr 1), RAppend (Inl (SIo (IoError Other ''write failed'')))] = [demo_event 1]"
    by (simp add: acknowledged_events_def demo_queue_def demo_env_def demo_event_def)
  ultimately show ?thesis by (simp add: start_writer_def demo_report_def U64_MAX_def)
qed

lemma demo_config_bound: "wc_max_event_storage_bytes demo_config \<le> U64_MAX"
  by (simp add: demo_config_def U64_MAX_def)

lemma one_line_log:
  assumes "log_laws L" "\<forall>nonce. encode_envelope L nonce e None = Inr ''{1}''" "sequence e = 1"
  shows "good_log L Jsonl None [([e], ''{1}'')]" "log_image Jsonl [([e], ''{1}'')] = ''{1}'' @ [newline]"
proof -
  have "phys_record L Jsonl None ([e], ''{1}'')"
    using assms(2) by (auto simp: phys_record_def intro!: exI[of _ demo_nonce]) (simp add: demo_nonce_def)
  then show "good_log L Jsonl None [([e], ''{1}'')]" "log_image Jsonl [([e], ''{1}'')] = ''{1}'' @ [newline]"
    using assms by (simp_all add: good_log_def log_image_def log_header_def phys_frame_def U64_MAX_def)
qed

lemma demo_torn_line: "torn Jsonl ''{2''"
  by (simp add: torn_def record_limit_def event_limits)

theorem acknowledged_events_survive_witness:
  "run_history demo_log demo_config ''r'' (Some (''{1}'' @ [newline] @ ''{2'')) [demo_event 1]
   \<and> recovered_events demo_log (''{1}'' @ [newline] @ ''{2'') None = Inr [demo_event 1]
   \<and> (\<exists>report log. open_event_log demo_log demo_config ''r'' (Some (''{1}'' @ [newline] @ ''{2'')) = Inr (report, log))"
proof -
  have "\<forall>nonce. encode_envelope demo_log nonce (demo_event 1) None = Inr ''{1}''" using demo_log_lines by (simp add: demo_lines_def)
  note line = one_line_log[OF demo_log_laws this]
  have "recovered_events demo_log (''{1}'' @ [newline] @ ''{2'') None = Inr [demo_event 1]"
    using recovered_log_image[OF line(1) demo_torn_line] line(2) by simp
  then show ?thesis
    using acknowledged_events_survive[OF demo_log_laws demo_config_bound demo_history[OF demo_log_lines]] demo_history[OF demo_log_lines]
    by (auto simp: demo_config_def)
qed

theorem event_storage_bounded_witness:
  "run_history demo_log demo_config ''r'' (Some (''{1}'' @ [newline] @ ''{2'')) [demo_event 1]
   \<and> length (''{1}'' @ [newline] @ ''{2'') \<le> wc_max_event_storage_bytes demo_config"
  using event_storage_bounded[OF demo_log_laws demo_config_bound demo_history[OF demo_log_lines]] demo_history[OF demo_log_lines]
  by simp

text \<open>Two sessions between which the clock was set back: the first gives its event the identifier 3,
  the second the identifier 2.\<close>

definition demo_early :: event_envelope where
  "demo_early = from_pending 3 1 demo_pending"

lemma demo_early_simps [simp]: "sequence demo_early = 1" "event_id demo_early = 3" "run_id demo_early = ''r''"
  by (simp_all add: demo_early_def from_pending_def new_pending_event_def)

definition demo_clock :: log_codecs where
  "demo_clock = demo_log\<lparr>event_to_vec := map_of [(demo_early, ''{1}''), (demo_event 2, ''{2}'')],
     event_from_slice := (\<lambda>bs. map_of [(''{1}'', demo_early), (''{2}'', demo_event 2)] (strip_suffix_or newline bs))\<rparr>"

lemma demo_clock_laws: "log_laws demo_clock"
proof -
  have "sha256_law demo_clock" "hex_law demo_clock" "base64_law demo_clock" "aead_law demo_clock" "zstd_law demo_clock"
      "encrypted_event_law demo_clock" "block_json_law demo_clock"
    using log_lawsD[OF demo_log_laws]
    by (simp_all add: demo_clock_def sha256_law_def hex_law_def base64_law_def aead_law_def zstd_law_def encrypted_event_law_def block_json_law_def)
  moreover have "event_json_law demo_clock"
    by (auto simp: event_json_law_def demo_clock_def demo_log_fields demo_codecs_json demo_value_def json_get_def starts_with_def
          demo_early_def from_pending_def new_pending_event_def split: if_splits)
  moreover have "json_whitespace_law demo_clock"
    using log_lawsD[OF demo_log_laws] by (simp add: json_whitespace_law_def demo_clock_def)
  ultimately show ?thesis by (simp add: log_laws_def)
qed

lemma demo_clock_lines:
  "encode_envelope demo_clock nonce demo_early None = Inr ''{1}''" "encode_envelope demo_clock nonce (demo_event 2) None = Inr ''{2}''"
proof -
  have "validate_envelope demo_clock demo_early = Inr ()" "validate_envelope demo_clock (demo_event 2) = Inr ()"
    by (simp_all add: validate_envelope_def demo_event_def demo_early_def from_pending_def new_pending_event_def demo_clock_def
          demo_log_fields demo_crates_def SCHEMA_VERSION_def validate_text_def validate_event_ids_def
          validate_optional_text_def default_event_ids_def validate_text_list_def byte_val_def)
  moreover have "event_to_vec demo_clock demo_early = Some ''{1}''" "event_to_vec demo_clock (demo_event 2) = Some ''{2}''"
    by (simp_all add: demo_clock_def demo_early_def demo_event_def from_pending_def)
  ultimately show "encode_envelope demo_clock nonce demo_early None = Inr ''{1}''"
    "encode_envelope demo_clock nonce (demo_event 2) None = Inr ''{2}''"
    by (simp_all add: encode_envelope_eq encode_plaintext_eq demo_line_complexity event_limits)
qed

definition demo_clock_env :: "uuid \<Rightarrow> writer_env" where
  "demo_clock_env x = \<lparr>we_uuid = (\<lambda>_. x), we_nonce = (\<lambda>_. demo_nonce)\<rparr>"

abbreviation demo_append :: command_queue where
  "demo_append \<equiv> [(CAppend demo_pending, False)]"

definition demo_second_report :: recovery_report where
  "demo_second_report = \<lparr>valid_events = 1, last_sequence = 1, valid_bytes = 4, discarded_tail_bytes = 0, quarantine = None\<rparr>"

lemma demo_clock_sessions:
  "\<exists>final w'. writer_loop demo_clock (demo_clock_env 3) demo_config True (start_writer demo_report None [] []) demo_append
     = (final, [RAppend (Inr 1)], w') \<and> crash_image (ws_file w') (''{1}'' @ [newline])"
  "\<exists>final w'. writer_loop demo_clock (demo_clock_env 2) demo_config True
       (start_writer demo_second_report (Some (''{1}'' @ [newline])) [] []) demo_append
     = (final, [RAppend (Inr 2)], w') \<and> crash_image (ws_file w') (''{1}'' @ [newline] @ ''{2}'' @ [newline])"
proof -
  have ev: "from_pending 3 1 demo_pending = demo_early" "from_pending 3 (Suc 0) demo_pending = demo_early"
      "from_pending 2 2 demo_pending = demo_event 2"
    by (simp_all add: demo_early_def demo_event_def)
  show "\<exists>final w'. writer_loop demo_clock (demo_clock_env 3) demo_config True (start_writer demo_report None [] []) demo_append
     = (final, [RAppend (Inr 1)], w') \<and> crash_image (ws_file w') (''{1}'' @ [newline])"
    using demo_clock_lines(1) by (simp add: run_writer_simps demo_report_def demo_clock_env_def ev crash_image_def)
  show "\<exists>final w'. writer_loop demo_clock (demo_clock_env 2) demo_config True
       (start_writer demo_second_report (Some (''{1}'' @ [newline])) [] []) demo_append
     = (final, [RAppend (Inr 2)], w') \<and> crash_image (ws_file w') (''{1}'' @ [newline] @ ''{2}'' @ [newline])"
    using demo_clock_lines(2)
    by (simp add: run_writer_simps demo_second_report_def demo_clock_env_def ev crash_image_def starts_with_def EVENT_BLOCK_HEADER_def
          numeral_2_eq_2[symmetric])
qed

lemma demo_clock_first:
  "run_history demo_clock demo_config ''r'' (Some (''{1}'' @ [newline])) [demo_early]"
  "open_event_log demo_clock demo_config ''r'' (Some (''{1}'' @ [newline])) = Inr (demo_second_report, Some (''{1}'' @ [newline]))"
  "disk_events demo_clock demo_config (Some (''{1}'' @ [newline])) = [demo_early]"
proof -
  have "\<forall>nonce. encode_envelope demo_clock nonce demo_early None = Inr ''{1}''" using demo_clock_lines by simp
  note line = one_line_log[OF demo_clock_laws this demo_early_simps(1)]
  show "open_event_log demo_clock demo_config ''r'' (Some (''{1}'' @ [newline])) = Inr (demo_second_report, Some (''{1}'' @ [newline]))"
    using open_log_image[of demo_clock demo_config "[([demo_early], ''{1}'')]" "[]" "''r''"] line
    by (simp add: demo_config_def demo_second_report_def check_event_id_def)
  show "disk_events demo_clock demo_config (Some (''{1}'' @ [newline])) = [demo_early]"
    using recovered_log_image[OF line(1) torn_Nil] line(2) by (simp add: disk_events_def demo_config_def)
  obtain final w' where w': "writer_loop demo_clock (demo_clock_env 3) demo_config True (start_writer demo_report None [] []) demo_append
     = (final, [RAppend (Inr 1)], w')" "crash_image (ws_file w') (''{1}'' @ [newline])"
    using demo_clock_sessions(1) by blast
  have "run_history demo_clock demo_config ''r'' (Some (''{1}'' @ [newline]))
      ([] @ acknowledged_events (demo_clock_env 3) (ws_sequence (start_writer demo_report None [] [])) demo_append [RAppend (Inr 1)])"
  proof (rule session[OF created _ _ _ _ refl w'])
    show "open_event_log demo_clock demo_config ''r'' None = Inr (demo_report, None)"
      by (simp add: open_event_log_def detect_event_log_format_def recover_events_with_key_def demo_report_def)
  qed (simp_all add: disk_events_def demo_clock_env_def demo_nonce_def new_pending_event_def U64_MAX_def)
  moreover have "acknowledged_events (demo_clock_env 3) 1 demo_append [RAppend (Inr 1)] = [demo_early]"
    by (simp add: acknowledged_events_def demo_clock_env_def) (simp add: demo_early_def)
  ultimately show "run_history demo_clock demo_config ''r'' (Some (''{1}'' @ [newline])) [demo_early]"
    by (simp add: start_writer_def demo_report_def U64_MAX_def)
qed

theorem clock_set_back_closes_log_witness:
  "run_history demo_clock demo_config ''r'' (Some (''{1}'' @ [newline])) [demo_early]
   \<and> (\<exists>report. open_event_log demo_clock demo_config ''r'' (Some (''{1}'' @ [newline])) = Inr report)
   \<and> (\<exists>err. open_event_log demo_clock demo_config ''r'' (Some (''{1}'' @ [newline] @ ''{2}'' @ [newline])) = Inl err)"
proof -
  let ?w = "start_writer demo_second_report (Some (''{1}'' @ [newline])) [] []"
  obtain final w' where w': "writer_loop demo_clock (demo_clock_env 2) demo_config True ?w demo_append = (final, [RAppend (Inr 2)], w')"
      "crash_image (ws_file w') (''{1}'' @ [newline] @ ''{2}'' @ [newline])"
    using demo_clock_sessions(2) by blast
  have seq: "ws_sequence ?w = 2" by (simp add: start_writer_def demo_second_report_def U64_MAX_def)
  have "acknowledged_events (demo_clock_env 2) 2 demo_append [RAppend (Inr 2)] \<noteq> []"
    by (simp add: acknowledged_events_def)
  then have "\<exists>es err. recovered_events demo_clock (''{1}'' @ [newline] @ ''{2}'' @ [newline]) (wc_encryption demo_config) = Inr es
     \<and> prefix (disk_events demo_clock demo_config (Some (''{1}'' @ [newline]))
         @ acknowledged_events (demo_clock_env 2) (ws_sequence ?w) demo_append [RAppend (Inr 2)]) es
     \<and> open_event_log demo_clock demo_config ''r'' (Some (''{1}'' @ [newline] @ ''{2}'' @ [newline])) = Inl err
     \<and> category err \<in> {''duplicate_event_id'', ''invalid_event_id_order''}"
    using demo_clock_first(3) seq
    by (intro clock_set_back_closes_log[OF demo_clock_laws demo_config_bound demo_clock_first(1,2) _ _ _ refl w'])
      (simp_all add: demo_clock_env_def demo_nonce_def new_pending_event_def U64_MAX_def)
  then show ?thesis using demo_clock_first(1,2) by blast
qed

section \<open>Repair beside a running writer\<close>

text \<open>\<open>create_with_encryption\<close> repairs the log before its writer asks for \<open>.writer.lock\<close>, and
  \<open>repair_run_with_key\<close> of \<open>src/inspect.rs\<close> never asks for it. The two writes of a record are
  separate system calls on a file opened for appending, so a repair by another process can fall
  between them.\<close>

definition blank_line_law :: "('x) log_codecs_scheme \<Rightarrow> bool" where
  "blank_line_law L \<longleftrightarrow> event_from_slice L [newline] = None \<and> encrypted_event_from_slice L [newline] = None"

lemma blank_line_undecoded:
  assumes "blank_line_law L"
  shows "log_step L Jsonl enc s [newline] = Inl SJson"
proof -
  have "validate_stored_json_complexity [newline] = Inr ()"
    using validate_stored_newline[of "[]"]
    by (simp add: validate_stored_json_complexity_def validate_json_complexity_with_limits_def)
  then have "decode_event L [newline] enc = Inl SJson"
    using assms by (simp add: decode_event_def is_encrypted_event_def blank_line_law_def)
  then show ?thesis by (cases s) (simp add: log_step_def decode_line_def)
qed

lemma line_loop_frames:
  assumes "\<forall>r\<in>set rs. log_laws L \<and> phys_record L fmt enc r"
  shows "line_loop (record_limit fmt) too_large step s (concat (map phys_frame rs) @ rest) =
     and_then (try_fold (\<lambda>s r. step s (phys_frame r)) s rs) (\<lambda>s. line_loop (record_limit fmt) too_large step s rest)"
  using assms
proof (induction rs arbitrary: s)
  case (Cons r rs)
  have r: "log_laws L \<and> phys_record L fmt enc r" using Cons.prems by simp
  obtain l where l: "phys_frame r = l @ [newline]" "newline \<notin> set l" using event_frames.frame_line[OF r] by blast
  moreover have "length l < record_limit fmt" using l(1) event_frames.frame_limit[OF r] by simp
  ultimately show ?case using Cons by (simp add: line_loop_line and_then_assoc)
qed simp

lemma blank_line_unrecoverable:
  assumes "good_log L Jsonl enc rs" "blank_line_law L"
  shows "recover_events_with_key L (Some (log_image Jsonl rs @ [newline])) repair enc = Inl SJson"
proof -
  have good: "\<forall>r\<in>set rs. log_laws L \<and> phys_record L Jsonl enc r" and laws: "log_laws L"
    using assms(1) by (auto simp: good_log_def)
  have "starts_with (log_image Jsonl rs @ [newline]) ''{'' \<or> rs = []"
  proof (cases rs)
    case (Cons r rs')
    then have "starts_with (phys_frame r) ''{''" using good jsonl_record_brace[of L enc r] by simp
    then show ?thesis using Cons by (auto simp: log_image_def log_header_def starts_with_iff)
  qed simp
  then have "\<not> starts_with EVENT_BLOCK_HEADER (take (length EVENT_BLOCK_HEADER) (log_image Jsonl rs @ [newline]))"
  proof
    assume "rs = []"
    then show ?thesis by (simp add: log_image_def log_header_def starts_with_def EVENT_BLOCK_HEADER_def)
  qed (rule brace_not_header)
  then have jsonl: "unwrap_format (detect_event_log_format (Some (log_image Jsonl rs @ [newline]))) = Jsonl"
    by (simp add: detect_event_log_format_def unwrap_format_def)
  obtain s where s: "try_fold (\<lambda>s r. log_step L Jsonl enc s (phys_frame r)) (0, 0, 0) rs = Inr s"
    using log_steps[OF laws, of rs Jsonl enc 0 0] assms(1) by (auto simp: good_log_def log_image_def log_header_def)
  have "recover_jsonl_records L enc (log_image Jsonl rs @ [newline]) = Inl SJson"
  proof -
    have pos: "0 < record_limit Jsonl" by (simp add: record_limit_def event_limits)
    show ?thesis
      unfolding recover_jsonl_step log_image_def log_header_def event_log_format.case append_Nil line_loop_frames[OF good] s and_then_simps
      using line_loop_line[of "[]" "record_limit Jsonl", OF _ _, of _ "log_step L Jsonl enc" s "[]"] pos
        blank_line_undecoded[OF assms(2), of enc s] by simp
  qed
  then show ?thesis by (simp add: recover_events_with_key_def jsonl)
qed


definition demo_file :: event_file where
  "demo_file = \<lparr>ef_contents = ''{1}'' @ [newline], ef_synced = 4, ef_write_faults = [], ef_sync_faults = []\<rparr>"


end
