(* ===== verification/Blob_Keys.thy ===== *)
theory Blob_Keys
  imports Event_Codec Ordered_Maps
begin

text \<open>
  Per-class blob keys and blob names (\<open>src/blob_keys.rs\<close>): the key envelopes of a run
  directory, the erasure states of its retention directory, the names under which blobs are
  stored, and reading a blob by its reference. The run directory is explicit state; a directory
  is its files by name and whether it is private, and file operations on it are carried out.
\<close>

section \<open>Directories and files\<close>

record directory =
  d_private :: bool
  d_files :: "(str \<times> bytes) list"

record run_dir =
  rd_private :: bool
  rd_blobs :: "(str \<times> bytes) list"
  rd_keys :: "directory option"
  rd_retention :: "directory option"

text \<open>\<open>read_regular_limited\<close> of \<open>src/secure_fs.rs\<close>: at most \<open>limit + 1\<close> bytes are read, and one
  byte too many is an error.\<close>

definition read_regular_limited :: "bytes option \<Rightarrow> nat \<Rightarrow> io_error + bytes" where
  "read_regular_limited file limit =
     and_then (ok_or file (IoError NotFound ''No such file or directory'')) (\<lambda>contents.
     let bytes = take (limit + 1) contents in
     if length bytes > limit then Inl (IoError InvalidData ''file exceeds the byte limit'') else Inr bytes)"

definition require_private_directory :: "directory option \<Rightarrow> io_error + unit" where
  "require_private_directory d =
     (case d of
        None \<Rightarrow> Inl (IoError NotFound ''No such file or directory'')
      | Some d \<Rightarrow> if \<not> d_private d then Inl (IoError PermissionDenied ''must be a private real directory'') else Inr ())"

section \<open>Blob classes\<close>

datatype blob_class = Body | Pcap | TlsSecrets

definition ALL_CLASSES :: "blob_class list" where "ALL_CLASSES = [Body, Pcap, TlsSecrets]"

fun as_class_str :: "blob_class \<Rightarrow> str" where
  "as_class_str Body = ''body''"
| "as_class_str Pcap = ''pcap''"
| "as_class_str TlsSecrets = ''tls_secrets''"

definition from_media_type :: "str option \<Rightarrow> blob_class" where
  "from_media_type media_type =
     (if media_type = Some ''application/vnd.tcpdump.pcap'' then Pcap
      else if media_type = Some ''application/x-nss-key-log'' then TlsSecrets
      else Body)"

definition parse_class :: "str \<Rightarrow> io_error + blob_class" where
  "parse_class s =
     (if s = ''body'' then Inr Body
      else if s = ''pcap'' then Inr Pcap
      else if s = ''tls_secrets'' then Inr TlsSecrets
      else Inl (IoError InvalidData ''unsupported blob retention class''))"

record blob_keyring =
  kr_body :: encryption_key
  kr_pcap :: encryption_key
  kr_tls_secrets :: encryption_key

fun ring_key :: "blob_keyring \<Rightarrow> blob_class \<Rightarrow> encryption_key" where
  "ring_key r Body = kr_body r"
| "ring_key r Pcap = kr_pcap r"
| "ring_key r TlsSecrets = kr_tls_secrets r"

definition MAX_WRAPPED_KEY_BYTES :: nat where "MAX_WRAPPED_KEY_BYTES = 1024"
definition MAX_RETENTION_STATE_BYTES :: nat where "MAX_RETENTION_STATE_BYTES = 64 * 1024"
definition ENCRYPTED_BLOB_OVERHEAD_BYTES :: nat where "ENCRYPTED_BLOB_OVERHEAD_BYTES = 8 + 24 + 16"

section \<open>Names\<close>

definition validate_hash :: "str \<Rightarrow> io_error + unit" where
  "validate_hash hash =
     (if length hash \<noteq> 64 \<or> \<not> list_all is_lower_hex hash
      then Inl (IoError InvalidData ''blob SHA-256 is invalid'') else Inr ())"

definition blob_file_name :: "str \<Rightarrow> blob_class option \<Rightarrow> io_error + str" where
  "blob_file_name hash class =
     and_then (validate_hash hash) (\<lambda>_.
     Inr (case class of None \<Rightarrow> ''sha256-'' @ hash | Some c \<Rightarrow> as_class_str c @ ''-sha256-'' @ hash))"

fun parse_class_names :: "blob_class list \<Rightarrow> str \<Rightarrow> io_error + blob_class option \<times> str" where
  "parse_class_names [] name = Inl (IoError InvalidData ''blob file name is not recognized'')"
| "parse_class_names (c # cs) name =
     (case strip_prefix (as_class_str c @ ''-sha256-'') name of
        Some hash \<Rightarrow> and_then (validate_hash hash) (\<lambda>_. Inr (Some c, hash))
      | None \<Rightarrow> parse_class_names cs name)"

definition parse_blob_file_name :: "str \<Rightarrow> io_error + blob_class option \<times> str" where
  "parse_blob_file_name name =
     (case strip_prefix ''sha256-'' name of
        Some hash \<Rightarrow> and_then (validate_hash hash) (\<lambda>_. Inr (None, hash))
      | None \<Rightarrow> parse_class_names ALL_CLASSES name)"

definition file_identity :: "blob_class option \<Rightarrow> str \<Rightarrow> str" where
  "file_identity class hash =
     (case class of None \<Rightarrow> ''sha256:'' @ hash | Some c \<Rightarrow> as_class_str c @ '':sha256:'' @ hash)"

definition identity_class :: "str \<Rightarrow> blob_class option" where
  "identity_class identity =
     find (\<lambda>c. case strip_prefix (as_class_str c) identity of
                 None \<Rightarrow> False | Some rest \<Rightarrow> starts_with rest '':sha256:'') ALL_CLASSES"

definition envelope_file_name :: "blob_class \<Rightarrow> str" where
  "envelope_file_name c = as_class_str c @ ''.key.enc''"

definition erasure_state_name :: "blob_class \<Rightarrow> str" where
  "erasure_state_name c = as_class_str c @ ''.state.enc''"

definition envelope_sha256 :: "('x) crates_scheme \<Rightarrow> bytes \<Rightarrow> str" where
  "envelope_sha256 L encoded = ''sha256:'' @ hex_encode L (sha256 L encoded)"

section \<open>Erasure states\<close>

datatype class_erasure_phase = Intent | Completed

record class_erasure_state =
  es_schema_version :: nat
  es_class :: blob_class
  es_phase :: class_erasure_phase
  es_operation_id :: uuid
  es_envelope_sha256 :: str
  es_blob_files :: nat
  es_blob_storage_bytes :: nat
  es_requested_at :: int
  es_completed_at :: "int option"

text \<open>The JSON codec of the erasure state, derived by \<open>serde\<close>.\<close>

record run_codecs = log_codecs +
  erasure_to_vec :: "class_erasure_state \<Rightarrow> bytes option"
  erasure_from_slice :: "bytes \<Rightarrow> class_erasure_state option"

definition erasure_json_law :: "('x) run_codecs_scheme \<Rightarrow> bool" where
  "erasure_json_law L \<longleftrightarrow> (\<forall>s bs. erasure_to_vec L s = Some bs \<longrightarrow>
     erasure_from_slice L bs = Some s \<and> length bs \<le> 4096)"

definition validate_erasure_state :: "class_erasure_state \<Rightarrow> blob_class \<Rightarrow> io_error + unit" where
  "validate_erasure_state s c =
     and_then (ok_or (strip_prefix ''sha256:'' (es_envelope_sha256 s))
                 (IoError InvalidData ''invalid envelope SHA-256'')) (\<lambda>envelope_hash.
     let timestamp_consistent =
           (case (es_phase s, es_completed_at s) of
              (Intent, None) \<Rightarrow> True
            | (Completed, Some completed) \<Rightarrow> completed \<ge> es_requested_at s
            | _ \<Rightarrow> False) in
     if es_schema_version s \<noteq> 1 \<or> es_class s \<noteq> c \<or> es_operation_id s = 0
        \<or> \<not> timestamp_consistent \<or> \<not> is_ok (validate_hash envelope_hash)
     then Inl (IoError InvalidData ''retention state is inconsistent'') else Inr ())"

definition dir_file :: "directory option \<Rightarrow> str \<Rightarrow> bytes option" where
  "dir_file d name = (case d of None \<Rightarrow> None | Some d \<Rightarrow> map_of (d_files d) name)"

definition read_erasure_state ::
  "('x) run_codecs_scheme \<Rightarrow> run_dir \<Rightarrow> encryption_key \<Rightarrow> blob_class \<Rightarrow> io_error + class_erasure_state option" where
  "read_erasure_state L rd run_key c =
     (case read_regular_limited (dir_file (rd_retention rd) (erasure_state_name c)) MAX_RETENTION_STATE_BYTES of
        Inl err \<Rightarrow> if io_error_kind err = NotFound then Inr None else Inl err
      | Inr encoded \<Rightarrow>
          and_then (decrypt_retention_state L run_key encoded) (\<lambda>plaintext.
          and_then (ok_or (erasure_from_slice L plaintext) (IoError InvalidData ''json'')) (\<lambda>state.
          and_then (validate_erasure_state state c) (\<lambda>_.
          Inr (Some state)))))"

definition write_erasure_state ::
  "('x) run_codecs_scheme \<Rightarrow> bytes \<Rightarrow> run_dir \<Rightarrow> encryption_key \<Rightarrow> class_erasure_state \<Rightarrow> io_error + run_dir" where
  "write_erasure_state L nonce rd run_key state =
     and_then (validate_erasure_state state (es_class state)) (\<lambda>_.
     let retention = (case rd_retention rd of
           None \<Rightarrow> \<lparr>d_private = True, d_files = []\<rparr> | Some d \<Rightarrow> d) in
     and_then (require_private_directory (Some retention)) (\<lambda>_.
     and_then (ok_or (erasure_to_vec L state) (IoError InvalidData ''json'')) (\<lambda>plaintext.
     and_then (encrypt_retention_state L nonce run_key plaintext) (\<lambda>encoded.
     Inr (rd\<lparr>rd_retention := Some (retention\<lparr>d_files :=
       bt_insert (erasure_state_name (es_class state)) encoded (d_files retention)\<rparr>)\<rparr>)))))"

section \<open>Class keys\<close>

definition has_keyring :: "run_dir \<Rightarrow> io_error + bool" where
  "has_keyring rd =
     (case rd_keys rd of
        None \<Rightarrow> Inr False
      | Some d \<Rightarrow> and_then (require_private_directory (Some d)) (\<lambda>_. Inr True))"

definition load_class_key ::
  "('x) run_codecs_scheme \<Rightarrow> run_dir \<Rightarrow> encryption_key \<Rightarrow> blob_class \<Rightarrow> io_error + encryption_key option" where
  "load_class_key L rd run_key c =
     and_then (has_keyring rd) (\<lambda>present.
     if \<not> present then Inr None
     else
     and_then (require_private_directory (rd_keys rd)) (\<lambda>_.
     case read_regular_limited (dir_file (rd_keys rd) (envelope_file_name c)) MAX_WRAPPED_KEY_BYTES of
       Inr encoded \<Rightarrow> and_then (unwrap_data_key L run_key encoded (as_class_str c)) (\<lambda>k. Inr (Some k))
     | Inl err \<Rightarrow>
         if io_error_kind err = NotFound then
           and_then (read_erasure_state L rd run_key c) (\<lambda>state.
           if state \<noteq> None
           then Inl (IoError NotFound ''blob class was cryptographically erased'')
           else Inl (IoError InvalidData ''blob class key envelope is missing''))
         else Inl err))"

definition require_active_key :: "encryption_key option \<Rightarrow> io_error + encryption_key" where
  "require_active_key k = ok_or k (IoError InvalidData ''class key cannot be loaded from a legacy run'')"

definition load_keyring ::
  "('x) run_codecs_scheme \<Rightarrow> run_dir \<Rightarrow> encryption_key \<Rightarrow> io_error + blob_keyring" where
  "load_keyring L rd run_key =
     and_then (load_class_key L rd run_key Body) (\<lambda>b. and_then (require_active_key b) (\<lambda>body.
     and_then (load_class_key L rd run_key Pcap) (\<lambda>p. and_then (require_active_key p) (\<lambda>pcap.
     and_then (load_class_key L rd run_key TlsSecrets) (\<lambda>t. and_then (require_active_key t) (\<lambda>tls_secrets.
     Inr \<lparr>kr_body = body, kr_pcap = pcap, kr_tls_secrets = tls_secrets\<rparr>))))))"

text \<open>The loop of \<open>initialize_keyring\<close>; fresh key bytes and nonces are those of the environment.
  The files are written into a temporary directory, which is then renamed.\<close>

fun wrap_class_keys ::
  "('x) crates_scheme \<Rightarrow> (blob_class \<Rightarrow> bytes \<times> bytes) \<Rightarrow> encryption_key \<Rightarrow> blob_class list
   \<Rightarrow> (str \<times> bytes) list \<Rightarrow> io_error + (str \<times> bytes) list" where
  "wrap_class_keys L fresh run_key [] files = Inr files"
| "wrap_class_keys L fresh run_key (c # cs) files =
     and_then (generate_wrapped_data_key L (fst (fresh c)) (snd (fresh c)) run_key (as_class_str c)) (\<lambda>(_, wrapped).
     wrap_class_keys L fresh run_key cs (bt_insert (envelope_file_name c) wrapped files))"

definition initialize_keyring ::
  "('x) crates_scheme \<Rightarrow> (blob_class \<Rightarrow> bytes \<times> bytes) \<Rightarrow> run_dir \<Rightarrow> encryption_key \<Rightarrow> io_error + run_dir" where
  "initialize_keyring L fresh rd run_key =
     and_then (require_private_directory (Some \<lparr>d_private = rd_private rd, d_files = []\<rparr>)) (\<lambda>_.
     and_then (wrap_class_keys L fresh run_key ALL_CLASSES []) (\<lambda>files.
     if rd_keys rd \<noteq> None then Inl (IoError AlreadyExists ''File exists'')
     else Inr (rd\<lparr>rd_keys := Some \<lparr>d_private = True, d_files = files\<rparr>\<rparr>)))"

definition prepare_for_writer ::
  "('x) run_codecs_scheme \<Rightarrow> (blob_class \<Rightarrow> bytes \<times> bytes) \<Rightarrow> run_dir \<Rightarrow> encryption_key option \<Rightarrow> bool
   \<Rightarrow> io_error + blob_keyring option \<times> run_dir" where
  "prepare_for_writer L fresh rd run_key has_legacy_data =
     (case run_key of
        None \<Rightarrow> Inr (None, rd)
      | Some k \<Rightarrow>
          and_then (has_keyring rd) (\<lambda>present.
          if present then and_then (load_keyring L rd k) (\<lambda>ring. Inr (Some ring, rd))
          else if has_legacy_data then Inr (None, rd)
          else
          and_then (initialize_keyring L fresh rd k) (\<lambda>rd'.
          and_then (load_keyring L rd' k) (\<lambda>ring. Inr (Some ring, rd')))))"

section \<open>Reading a blob\<close>

definition reference_identity :: "run_dir \<Rightarrow> payload_ref \<Rightarrow> io_error + str" where
  "reference_identity rd r =
     and_then (has_keyring rd) (\<lambda>keyed.
     Inr (if keyed then as_class_str (from_media_type (pr_media_type r)) @ '':'' @ pr_sha256 r else pr_sha256 r))"

definition blob_path :: "run_dir \<Rightarrow> payload_ref \<Rightarrow> io_error + str" where
  "blob_path rd r =
     and_then (ok_or (strip_prefix ''sha256:'' (pr_sha256 r))
                 (IoError InvalidData ''blob reference has no SHA-256 prefix'')) (\<lambda>hash.
     and_then (has_keyring rd) (\<lambda>keyed.
     blob_file_name hash (if keyed then Some (from_media_type (pr_media_type r)) else None)))"

definition read_blob_reference ::
  "('x) run_codecs_scheme \<Rightarrow> run_dir \<Rightarrow> payload_ref \<Rightarrow> encryption_key option \<Rightarrow> nat \<Rightarrow> io_error + bytes" where
  "read_blob_reference L rd r run_key max_plaintext_bytes =
     and_then (ok_or (strip_prefix ''sha256:'' (pr_sha256 r))
                 (IoError InvalidData ''blob reference has no SHA-256 prefix'')) (\<lambda>hash.
     and_then (validate_hash hash) (\<lambda>_.
     if pr_size r > max_plaintext_bytes
     then Inl (IoError InvalidData ''blob reference exceeds the caller safety limit'')
     else
     and_then (has_keyring rd) (\<lambda>class_keyed.
     and_then (blob_file_name hash
                 (if class_keyed then Some (from_media_type (pr_media_type r)) else None)) (\<lambda>name.
     and_then (ok_or (checked_add (pr_size r) ENCRYPTED_BLOB_OVERHEAD_BYTES)
                 (IoError InvalidData ''blob size overflows usize'')) (\<lambda>encoded_limit.
     and_then (read_regular_limited (map_of (rd_blobs rd) name) encoded_limit) (\<lambda>encoded.
     and_then
       (if is_encrypted_blob encoded then
          and_then (ok_or run_key (IoError PermissionDenied
                      ''encrypted blob requires the matching effective run key'')) (\<lambda>k.
          and_then
            (if class_keyed then
               and_then (load_class_key L rd k (from_media_type (pr_media_type r))) (\<lambda>ck.
               ok_or ck (IoError InvalidData ''class-keyed blob has no class encryption key''))
             else Inr k) (\<lambda>key.
          decrypt_blob L key encoded hash))
        else if class_keyed \<or> run_key \<noteq> None
        then Inl (IoError InvalidData ''plaintext blob found in an encrypted run'')
        else Inr encoded) (\<lambda>plaintext.
     if length plaintext \<noteq> pr_size r \<or> hex_encode L (sha256 L plaintext) \<noteq> hash
     then Inl (IoError InvalidData ''blob content does not match its reference'')
     else Inr plaintext)))))))"

section \<open>Properties of names\<close>

lemma strip_prefix_class: "strip_prefix (as_class_str c @ s) (as_class_str d @ t) = None"
  if "c \<noteq> d"
  using that by (cases c; cases d) simp_all

lemma strip_class_eq: "strip_prefix (as_class_str c @ s) (as_class_str c @ t) = strip_prefix s t"
  by (cases c) simp_all

lemma parse_class_name:
  assumes "validate_hash h = Inr ()" "c \<in> set cs"
  shows "parse_class_names cs (as_class_str c @ ''-sha256-'' @ h) = Inr (Some c, h)"
  using assms(2)
proof (induction cs)
  case (Cons d cs)
  then show ?case using assms(1)
    by (cases "c = d") (simp_all add: strip_class_eq strip_prefix_class)
qed simp

lemma parse_class_names_sound:
  "parse_class_names cs name = Inr (k, h) \<Longrightarrow>
     \<exists>c. k = Some c \<and> name = as_class_str c @ ''-sha256-'' @ h \<and> validate_hash h = Inr ()"
  by (induction cs) (auto simp: and_then_eq_Inr strip_prefix_Some split: option.splits)

lemma ALL_CLASSES_all [simp]: "c \<in> set ALL_CLASSES"
  by (cases c) (simp_all add: ALL_CLASSES_def)

text \<open>C28: Blob names are unambiguous. A name is produced exactly for a 64-digit hash, parses back to
  its class and hash, every name that parses is the one produced for what it parses to, and the
  identity of a blob tells its class.\<close>

theorem blob_names_roundtrip:
  "(blob_file_name h c = Inr name \<longleftrightarrow> parse_blob_file_name name = Inr (c, h))
   \<and> identity_class (file_identity c h) = c"
proof -
  have plain: "strip_prefix ''sha256-'' (as_class_str k @ t) = None" for k t by (cases k) simp_all
  have "blob_file_name h c = Inr name \<Longrightarrow> parse_blob_file_name name = Inr (c, h)"
    by (cases c) (auto simp: blob_file_name_def parse_blob_file_name_def and_then_eq_Inr plain
          parse_class_name[of _ _ ALL_CLASSES, simplified])
  moreover have "parse_blob_file_name name = Inr (c, h) \<Longrightarrow> blob_file_name h c = Inr name"
    by (auto simp: parse_blob_file_name_def blob_file_name_def and_then_eq_Inr strip_prefix_Some
          split: option.splits dest!: parse_class_names_sound)
  moreover have "identity_class (file_identity c h) = c"
  proof (cases c)
    case None
    then show ?thesis by (simp add: identity_class_def file_identity_def ALL_CLASSES_def)
  next
    case (Some k)
    then show ?thesis
      by (cases k) (simp_all add: identity_class_def file_identity_def ALL_CLASSES_def starts_with_def)
  qed
  ultimately show ?thesis by blast
qed

section \<open>Properties of keys\<close>

lemma has_keyring_cases:
  "has_keyring rd = Inr True \<longleftrightarrow> (\<exists>d. rd_keys rd = Some d \<and> d_private d)"
  "has_keyring rd = Inr False \<longleftrightarrow> rd_keys rd = None"
  by (auto simp: has_keyring_def require_private_directory_def split: option.splits)

lemma read_regular_limited_eq:
  "read_regular_limited (Some bs) limit = Inr x \<longleftrightarrow> x = bs \<and> length bs \<le> limit"
  by (auto simp: read_regular_limited_def Let_def)

lemma class_context [simp]: "validate_key_context (as_class_str c) = Inr ()"
  by (cases c) (simp_all add: validate_key_context_def is_ascii_lowercase_def in_byte_range_def byte_val_def)

lemma envelope_names [simp]: "envelope_file_name c = envelope_file_name d \<longleftrightarrow> c = d"
  by (cases c; cases d) (simp_all add: envelope_file_name_def)

lemma erasure_names [simp]: "erasure_state_name c = erasure_state_name d \<longleftrightarrow> c = d"
  by (cases c; cases d) (simp_all add: erasure_state_name_def)

text \<open>The key that unwraps from the envelope of a class.\<close>

lemma wrap_class_keys_files:
  assumes "aead_law L" "wrap_class_keys L fresh k cs files = Inr files'" "distinct cs"
    and "\<forall>c. length (fst (fresh c)) = 24 \<and> length (snd (fresh c)) = 32"
  shows "(\<forall>c\<in>set cs. \<exists>w. map_of files' (envelope_file_name c) = Some w \<and> length w = 80
            \<and> unwrap_data_key L k w (as_class_str c) = Inr (new_key L (snd (fresh c))))
     \<and> (\<forall>name. name \<notin> envelope_file_name ` set cs \<longrightarrow> map_of files' name = map_of files name)"
  using assms(2,3)
proof (induction cs arbitrary: files)
  case (Cons c cs)
  obtain dk w where g: "generate_wrapped_data_key L (fst (fresh c)) (snd (fresh c)) k (as_class_str c) = Inr (dk, w)"
    and rest: "wrap_class_keys L fresh k cs (bt_insert (envelope_file_name c) w files) = Inr files'"
    using Cons.prems by (auto simp: and_then_eq_Inr)
  have dk: "dk = new_key L (snd (fresh c))"
    using g by (auto simp: generate_wrapped_data_key_def and_then_eq_Inr)
  have u: "unwrap_data_key L k w (as_class_str c) = Inr dk" "length w = 80"
    using unwrap_generated_key[OF assms(1) _ _ g] assms(4) by auto
  have IH: "(\<forall>d\<in>set cs. \<exists>w. map_of files' (envelope_file_name d) = Some w \<and> length w = 80
        \<and> unwrap_data_key L k w (as_class_str d) = Inr (new_key L (snd (fresh d))))"
     "\<forall>name. name \<notin> envelope_file_name ` set cs \<longrightarrow> map_of files' name = map_of (bt_insert (envelope_file_name c) w files) name"
    using Cons.IH[OF rest] Cons.prems(2) by auto
  have "map_of files' (envelope_file_name c) = Some w" using IH(2)[rule_format, of "envelope_file_name c"] Cons.prems(2) by (auto simp: image_iff)
  then show ?case using IH u dk by auto
qed simp

lemma load_class_key_present:
  assumes "rd_keys rd = Some d" "d_private d" "map_of (d_files d) (envelope_file_name c) = Some w" "length w \<le> 1024"
  shows "load_class_key L rd k c = and_then (unwrap_data_key L k w (as_class_str c)) (\<lambda>k. Inr (Some k))"
  using assms
  by (simp add: load_class_key_def has_keyring_def require_private_directory_def dir_file_def
        read_regular_limited_def MAX_WRAPPED_KEY_BYTES_def Let_def)

lemma initialize_keyring_load:
  assumes "aead_law L" "initialize_keyring L fresh rd k = Inr rd'"
    and "\<forall>c. length (fst (fresh c)) = 24 \<and> length (snd (fresh c)) = 32"
  shows "load_class_key L rd' k c = Inr (Some (new_key L (snd (fresh c))))"
proof -
  obtain files where files: "wrap_class_keys L fresh k ALL_CLASSES [] = Inr files"
      "rd' = rd\<lparr>rd_keys := Some \<lparr>d_private = True, d_files = files\<rparr>\<rparr>"
    using assms(2) by (auto simp: initialize_keyring_def and_then_eq_Inr split: if_splits)
  have "distinct ALL_CLASSES" by (simp add: ALL_CLASSES_def)
  from wrap_class_keys_files[OF assms(1) files(1) this assms(3)] obtain w where
      w: "map_of files (envelope_file_name c) = Some w" "length w = 80"
        "unwrap_data_key L k w (as_class_str c) = Inr (new_key L (snd (fresh c)))"
    using ALL_CLASSES_all by blast
  show ?thesis using load_class_key_present[of rd' _ c w L k] files(2) w by simp
qed

lemma load_keyring_ring:
  assumes "\<And>c. load_class_key L rd k c = Inr (Some (f c))"
  shows "load_keyring L rd k = Inr \<lparr>kr_body = f Body, kr_pcap = f Pcap, kr_tls_secrets = f TlsSecrets\<rparr>"
  by (simp add: load_keyring_def assms require_active_key_def ok_or_def)

text \<open>C27: The keys of a run are made once. Preparing a fresh encrypted run wraps one new key per class
  under the run key; every later preparation, with or without data, loads exactly these keys and
  changes nothing, and a blob read asks for the same key.\<close>

theorem class_keys_stable:
  assumes "aead_law L" "\<forall>c. length (fst (fresh c)) = 24 \<and> length (snd (fresh c)) = 32"
    and "rd_keys rd = None" "prepare_for_writer L fresh rd (Some k) False = Inr (ring, rd')"
  shows "ring \<noteq> None \<and> (\<forall>c. ring_key (the ring) c = new_key L (snd (fresh c)))
    \<and> (\<forall>fresh' legacy. prepare_for_writer L fresh' rd' (Some k) legacy = Inr (ring, rd'))
    \<and> (\<forall>c. load_class_key L rd' k c = Inr (Some (ring_key (the ring) c)))
    \<and> rd_blobs rd' = rd_blobs rd"
proof -
  have no: "has_keyring rd = Inr False" using assms(3) by (simp add: has_keyring_cases)
  obtain init where init: "initialize_keyring L fresh rd k = Inr rd'" "load_keyring L rd' k = Inr init" "ring = Some init"
    using assms(4) no by (auto simp: prepare_for_writer_def and_then_eq_Inr)
  note load = initialize_keyring_load[OF assms(1) init(1) assms(2)]
  have ring: "init = \<lparr>kr_body = new_key L (snd (fresh Body)), kr_pcap = new_key L (snd (fresh Pcap)),
      kr_tls_secrets = new_key L (snd (fresh TlsSecrets))\<rparr>"
    using load_keyring_ring[OF load] init(2) by simp
  have key: "ring_key init c = new_key L (snd (fresh c))" for c by (cases c) (simp_all add: ring)
  have yes: "has_keyring rd' = Inr True" "rd_blobs rd' = rd_blobs rd"
    using init(1) by (auto simp: initialize_keyring_def and_then_eq_Inr has_keyring_cases split: if_splits)
  show ?thesis using init(2,3) key load yes by (simp add: prepare_for_writer_def)
qed

section \<open>Erasure\<close>

lemma erasure_state_roundtrip:
  assumes "aead_law L" "erasure_json_law L" "length nonce = 24"
    and "write_erasure_state L nonce rd k s = Inr rd'"
  shows "read_erasure_state L rd' k (es_class s) = Inr (Some s)" "rd_keys rd' = rd_keys rd"
    "c \<noteq> es_class s \<Longrightarrow> read_erasure_state L rd' k c = read_erasure_state L rd k c"
proof -
  obtain pt enc where w: "validate_erasure_state s (es_class s) = Inr ()" "erasure_to_vec L s = Some pt"
      "encrypt_retention_state L nonce k pt = Inr enc"
    and rd': "rd_keys rd' = rd_keys rd"
      "dir_file (rd_retention rd') = (dir_file (rd_retention rd))(erasure_state_name (es_class s) \<mapsto> enc)"
    using assms(4)
    by (auto simp: write_erasure_state_def and_then_eq_Inr Let_def dir_file_def fun_eq_iff split: option.splits)
  have "decrypt_retention_state L k enc = Inr pt" "length enc = length pt + 48"
    using retention_box.unseal_seal[OF assms(1,3) w(3)] retention_box.seal_length[OF assms(1,3) w(3)] by auto
  moreover have "length pt \<le> 4096" "erasure_from_slice L pt = Some s"
    using assms(2) w(2) by (auto simp: erasure_json_law_def)
  ultimately show "read_erasure_state L rd' k (es_class s) = Inr (Some s)"
    using w(1) by (simp add: read_erasure_state_def rd' read_regular_limited_def MAX_RETENTION_STATE_BYTES_def Let_def)
  show "rd_keys rd' = rd_keys rd" by (rule rd')
  show "read_erasure_state L rd' k c = read_erasure_state L rd k c" if "c \<noteq> es_class s"
    using that by (simp add: read_erasure_state_def rd')
qed

section \<open>A concrete codec for witnesses\<close>

definition demo_erasure :: class_erasure_state where
  "demo_erasure = \<lparr>es_schema_version = 1, es_class = Pcap, es_phase = Intent, es_operation_id = 1,
     es_envelope_sha256 = ''sha256:'' @ replicate 64 (CHR ''0''), es_blob_files = 0, es_blob_storage_bytes = 0,
     es_requested_at = 0, es_completed_at = None\<rparr>"

definition demo_run :: run_codecs where
  "demo_run = log_codecs.extend demo_log (run_codecs.fields
     (map_of [(demo_erasure, ''{S}'')]) (map_of [(''{S}'', demo_erasure)]))"

lemma demo_run_fields:
  "sha256 demo_run = sha256 demo_crates" "hex_encode demo_run = hex_encode demo_crates"
  "hex_decode demo_run = hex_decode demo_crates"
  "b64_encode demo_run = b64_encode demo_crates" "b64_decode demo_run = b64_decode demo_crates"
  "aead_seal demo_run = aead_seal demo_crates" "aead_open demo_run = aead_open demo_crates"
  "hkdf_expand demo_run = hkdf_expand demo_crates"
  "zstd_compress demo_run = zstd_compress demo_crates" "zstd_read demo_run = zstd_read demo_crates"
  "uuid_version demo_run = uuid_version demo_crates"
  "encrypted_event_to_vec demo_run = encrypted_event_to_vec demo_codecs"
  "encrypted_event_from_slice demo_run = encrypted_event_from_slice demo_codecs"
  "value_from_slice demo_run = value_from_slice demo_codecs"
  "event_to_vec demo_run = event_to_vec demo_codecs"
  "event_from_slice demo_run = event_from_slice demo_codecs"
  "block_to_vec demo_run = block_to_vec demo_log" "block_from_slice demo_run = block_from_slice demo_log"
  "erasure_to_vec demo_run = map_of [(demo_erasure, ''{S}'')]"
  "erasure_from_slice demo_run = map_of [(''{S}'', demo_erasure)]"
  by (simp_all add: demo_run_def demo_log_def demo_codecs_def crates.defs json_codecs.defs log_codecs.defs run_codecs.defs)

lemma demo_run_laws [simp]:
  "sha256_law demo_run" "hex_law demo_run" "base64_law demo_run" "aead_law demo_run" "zstd_law demo_run"
  "erasure_json_law demo_run"
  using demo_laws
  unfolding sha256_law_def hex_law_def base64_law_def aead_law_def zstd_law_def demo_run_fields
  by (blast | simp add: erasure_json_law_def demo_run_fields)+

definition demo_dir :: run_dir where
  "demo_dir = \<lparr>rd_private = True, rd_blobs = [], rd_keys = None, rd_retention = None\<rparr>"

definition demo_fresh :: "blob_class \<Rightarrow> bytes \<times> bytes" where
  "demo_fresh c = (demo_nonce, replicate 32 (hd (as_class_str c)))"

definition demo_ring :: blob_keyring where
  "demo_ring = \<lparr>kr_body = new_key demo_run (snd (demo_fresh Body)), kr_pcap = new_key demo_run (snd (demo_fresh Pcap)),
     kr_tls_secrets = new_key demo_run (snd (demo_fresh TlsSecrets))\<rparr>"

lemma demo_prepare:
  "\<exists>rd'. prepare_for_writer demo_run demo_fresh demo_dir (Some (new_key demo_run [])) False = Inr (Some demo_ring, rd')"
proof -
  have g: "generate_wrapped_data_key demo_run (fst (demo_fresh c)) (snd (demo_fresh c)) (new_key demo_run []) (as_class_str c) =
      Inr (new_key demo_run (snd (demo_fresh c)), WRAPPED_KEY_MAGIC @ demo_nonce @ snd (demo_fresh c) @ demo_tag)" for c
    by (simp add: generate_wrapped_data_key_def encrypt_framed_def encrypt_def demo_run_fields demo_crates_def demo_fresh_def)
  have "\<exists>files. wrap_class_keys demo_run demo_fresh (new_key demo_run []) cs acc = Inr files" for cs acc
    by (induction cs arbitrary: acc) (simp_all add: g)
  then obtain files where "wrap_class_keys demo_run demo_fresh (new_key demo_run []) ALL_CLASSES [] = Inr files" by blast
  then obtain rd' where init: "initialize_keyring demo_run demo_fresh demo_dir (new_key demo_run []) = Inr rd'"
    by (simp add: initialize_keyring_def demo_dir_def require_private_directory_def)
  have "load_class_key demo_run rd' (new_key demo_run []) c = Inr (Some (new_key demo_run (snd (demo_fresh c))))" for c
    using initialize_keyring_load[OF _ init] by (simp add: demo_fresh_def demo_nonce_def)
  from load_keyring_ring[OF this] show ?thesis
    using init by (simp add: prepare_for_writer_def has_keyring_def demo_dir_def demo_ring_def)
qed

theorem class_keys_stable_witness:
  "\<exists>rd'. prepare_for_writer demo_run demo_fresh demo_dir (Some (new_key demo_run [])) False = Inr (Some demo_ring, rd')
     \<and> prepare_for_writer demo_run (\<lambda>_. ([], [])) rd' (Some (new_key demo_run [])) True = Inr (Some demo_ring, rd')"
proof -
  obtain rd' where prep: "prepare_for_writer demo_run demo_fresh demo_dir (Some (new_key demo_run [])) False = Inr (Some demo_ring, rd')"
    using demo_prepare by blast
  have "\<forall>c. length (fst (demo_fresh c)) = 24 \<and> length (snd (demo_fresh c)) = 32" "rd_keys demo_dir = None"
    by (simp_all add: demo_fresh_def demo_nonce_def demo_dir_def)
  from class_keys_stable[OF demo_run_laws(4) this prep] show ?thesis using prep by blast
qed

end
