(* ===== verification/Blob_Store.thy ===== *)
theory Blob_Store
  imports Blob_Keys
begin

text \<open>
  The content-addressed blob store of a run (\<open>src/storage.rs\<close>): storing a blob once per
  content and class, the atomic reservations of files and bytes with their compare-and-swap
  loops, the temporary file and its rename, and the inventory a new process starts from. Stores
  run concurrently; \<open>blob_step\<close> is the step relation of any number of them, with every file
  operation free to fail.
\<close>

section \<open>State\<close>

definition MAX_BLOB_DIRECTORY_ENTRIES :: nat where "MAX_BLOB_DIRECTORY_ENTRIES = 250000"
definition MAX_SINGLE_BLOB_BYTES :: nat where "MAX_SINGLE_BLOB_BYTES = MAX_CAPTURE_BODY_BYTES"

record blob_config =
  bc_max_blob_bytes :: nat
  bc_max_run_storage :: nat
  bc_encryption :: "encryption_key option"
  bc_keys :: "blob_keyring option"

record blob_state =
  bs_blobs :: "(str \<times> bytes) list"
  bs_files :: nat
  bs_storage :: nat
  bs_stat_blobs :: nat
  bs_stat_bytes :: nat
  bs_locked :: "str list"

fun blob_directory_inventory :: "(str \<times> bytes) list \<Rightarrow> nat \<Rightarrow> nat \<Rightarrow> io_error + nat \<times> nat" where
  "blob_directory_inventory [] entries bytes = Inr (entries, bytes)"
| "blob_directory_inventory ((_, contents) # rest) entries bytes =
     (let entries = saturating_add entries 1 in
      if entries > MAX_BLOB_DIRECTORY_ENTRIES
      then Inl (IoError InvalidData ''blob directory exceeds its entry safety limit'')
      else and_then (ok_or (checked_add bytes (length contents))
             (IoError InvalidData ''blob directory size overflows u64'')) (\<lambda>bytes.
           blob_directory_inventory rest entries bytes))"

text \<open>What \<open>store_blob_with_limit\<close> computes before it looks at the directory.\<close>

record blob_request =
  bq_plaintext :: bytes
  bq_hash :: str
  bq_name :: str
  bq_identity :: str
  bq_key :: "encryption_key option"
  bq_expected :: nat
  bq_ref :: payload_ref

definition original_blob_storage_bytes :: "nat \<Rightarrow> bool \<Rightarrow> io_error + nat" where
  "original_blob_storage_bytes plaintext_bytes encrypted =
     ok_or (checked_add plaintext_bytes (if encrypted then ENCRYPTED_BLOB_OVERHEAD_BYTES else 0))
       (IoError InvalidData ''blob size overflows u64'')"

definition prepare_blob ::
  "('x) crates_scheme \<Rightarrow> blob_config \<Rightarrow> bytes \<Rightarrow> str option \<Rightarrow> nat \<Rightarrow> storage_error + blob_request" where
  "prepare_blob L cfg bytes media_type limit =
     (let limit = min limit MAX_SINGLE_BLOB_BYTES;
          original_size = u64_of_usize (length bytes);
          captured = (if length bytes > limit then take limit bytes else bytes);
          truncated = (length captured \<noteq> length bytes);
          hash = hex_encode L (sha256 L captured);
          class = map_option (\<lambda>_. from_media_type media_type) (bc_keys cfg);
          key = (case bc_keys cfg of Some ring \<Rightarrow> Some (ring_key ring (the class)) | None \<Rightarrow> bc_encryption cfg) in
      and_then (map_err SIo (blob_file_name hash class)) (\<lambda>name.
      and_then (map_err SIo (original_blob_storage_bytes (u64_of_usize (length captured)) (key \<noteq> None))) (\<lambda>expected.
      Inr \<lparr>bq_plaintext = captured, bq_hash = hash, bq_name = name, bq_identity = file_identity class hash,
           bq_key = key, bq_expected = expected,
           bq_ref = \<lparr>pr_sha256 = ''sha256:'' @ hash,
                     pr_size = (if truncated then u64_of_usize (length captured) else original_size),
                     pr_media_type = media_type, pr_truncated = truncated\<rparr>\<rparr>)))"

definition existing_blob_matches :: "('x) crates_scheme \<Rightarrow> (str \<times> bytes) list \<Rightarrow> blob_request \<Rightarrow> io_error + bool" where
  "existing_blob_matches L blobs q =
     (case read_regular_limited (map_of blobs (bq_name q)) (bq_expected q) of
        Inl err \<Rightarrow> if io_error_kind err = NotFound then Inr False else Inl err
      | Inr encoded \<Rightarrow>
          if u64_of_usize (length encoded) \<noteq> bq_expected q
          then Inl (IoError InvalidData ''existing content-addressed blob has an unexpected size'')
          else
          and_then (case bq_key q of Some key \<Rightarrow> decrypt_blob L key encoded (bq_hash q) | None \<Rightarrow> Inr encoded) (\<lambda>existing.
          if existing \<noteq> bq_plaintext q
          then Inl (IoError InvalidData ''existing content-addressed blob does not match its digest'')
          else Inr True))"

section \<open>Reservations\<close>

text \<open>One iteration of each compare-and-swap loop on the value last read: refuse, or the value to
  swap in.\<close>

definition file_attempt :: "nat \<Rightarrow> nat \<Rightarrow> storage_error + nat" where
  "file_attempt limit used = (if used \<ge> limit then Inl (SBlobFileLimitExceeded used limit) else Inr (used + 1))"

definition storage_attempt :: "nat \<Rightarrow> nat \<Rightarrow> nat \<Rightarrow> storage_error + nat" where
  "storage_attempt limit requested used =
     (case checked_add used requested of
        None \<Rightarrow> Inl (SBlobStorageBudgetExceeded used requested limit)
      | Some next \<Rightarrow> if next > limit then Inl (SBlobStorageBudgetExceeded used requested limit) else Inr next)"

text \<open>The loops when no other store interferes: the first swap succeeds.\<close>

definition reserve_blob_file :: "blob_state \<Rightarrow> storage_error + blob_state" where
  "reserve_blob_file s =
     and_then (file_attempt MAX_BLOB_DIRECTORY_ENTRIES (bs_files s)) (\<lambda>next. Inr (s\<lparr>bs_files := next\<rparr>))"

definition reserve_blob_storage :: "blob_config \<Rightarrow> nat \<Rightarrow> blob_state \<Rightarrow> storage_error + blob_state" where
  "reserve_blob_storage cfg requested s =
     and_then (storage_attempt (bc_max_run_storage cfg) requested (bs_storage s)) (\<lambda>next. Inr (s\<lparr>bs_storage := next\<rparr>))"

definition release_blob_file :: "blob_state \<Rightarrow> blob_state" where
  "release_blob_file s = s\<lparr>bs_files := wrapping_sub (bs_files s) 1\<rparr>"

definition release_blob_storage :: "nat \<Rightarrow> blob_state \<Rightarrow> blob_state" where
  "release_blob_storage bytes s = s\<lparr>bs_storage := wrapping_sub (bs_storage s) bytes\<rparr>"

section \<open>Persisting\<close>

text \<open>What the file system does to one \<open>persist_blob\<close>: each field is the error of that operation,
  if it fails; a failed write leaves some bytes in the temporary file, whose name is fresh.\<close>

record blob_io =
  io_temporary :: str
  io_open :: "io_error option"
  io_write :: "(nat \<times> io_error) option"
  io_rename :: "io_error option"
  io_cleanup :: "io_error option"
  io_dir_sync :: "io_error option"

record blob_persist_error =
  pe_error :: io_error
  pe_storage_retained :: bool

text \<open>The closure of \<open>persist_blob\<close>: its result, whether the rename was committed, and the temporary
  file it leaves behind.\<close>

definition write_temporary ::
  "('x) crates_scheme \<Rightarrow> blob_io \<Rightarrow> (str \<times> bytes) list \<Rightarrow> blob_request \<Rightarrow> bytes
   \<Rightarrow> (io_error + bool) \<times> bool \<times> bytes option" where
  "write_temporary L io blobs q encoded =
     (case io_open io of Some err \<Rightarrow> (Inl err, False, None)
      | None \<Rightarrow> (case io_write io of Some (k, err) \<Rightarrow> (Inl err, False, Some (take k encoded))
      | None \<Rightarrow> (case io_rename io of Some err \<Rightarrow> (Inl err, False, Some encoded)
      | None \<Rightarrow> (case map_of blobs (bq_name q) of
          None \<Rightarrow> (Inr True, True, None)
        | Some file \<Rightarrow>
            (and_then (read_regular_limited (Some file) (length encoded)) (\<lambda>existing.
             if length existing \<noteq> length encoded
             then Inl (IoError InvalidData ''existing content-addressed blob has an unexpected size'')
             else
             and_then (case bq_key q of Some key \<Rightarrow> decrypt_blob L key existing (bq_hash q) | None \<Rightarrow> Inr existing) (\<lambda>existing.
             if existing \<noteq> bq_plaintext q
             then Inl (IoError InvalidData ''existing content-addressed blob does not match its digest'')
             else Inr False)), False, Some encoded)))))"

definition persist_blob ::
  "('x) crates_scheme \<Rightarrow> blob_io \<Rightarrow> (str \<times> bytes) list \<Rightarrow> blob_request \<Rightarrow> bytes
   \<Rightarrow> (blob_persist_error + bool) \<times> (str \<times> bytes) list" where
  "persist_blob L io blobs q encoded =
     (let (result, committed, temporary) = write_temporary L io blobs q encoded;
          blobs = (if committed then bt_insert (bq_name q) encoded blobs else blobs);
          cleanup = (if committed then None
                     else case temporary of
                       None \<Rightarrow> Some (IoError NotFound ''No such file or directory'')
                     | Some _ \<Rightarrow> io_cleanup io) in
      case cleanup of
        Some cleanup_error \<Rightarrow>
          (Inl \<lparr>pe_error = (case result of Inr _ \<Rightarrow> cleanup_error
                  | Inl err \<Rightarrow> IoError (io_error_kind err) (io_error_message err @ ''; temporary blob cleanup also failed'')),
                pe_storage_retained = True\<rparr>,
           case temporary of None \<Rightarrow> blobs | Some contents \<Rightarrow> bt_insert (io_temporary io) contents blobs)
      | None \<Rightarrow>
          (case result of
             Inl err \<Rightarrow> (Inl \<lparr>pe_error = err, pe_storage_retained = committed\<rparr>, blobs)
           | Inr created \<Rightarrow>
               (case io_dir_sync io of
                  Some err \<Rightarrow> (Inl \<lparr>pe_error = err, pe_storage_retained = committed\<rparr>, blobs)
                | None \<Rightarrow> (Inr created, blobs))))"

text \<open>The blocking task: seal, then persist.\<close>

definition seal_and_persist ::
  "('x) crates_scheme \<Rightarrow> bytes \<Rightarrow> blob_io \<Rightarrow> (str \<times> bytes) list \<Rightarrow> blob_request
   \<Rightarrow> (blob_persist_error + bool) \<times> (str \<times> bytes) list" where
  "seal_and_persist L nonce io blobs q =
     (case (case bq_key q of Some key \<Rightarrow> encrypt_blob L nonce key (bq_plaintext q) (bq_hash q) | None \<Rightarrow> Inr (bq_plaintext q)) of
        Inl err \<Rightarrow> (Inl \<lparr>pe_error = err, pe_storage_retained = False\<rparr>, blobs)
      | Inr persisted \<Rightarrow> persist_blob L io blobs q persisted)"

text \<open>What the caller does with the outcome.\<close>

definition settle_blob :: "blob_request \<Rightarrow> blob_persist_error + bool \<Rightarrow> blob_state \<Rightarrow> (storage_error + payload_ref) \<times> blob_state" where
  "settle_blob q persistence s =
     (case persistence of
        Inl err \<Rightarrow>
          (Inl (SIo (pe_error err)),
           if \<not> pe_storage_retained err then release_blob_storage (bq_expected q) (release_blob_file s) else s)
      | Inr created \<Rightarrow>
          (Inr (bq_ref q),
           if created then s\<lparr>bs_stat_blobs := wrapping_add (bs_stat_blobs s) 1,
                            bs_stat_bytes := wrapping_add (bs_stat_bytes s) (u64_of_usize (length (bq_plaintext q)))\<rparr>
           else release_blob_storage (bq_expected q) (release_blob_file s)))"

section \<open>Storing a blob\<close>

text \<open>\<open>store_blob_with_limit\<close> when no other store interferes.\<close>

definition store_blob_with_limit ::
  "('x) crates_scheme \<Rightarrow> blob_config \<Rightarrow> bytes \<Rightarrow> blob_io \<Rightarrow> bytes \<Rightarrow> str option \<Rightarrow> nat \<Rightarrow> blob_state
   \<Rightarrow> (storage_error + payload_ref) \<times> blob_state" where
  "store_blob_with_limit L cfg nonce io bytes media_type limit s =
     (case prepare_blob L cfg bytes media_type limit of
        Inl err \<Rightarrow> (Inl err, s)
      | Inr q \<Rightarrow>
        (case existing_blob_matches L (bs_blobs s) q of
           Inl err \<Rightarrow> (Inl (SIo err), s)
         | Inr True \<Rightarrow> (Inr (bq_ref q), s)
         | Inr False \<Rightarrow>
           (case reserve_blob_file s of
              Inl err \<Rightarrow> (Inl err, s)
            | Inr s1 \<Rightarrow>
              (case reserve_blob_storage cfg (bq_expected q) s1 of
                 Inl err \<Rightarrow> (Inl err, release_blob_file s1)
               | Inr s2 \<Rightarrow>
                 (case seal_and_persist L nonce io (bs_blobs s2) q of
                    (persistence, blobs) \<Rightarrow> settle_blob q persistence (s2\<lparr>bs_blobs := blobs\<rparr>))))))"

definition store_blob ::
  "('x) crates_scheme \<Rightarrow> blob_config \<Rightarrow> bytes \<Rightarrow> blob_io \<Rightarrow> bytes \<Rightarrow> str option \<Rightarrow> blob_state
   \<Rightarrow> (storage_error + payload_ref) \<times> blob_state" where
  "store_blob L cfg nonce io bytes media_type s =
     store_blob_with_limit L cfg nonce io bytes media_type (bc_max_blob_bytes cfg) s"

definition store_sensitive_blob ::
  "('x) crates_scheme \<Rightarrow> blob_config \<Rightarrow> bytes \<Rightarrow> blob_io \<Rightarrow> bytes \<Rightarrow> str option \<Rightarrow> blob_state
   \<Rightarrow> (storage_error + payload_ref) \<times> blob_state" where
  "store_sensitive_blob L cfg nonce io bytes media_type s =
     (if bc_encryption cfg = None then (Inl (SWriter ''sensitive evidence requires at-rest encryption''), s)
      else store_blob_with_limit L cfg nonce io bytes media_type (length bytes) s)"

section \<open>Concurrent stores\<close>

text \<open>A store in progress holds the lock of its identity, from before the lookup to the end. Stores
  interleave at the lock, the lookup and every load and swap of the two counters; sealing, writing
  the temporary file, the rename and the clean-up, with the settling of the counters after them,
  are one step (\<open>persisted\<close>).\<close>

datatype blob_phase =
  Idle
| Looking blob_request
| FileLoop blob_request nat
| StorageLoop blob_request nat
| Persisting blob_request
| Stored "storage_error + payload_ref"

definition unlock :: "blob_request \<Rightarrow> blob_state \<Rightarrow> blob_state" where
  "unlock q s = s\<lparr>bs_locked := removeAll (bq_identity q) (bs_locked s)\<rparr>"

inductive blob_step ::
  "('x) crates_scheme \<Rightarrow> blob_config \<Rightarrow> blob_state \<times> blob_phase list \<Rightarrow> blob_state \<times> blob_phase list \<Rightarrow> bool"
  for L cfg where
  lock: "i < length ts \<Longrightarrow> ts ! i = Idle \<Longrightarrow> prepare_blob L cfg bytes media_type limit = Inr q \<Longrightarrow>
    bq_identity q \<notin> set (bs_locked s) \<Longrightarrow>
    blob_step L cfg (s, ts) (s\<lparr>bs_locked := bq_identity q # bs_locked s\<rparr>, ts[i := Looking q])"
| found: "i < length ts \<Longrightarrow> ts ! i = Looking q \<Longrightarrow> existing_blob_matches L (bs_blobs s) q = Inr True \<Longrightarrow>
    blob_step L cfg (s, ts) (unlock q s, ts[i := Stored (Inr (bq_ref q))])"
| conflicting: "i < length ts \<Longrightarrow> ts ! i = Looking q \<Longrightarrow> existing_blob_matches L (bs_blobs s) q = Inl err \<Longrightarrow>
    blob_step L cfg (s, ts) (unlock q s, ts[i := Stored (Inl (SIo err))])"
| absent: "i < length ts \<Longrightarrow> ts ! i = Looking q \<Longrightarrow> existing_blob_matches L (bs_blobs s) q = Inr False \<Longrightarrow>
    blob_step L cfg (s, ts) (s, ts[i := FileLoop q (bs_files s)])"
| file_refused: "i < length ts \<Longrightarrow> ts ! i = FileLoop q used \<Longrightarrow>
    file_attempt MAX_BLOB_DIRECTORY_ENTRIES used = Inl err \<Longrightarrow>
    blob_step L cfg (s, ts) (unlock q s, ts[i := Stored (Inl err)])"
| file_swapped: "i < length ts \<Longrightarrow> ts ! i = FileLoop q used \<Longrightarrow>
    file_attempt MAX_BLOB_DIRECTORY_ENTRIES used = Inr n \<Longrightarrow> bs_files s = used \<Longrightarrow>
    blob_step L cfg (s, ts) (s\<lparr>bs_files := n\<rparr>, ts[i := StorageLoop q (bs_storage s)])"
| file_retry: "i < length ts \<Longrightarrow> ts ! i = FileLoop q used \<Longrightarrow>
    file_attempt MAX_BLOB_DIRECTORY_ENTRIES used = Inr n \<Longrightarrow>
    blob_step L cfg (s, ts) (s, ts[i := FileLoop q (bs_files s)])"
| storage_refused: "i < length ts \<Longrightarrow> ts ! i = StorageLoop q used \<Longrightarrow>
    storage_attempt (bc_max_run_storage cfg) (bq_expected q) used = Inl err \<Longrightarrow>
    blob_step L cfg (s, ts) (unlock q (release_blob_file s), ts[i := Stored (Inl err)])"
| storage_swapped: "i < length ts \<Longrightarrow> ts ! i = StorageLoop q used \<Longrightarrow>
    storage_attempt (bc_max_run_storage cfg) (bq_expected q) used = Inr n \<Longrightarrow> bs_storage s = used \<Longrightarrow>
    blob_step L cfg (s, ts) (s\<lparr>bs_storage := n\<rparr>, ts[i := Persisting q])"
| storage_retry: "i < length ts \<Longrightarrow> ts ! i = StorageLoop q used \<Longrightarrow>
    storage_attempt (bc_max_run_storage cfg) (bq_expected q) used = Inr n \<Longrightarrow>
    blob_step L cfg (s, ts) (s, ts[i := StorageLoop q (bs_storage s)])"
| persisted: "i < length ts \<Longrightarrow> ts ! i = Persisting q \<Longrightarrow> length nonce = 24 \<Longrightarrow>
    map_of (bs_blobs s) (io_temporary io) = None \<Longrightarrow> io_temporary io \<noteq> bq_name q \<Longrightarrow>
    seal_and_persist L nonce io (bs_blobs s) q = (persistence, blobs) \<Longrightarrow>
    settle_blob q persistence (s\<lparr>bs_blobs := blobs\<rparr>) = (result, s') \<Longrightarrow>
    blob_step L cfg (s, ts) (unlock q s', ts[i := Stored result])"
| again: "i < length ts \<Longrightarrow> ts ! i = Stored result \<Longrightarrow> blob_step L cfg (s, ts) (s, ts[i := Idle])"

inductive_cases blob_stepE: "blob_step L cfg (s, ts) (s', ts')"

abbreviation blob_steps ::
  "('x) crates_scheme \<Rightarrow> blob_config \<Rightarrow> blob_state \<times> blob_phase list \<Rightarrow> blob_state \<times> blob_phase list \<Rightarrow> bool" where
  "blob_steps L cfg \<equiv> (blob_step L cfg)\<^sup>*\<^sup>*"

section \<open>What persisting does to the directory\<close>

definition stored_bytes :: "(str \<times> bytes) list \<Rightarrow> nat" where
  "stored_bytes blobs = sum_list (map (\<lambda>(_, contents). length contents) blobs)"

lemma bt_insert_absent:
  "map_of m k = None \<Longrightarrow> length (bt_insert k v m) = Suc (length m)"
  "map_of m k = None \<Longrightarrow> stored_bytes (bt_insert k v m) = stored_bytes m + length v"
  by (induction m) (auto simp: stored_bytes_def split: if_splits)

definition request_ok :: "blob_request \<Rightarrow> bool" where
  "request_ok q \<longleftrightarrow> bq_expected q = length (bq_plaintext q) + (if bq_key q = None then 0 else 48)
     \<and> bq_expected q \<le> U64_MAX"

lemma captured_u64: "length (take (min limit MAX_SINGLE_BLOB_BYTES) bytes) + 48 \<le> U64_MAX"
  by (simp add: MAX_SINGLE_BLOB_BYTES_def MAX_CAPTURE_BODY_BYTES_def U64_MAX_def)

text \<open>The key a blob of this media type is sealed with.\<close>

definition blob_key :: "blob_config \<Rightarrow> str option \<Rightarrow> encryption_key option" where
  "blob_key cfg media_type = (case bc_keys cfg of
     Some ring \<Rightarrow> Some (ring_key ring (from_media_type media_type)) | None \<Rightarrow> bc_encryption cfg)"

lemma prepare_blob_fields:
  assumes "prepare_blob L cfg bytes media_type limit = Inr q"
  defines "captured \<equiv> take (min limit MAX_SINGLE_BLOB_BYTES) bytes"
  defines "hash \<equiv> hex_encode L (sha256 L captured)"
  shows "bq_plaintext q = captured" "bq_hash q = hash"
    "blob_file_name hash (map_option (\<lambda>_. from_media_type media_type) (bc_keys cfg)) = Inr (bq_name q)"
    "bq_key q = blob_key cfg media_type" "request_ok q"
    "bq_ref q = \<lparr>pr_sha256 = ''sha256:'' @ hash, pr_size = length captured, pr_media_type = media_type,
       pr_truncated = (length captured \<noteq> length bytes)\<rparr>"
proof -
  have cap: "(if length bytes > min limit MAX_SINGLE_BLOB_BYTES then take (min limit MAX_SINGLE_BLOB_BYTES) bytes else bytes) = captured"
    unfolding captured_def by (metis not_less take_all)
  have len: "length captured + 48 \<le> U64_MAX" unfolding captured_def by (rule captured_u64)
  then have u: "u64_of_usize (length captured) = length captured" by (simp add: u64_of_usize_def)
  have key: "(case bc_keys cfg of Some ring \<Rightarrow> Some (ring_key ring (the (map_option (\<lambda>_. from_media_type media_type) (bc_keys cfg))))
      | None \<Rightarrow> bc_encryption cfg) = blob_key cfg media_type"
    by (simp add: blob_key_def split: option.splits)
  have size: "(if length captured \<noteq> length bytes then length captured else u64_of_usize (length bytes)) = length captured"
    using u by (metis)
  from assms(1) obtain name expected where q: "q = \<lparr>bq_plaintext = captured, bq_hash = hash, bq_name = name,
        bq_identity = file_identity (map_option (\<lambda>_. from_media_type media_type) (bc_keys cfg)) hash,
        bq_key = blob_key cfg media_type, bq_expected = expected,
        bq_ref = \<lparr>pr_sha256 = ''sha256:'' @ hash, pr_size = length captured, pr_media_type = media_type,
          pr_truncated = (length captured \<noteq> length bytes)\<rparr>\<rparr>"
    and name: "blob_file_name hash (map_option (\<lambda>_. from_media_type media_type) (bc_keys cfg)) = Inr name"
    and expected: "original_blob_storage_bytes (length captured) (blob_key cfg media_type \<noteq> None) = Inr expected"
    unfolding prepare_blob_def Let_def cap key u size hash_def[symmetric]
    by (auto simp: and_then_eq_Inr map_err_def split: sum.splits)
  have "expected = length captured + (if blob_key cfg media_type = None then 0 else 48)"
    using expected len
    by (auto simp: original_blob_storage_bytes_def ok_or_def checked_add_def ENCRYPTED_BLOB_OVERHEAD_BYTES_def
          split: if_splits option.splits)
  then show "request_ok q" using len by (simp add: q request_ok_def)
  show "bq_plaintext q = captured" "bq_hash q = hash" "bq_key q = blob_key cfg media_type"
    "blob_file_name hash (map_option (\<lambda>_. from_media_type media_type) (bc_keys cfg)) = Inr (bq_name q)"
    "bq_ref q = \<lparr>pr_sha256 = ''sha256:'' @ hash, pr_size = length captured, pr_media_type = media_type,
       pr_truncated = (length captured \<noteq> length bytes)\<rparr>"
    using name by (simp_all add: q)
qed

lemma existing_blob_matches_eq:
  assumes "request_ok q"
  shows "existing_blob_matches L blobs q = Inr True \<longleftrightarrow> (\<exists>enc. map_of blobs (bq_name q) = Some enc
      \<and> length enc = bq_expected q
      \<and> (case bq_key q of Some key \<Rightarrow> decrypt_blob L key enc (bq_hash q) | None \<Rightarrow> Inr enc) = Inr (bq_plaintext q))"
    and "existing_blob_matches L blobs q = Inr False \<longleftrightarrow> map_of blobs (bq_name q) = None"
  using assms
  by (cases "map_of blobs (bq_name q)";
      auto simp: existing_blob_matches_def read_regular_limited_def request_ok_def u64_of_usize_def Let_def
        and_then_eq_Inr if_Inl_eq_Inr min_def split: if_splits)+

lemma persist_cases:
  assumes "aead_law L" "length nonce = 24" "request_ok q"
    and "map_of blobs (io_temporary io) = None"
    and "seal_and_persist L nonce io blobs q = (persistence, blobs')"
  obtains (new) enc where "map_of blobs (bq_name q) = None" "blobs' = bt_insert (bq_name q) enc blobs"
      "length enc = bq_expected q"
      "(case bq_key q of Some key \<Rightarrow> encrypt_blob L nonce key (bq_plaintext q) (bq_hash q) | None \<Rightarrow> Inr (bq_plaintext q)) = Inr enc"
      "persistence = Inr True \<or> (\<exists>err. persistence = Inl err \<and> pe_storage_retained err)"
  | (temporary) contents err where "blobs' = bt_insert (io_temporary io) contents blobs"
      "length contents \<le> bq_expected q" "persistence = Inl err" "pe_storage_retained err"
  | (same) "blobs' = blobs" "persistence \<noteq> Inr True"
      "persistence = Inr False \<Longrightarrow> existing_blob_matches L blobs q = Inr True"
proof -
  let ?seal = "case bq_key q of Some key \<Rightarrow> encrypt_blob L nonce key (bq_plaintext q) (bq_hash q) | None \<Rightarrow> Inr (bq_plaintext q)"
  show thesis
  proof (cases ?seal)
    case (Inl err)
    then show thesis using assms(5) by (intro same) (auto simp: seal_and_persist_def)
  next
    case (Inr enc)
    have len: "length enc = bq_expected q"
      using Inr assms(3) blob_box.seal_length[OF assms(1,2)]
      by (auto simp: request_ok_def split: option.splits)
    have per: "persist_blob L io blobs q enc = (persistence, blobs')"
      using Inr assms(5) by (simp add: seal_and_persist_def)
    obtain result committed temp where w: "write_temporary L io blobs q enc = (result, committed, temp)"
      by (metis prod.collapse)
    have cases: "committed \<and> result = Inr True \<and> temp = None \<and> map_of blobs (bq_name q) = None
        \<or> \<not> committed \<and> result \<noteq> Inr True \<and> (\<forall>c. temp = Some c \<longrightarrow> length c \<le> length enc)"
      using w by (auto simp: write_temporary_def and_then_eq_Inr split: option.splits prod.splits if_splits)
    have match: "existing_blob_matches L blobs q = Inr True" if "result = Inr False"
      unfolding existing_blob_matches_eq[OF assms(3)] using w that len
      by (auto simp: write_temporary_def and_then_eq_Inr if_Inl_eq_Inr read_regular_limited_eq
            split: option.splits prod.splits if_splits)
    show thesis
    proof (cases committed)
      case True
      then have "map_of blobs (bq_name q) = None" "result = Inr True" "temp = None" using cases by auto
      then show thesis using new[of enc] per w True len Inr
        by (auto simp: persist_blob_def Let_def split: option.splits)
    next
      case False
      then have *: "result \<noteq> Inr True" "\<And>c. temp = Some c \<Longrightarrow> length c \<le> length enc" using cases by auto
      show thesis
      proof (cases "temp \<noteq> None \<and> io_cleanup io \<noteq> None")
        case True
        then show thesis using temporary per w False *(2) len
          by (auto simp: persist_blob_def Let_def split: sum.splits)
      next
        case clean: False
        have "blobs' = blobs" "persistence \<noteq> Inr True" "persistence = Inr False \<longrightarrow> result = Inr False"
          using per w False clean *(1)
          by (auto simp: persist_blob_def Let_def split: option.splits sum.splits)
        then show thesis using same match by blast
      qed
    qed
  qed
qed

section \<open>The budget under concurrency\<close>

definition held_files :: "blob_phase \<Rightarrow> nat" where
  "held_files t = (case t of StorageLoop _ _ \<Rightarrow> 1 | Persisting _ \<Rightarrow> 1 | _ \<Rightarrow> 0)"

definition held_bytes :: "blob_phase \<Rightarrow> nat" where
  "held_bytes t = (case t of Persisting q \<Rightarrow> bq_expected q | _ \<Rightarrow> 0)"

definition phase_request :: "blob_phase \<Rightarrow> blob_request option" where
  "phase_request t = (case t of Looking q \<Rightarrow> Some q | FileLoop q _ \<Rightarrow> Some q | StorageLoop q _ \<Rightarrow> Some q
     | Persisting q \<Rightarrow> Some q | _ \<Rightarrow> None)"

definition blob_inv :: "blob_config \<Rightarrow> blob_state \<times> blob_phase list \<Rightarrow> bool" where
  "blob_inv cfg = (\<lambda>(s, ts).
     stored_bytes (bs_blobs s) + sum_list (map held_bytes ts) \<le> bs_storage s
     \<and> bs_storage s \<le> bc_max_run_storage cfg \<and> bc_max_run_storage cfg \<le> U64_MAX
     \<and> length (bs_blobs s) + sum_list (map held_files ts) \<le> bs_files s
     \<and> bs_files s \<le> MAX_BLOB_DIRECTORY_ENTRIES
     \<and> (\<forall>t\<in>set ts. \<forall>q. phase_request t = Some q \<longrightarrow> request_ok q))"

lemma sum_list_update_nat:
  "i < length ts \<Longrightarrow> sum_list (map f (ts[i := t])) + f (ts ! i) = sum_list (map f ts) + (f t :: nat)"
  by (induction ts arbitrary: i) (auto split: nat.split)

lemma held_le: "i < length ts \<Longrightarrow> (f (ts ! i) :: nat) \<le> sum_list (map f ts)"
  by (metis elem_le_sum_list length_map nth_map)


lemma storage_attempt_eq: "storage_attempt limit requested used = Inr n \<longleftrightarrow> n = used + requested \<and> n \<le> limit \<and> n \<le> U64_MAX"
  by (auto simp: storage_attempt_def checked_add_def split: option.splits if_splits)

lemma release_exact:
  "0 < bs_files s \<Longrightarrow> bs_files s \<le> U64_MAX \<Longrightarrow> release_blob_file s = s\<lparr>bs_files := bs_files s - 1\<rparr>"
  "n \<le> bs_storage s \<Longrightarrow> bs_storage s \<le> U64_MAX \<Longrightarrow> release_blob_storage n s = s\<lparr>bs_storage := bs_storage s - n\<rparr>"
  by (simp_all add: release_blob_file_def release_blob_storage_def wrapping_sub_exact)

lemma entries_u64: "MAX_BLOB_DIRECTORY_ENTRIES \<le> U64_MAX"
  by (simp add: MAX_BLOB_DIRECTORY_ENTRIES_def U64_MAX_def)

text \<open>Settling after a persist keeps the accounts: given what the thread held, the state afterwards
  covers the directory.\<close>

lemma settle_accounts:
  assumes laws: "aead_law L" "length nonce = 24" and q: "request_ok q"
    and temp: "map_of (bs_blobs s) (io_temporary io) = None"
    and persist: "seal_and_persist L nonce io (bs_blobs s) q = (persistence, blobs)"
    and settle: "settle_blob q persistence (s\<lparr>bs_blobs := blobs\<rparr>) = (result, s')"
    and bytes: "stored_bytes (bs_blobs s) + (others + bq_expected q) \<le> bs_storage s" "bs_storage s \<le> U64_MAX"
    and files: "length (bs_blobs s) + (rest + 1) \<le> bs_files s" "bs_files s \<le> U64_MAX"
  shows "stored_bytes (bs_blobs s') + others \<le> bs_storage s' \<and> bs_storage s' \<le> bs_storage s
    \<and> length (bs_blobs s') + rest \<le> bs_files s' \<and> bs_files s' \<le> bs_files s"
  using laws q temp persist
proof (cases rule: persist_cases)
  case (new enc)
  have "bs_storage s' = bs_storage s \<and> bs_files s' = bs_files s \<and> bs_blobs s' = blobs"
    using settle new(5) by (auto simp: settle_blob_def)
  then show ?thesis using bytes files bt_insert_absent[OF new(1)] new(2,3) by simp
next
  case (temporary contents err)
  then have "s' = s\<lparr>bs_blobs := blobs\<rparr>" using settle by (simp add: settle_blob_def)
  then show ?thesis using bytes files bt_insert_absent[OF temp] temporary(1,2) by simp
next
  case same
  have rel: "release_blob_storage (bq_expected q) (release_blob_file (s\<lparr>bs_blobs := blobs\<rparr>)) =
      s\<lparr>bs_files := bs_files s - 1, bs_storage := bs_storage s - bq_expected q\<rparr>"
    using bytes files same(1) by (subst release_exact(1), simp_all, subst release_exact(2), simp_all)
  have "s' = s \<or> s' = s\<lparr>bs_files := bs_files s - 1, bs_storage := bs_storage s - bq_expected q\<rparr>"
    using settle same(1,2) rel by (auto simp: settle_blob_def split: sum.splits if_splits)
  then show ?thesis using bytes files by auto
qed

lemma unlock_fields [simp]:
  "bs_blobs (unlock q s) = bs_blobs s" "bs_files (unlock q s) = bs_files s" "bs_storage (unlock q s) = bs_storage s"
  by (simp_all add: unlock_def)

lemma blob_inv_update:
  assumes "blob_inv cfg (s, ts)" "i < length ts"
    and "stored_bytes (bs_blobs s') + (sum_list (map held_bytes ts) - held_bytes (ts ! i) + held_bytes t) \<le> bs_storage s'"
    and "length (bs_blobs s') + (sum_list (map held_files ts) - held_files (ts ! i) + held_files t) \<le> bs_files s'"
    and "bs_storage s' \<le> bc_max_run_storage cfg" "bs_files s' \<le> MAX_BLOB_DIRECTORY_ENTRIES"
    and "\<And>q. phase_request t = Some q \<Longrightarrow> request_ok q"
  shows "blob_inv cfg (s', ts[i := t])"
proof -
  have upd: "sum_list (map f (ts[i := t])) = sum_list (map f ts) - f (ts ! i) + f t" for f :: "blob_phase \<Rightarrow> nat"
    using sum_list_update_nat[OF assms(2), of f t] held_le[OF assms(2), of f] by simp
  have "\<forall>u\<in>set (ts[i := t]). \<forall>q. phase_request u = Some q \<longrightarrow> request_ok q"
    using assms(1,7) set_update_subset_insert[of ts i t] by (fastforce simp: blob_inv_def)
  then show ?thesis using assms(1,3-6) upd by (simp add: blob_inv_def)
qed

lemma blob_inv_request:
  assumes "blob_inv cfg (s, ts)" "i < length ts" "phase_request (ts ! i) = Some q"
  shows "request_ok q"
  using assms by (auto simp: blob_inv_def)

lemmas blob_phase_defs = held_bytes_def held_files_def phase_request_def

text \<open>A step that changes no account and holds no less than before.\<close>

lemma blob_inv_same:
  assumes "blob_inv cfg (s, ts)" "i < length ts" "bs_blobs s' = bs_blobs s" "bs_files s' = bs_files s" "bs_storage s' = bs_storage s"
    and "held_bytes t \<le> held_bytes (ts ! i)" "held_files t \<le> held_files (ts ! i)"
    and "\<And>q. phase_request t = Some q \<Longrightarrow> request_ok q"
  shows "blob_inv cfg (s', ts[i := t])"
  by (rule blob_inv_update[OF assms(1,2)])
    (use assms held_le[OF assms(2), of held_bytes] held_le[OF assms(2), of held_files] in \<open>auto simp: blob_inv_def\<close>)

lemma blob_step_inv:
  assumes "aead_law L" "blob_step L cfg x y" "blob_inv cfg x"
  shows "blob_inv cfg y"
  using assms(2,3)
proof induction
  case (lock i ts bytes media_type limit q s)
  show ?case
    by (rule blob_inv_same[OF lock.prems lock.hyps(1)])
      (use lock.hyps prepare_blob_fields(5)[OF lock.hyps(3)] in \<open>simp_all add: blob_phase_defs\<close>)
next
  case (absent i ts q s)
  show ?case
    by (rule blob_inv_same[OF absent.prems absent.hyps(1)])
      (use absent.hyps(2) blob_inv_request[OF absent.prems absent.hyps(1)] in \<open>simp_all add: blob_phase_defs\<close>)
next
  case (file_swapped i ts q used n s)
  have n: "n = Suc (bs_files s)" "Suc (bs_files s) \<le> MAX_BLOB_DIRECTORY_ENTRIES"
    using file_swapped.hyps(3,4) by (auto simp: file_attempt_def split: if_splits)
  show ?case
    by (rule blob_inv_update[OF file_swapped.prems file_swapped.hyps(1)])
      (use file_swapped.hyps(2) n file_swapped.prems blob_inv_request[OF file_swapped.prems file_swapped.hyps(1)]
        in \<open>simp_all add: blob_phase_defs blob_inv_def\<close>)
next
  case (file_retry i ts q used n s)
  show ?case
    by (rule blob_inv_same[OF file_retry.prems file_retry.hyps(1)])
      (use file_retry.hyps(2) blob_inv_request[OF file_retry.prems file_retry.hyps(1)] in \<open>simp_all add: blob_phase_defs\<close>)
next
  case (storage_refused i ts q used err s)
  have one: "held_files (ts ! i) = 1" "held_bytes (ts ! i) = 0" using storage_refused.hyps(2) by (simp_all add: blob_phase_defs)
  then have pos: "1 \<le> sum_list (map held_files ts)" using held_le[OF storage_refused.hyps(1), of held_files] by simp
  then have rel: "release_blob_file s = s\<lparr>bs_files := bs_files s - 1\<rparr>"
    using storage_refused.prems entries_u64 by (intro release_exact) (auto simp: blob_inv_def)
  show ?case
    by (rule blob_inv_update[OF storage_refused.prems storage_refused.hyps(1)])
      (use one pos rel storage_refused.prems in \<open>auto simp: blob_inv_def blob_phase_defs\<close>)
next
  case (storage_swapped i ts q used n s)
  have n: "n = bs_storage s + bq_expected q" "n \<le> bc_max_run_storage cfg"
    using storage_swapped.hyps(3,4) by (auto simp: storage_attempt_eq)
  have one: "held_files (ts ! i) = 1" "held_bytes (ts ! i) = 0" using storage_swapped.hyps(2) by (simp_all add: blob_phase_defs)
  then have pos: "1 \<le> sum_list (map held_files ts)" using held_le[OF storage_swapped.hyps(1), of held_files] by simp
  show ?case
    by (rule blob_inv_update[OF storage_swapped.prems storage_swapped.hyps(1)])
      (use one pos n storage_swapped.hyps(2) storage_swapped.prems blob_inv_request[OF storage_swapped.prems storage_swapped.hyps(1)]
        in \<open>auto simp: blob_inv_def blob_phase_defs\<close>)
next
  case (storage_retry i ts q used n s)
  show ?case
    by (rule blob_inv_same[OF storage_retry.prems storage_retry.hyps(1)])
      (use storage_retry.hyps(2) blob_inv_request[OF storage_retry.prems storage_retry.hyps(1)] in \<open>simp_all add: blob_phase_defs\<close>)
next
  case (persisted i ts q nonce s io persistence blobs result s')
  have held: "held_files (ts ! i) = 1" "held_bytes (ts ! i) = bq_expected q" and q: "request_ok q"
    using persisted.hyps(2) blob_inv_request[OF persisted.prems persisted.hyps(1)] by (simp_all add: blob_phase_defs)
  have le: "1 \<le> sum_list (map held_files ts)" "bq_expected q \<le> sum_list (map held_bytes ts)"
    using held_le[OF persisted.hyps(1), of held_files] held_le[OF persisted.hyps(1), of held_bytes] held by simp_all
  have inv: "stored_bytes (bs_blobs s) + (sum_list (map held_bytes ts) - bq_expected q + bq_expected q) \<le> bs_storage s"
      "bs_storage s \<le> U64_MAX" "length (bs_blobs s) + (sum_list (map held_files ts) - 1 + 1) \<le> bs_files s" "bs_files s \<le> U64_MAX"
      "bs_storage s \<le> bc_max_run_storage cfg" "bs_files s \<le> MAX_BLOB_DIRECTORY_ENTRIES"
    using persisted.prems le entries_u64 by (auto simp: blob_inv_def)
  have "stored_bytes (bs_blobs s') + (sum_list (map held_bytes ts) - bq_expected q) \<le> bs_storage s' \<and> bs_storage s' \<le> bs_storage s
      \<and> length (bs_blobs s') + (sum_list (map held_files ts) - 1) \<le> bs_files s' \<and> bs_files s' \<le> bs_files s"
    by (rule settle_accounts[OF assms(1) persisted.hyps(3) q persisted.hyps(4,6,7) inv(1-4)])
  then show ?case
    by (intro blob_inv_update[OF persisted.prems persisted.hyps(1)])
      (use held inv(5,6) in \<open>auto simp: blob_phase_defs\<close>)
qed (auto intro!: blob_inv_same simp: blob_phase_defs)

lemma blob_steps_inv:
  assumes "aead_law L" "blob_steps L cfg x y" "blob_inv cfg x"
  shows "blob_inv cfg y"
  using assms(2,3) by induction (auto intro: blob_step_inv[OF assms(1)])

lemma inventory_exact:
  "blob_directory_inventory blobs n b = Inr (n', b') \<Longrightarrow> n \<le> MAX_BLOB_DIRECTORY_ENTRIES \<Longrightarrow>
   n' = n + length blobs \<and> b' = b + stored_bytes blobs \<and> n' \<le> MAX_BLOB_DIRECTORY_ENTRIES"
proof (induction blobs arbitrary: n b)
  case (Cons f blobs)
  obtain name contents where f: "f = (name, contents)" by fastforce
  have n: "saturating_add n 1 = Suc n" using Cons.prems(2) by (simp add: MAX_BLOB_DIRECTORY_ENTRIES_def U64_MAX_def)
  then have "Suc n \<le> MAX_BLOB_DIRECTORY_ENTRIES"
      "blob_directory_inventory blobs (Suc n) (b + length contents) = Inr (n', b')"
    using Cons.prems(1) by (auto simp: f Let_def and_then_eq_Inr split: if_splits)
  from Cons.IH[OF this(2,1)] show ?case by (simp add: f stored_bytes_def)
qed (auto simp: stored_bytes_def)

text \<open>C3: The blob budget holds under concurrency. From the inventory of a directory within its
  budget, whatever the interleaving of any number of stores and whatever file operations fail,
  the files on disk, leftover temporary files included, never exceed the byte budget or the
  entry limit, and the counters never fall below what is on disk.\<close>

theorem blob_budget_concurrent:
  assumes "aead_law L" "blob_directory_inventory (bs_blobs s) 0 0 = Inr (bs_files s, bs_storage s)"
    and "bs_storage s \<le> bc_max_run_storage cfg" "bc_max_run_storage cfg \<le> U64_MAX"
    and "blob_steps L cfg (s, replicate n Idle) (s', ts)"
  shows "stored_bytes (bs_blobs s') \<le> bs_storage s' \<and> bs_storage s' \<le> bc_max_run_storage cfg
    \<and> length (bs_blobs s') \<le> bs_files s' \<and> bs_files s' \<le> MAX_BLOB_DIRECTORY_ENTRIES"
proof -
  have "blob_inv cfg (s, replicate n Idle)"
    using inventory_exact[OF assms(2)] assms(3,4)
    by (simp add: blob_inv_def held_bytes_def held_files_def phase_request_def sum_list_replicate)
  from blob_steps_inv[OF assms(1,5) this] show ?thesis by (auto simp: blob_inv_def)
qed

section \<open>A store is a run of its steps\<close>

lemma unlock_locked: "bq_identity q \<notin> set (bs_locked s) \<Longrightarrow> bs_locked s' = bq_identity q # bs_locked s \<Longrightarrow>
   unlock q s' = s'\<lparr>bs_locked := bs_locked s\<rparr>"
  by (simp add: unlock_def)

lemma persist_locks [simp]:
  "settle_blob q p (s\<lparr>bs_locked := l\<rparr>) = apsnd (\<lambda>s. s\<lparr>bs_locked := l\<rparr>) (settle_blob q p s)"
  by (simp add: settle_blob_def release_blob_file_def release_blob_storage_def split: sum.splits)

lemma store_steps:
  assumes "i < length ts" "ts ! i = Idle" "prepare_blob L cfg bytes media_type limit = Inr q"
    and "bq_identity q \<notin> set (bs_locked s)" "length nonce = 24"
    and "map_of (bs_blobs s) (io_temporary io) = None" "io_temporary io \<noteq> bq_name q"
    and "store_blob_with_limit L cfg nonce io bytes media_type limit s = (result, s')"
  shows "blob_steps L cfg (s, ts) (s', ts[i := Stored result])"
proof -
  define l where "l = bq_identity q # bs_locked s"
  define s0 where "s0 = s\<lparr>bs_locked := l\<rparr>"
  have start: "blob_step L cfg (s, ts) (s0, ts[i := Looking q])"
    unfolding s0_def l_def by (rule blob_step.lock[OF assms(1-4)])
  have swap: "x\<lparr>bs_locked := l, bs_files := m\<rparr> = x\<lparr>bs_files := m, bs_locked := l\<rparr>"
      "x\<lparr>bs_locked := l, bs_storage := m\<rparr> = x\<lparr>bs_storage := m, bs_locked := l\<rparr>"
      "x\<lparr>bs_locked := l, bs_blobs := bl\<rparr> = x\<lparr>bs_blobs := bl, bs_locked := l\<rparr>" for x :: blob_state and m bl
    by simp_all
  have at: "i < length (ts[i := t])" "ts[i := t] ! i = t" for t using assms(1) by simp_all
  have unl: "unlock q (x\<lparr>bs_locked := l\<rparr>) = x" if "bs_locked x = bs_locked s" for x
    using assms(4) that by (simp add: unlock_def l_def)
  note store = assms(8)[unfolded store_blob_with_limit_def assms(3), simplified]
  have blobs: "bs_blobs s0 = bs_blobs s" "bs_files s0 = bs_files s" "bs_storage s0 = bs_storage s" by (simp_all add: s0_def)
  show ?thesis
  proof (cases "existing_blob_matches L (bs_blobs s) q")
    case (Inl err)
    have "blob_step L cfg (s0, ts[i := Looking q]) (unlock q s0, ts[i := Looking q, i := Stored (Inl (SIo err))])"
      by (rule blob_step.conflicting[OF at]) (simp add: blobs Inl)
    then show ?thesis using start store Inl unl[of s] by (simp add: s0_def)
  next
    case (Inr hit)
    show ?thesis
    proof (cases hit)
      case True
      have "blob_step L cfg (s0, ts[i := Looking q]) (unlock q s0, ts[i := Looking q, i := Stored (Inr (bq_ref q))])"
        by (rule blob_step.found[OF at]) (simp add: blobs Inr True)
      then show ?thesis using start store Inr True unl[of s] by (simp add: s0_def)
    next
      case False
      have "blob_step L cfg (s0, ts[i := Looking q]) (s0, ts[i := Looking q, i := FileLoop q (bs_files s0)])"
        by (rule blob_step.absent[OF at]) (simp add: blobs Inr False)
      with start have s1: "blob_steps L cfg (s, ts) (s0, ts[i := FileLoop q (bs_files s)])" by (simp add: blobs)
      show ?thesis
      proof (cases "file_attempt MAX_BLOB_DIRECTORY_ENTRIES (bs_files s)")
        case err: (Inl err)
        have "blob_step L cfg (s0, ts[i := FileLoop q (bs_files s)]) (unlock q s0, ts[i := FileLoop q (bs_files s), i := Stored (Inl err)])"
          by (rule blob_step.file_refused[OF at err])
        then show ?thesis using s1 store Inr False err unl[of s] by (simp add: s0_def reserve_blob_file_def)
      next
        case files: (Inr m)
        let ?s1 = "s\<lparr>bs_files := m\<rparr>"
        have "blob_step L cfg (s0, ts[i := FileLoop q (bs_files s)])
            (s0\<lparr>bs_files := m\<rparr>, ts[i := FileLoop q (bs_files s), i := StorageLoop q (bs_storage s0)])"
          by (rule blob_step.file_swapped[OF at files]) (simp add: blobs)
        with s1 have s2: "blob_steps L cfg (s, ts) (?s1\<lparr>bs_locked := l\<rparr>, ts[i := StorageLoop q (bs_storage s)])"
          using swap by (simp add: blobs s0_def)
        show ?thesis
        proof (cases "storage_attempt (bc_max_run_storage cfg) (bq_expected q) (bs_storage s)")
          case err: (Inl err)
          have "blob_step L cfg (?s1\<lparr>bs_locked := l\<rparr>, ts[i := StorageLoop q (bs_storage s)])
              (unlock q (release_blob_file (?s1\<lparr>bs_locked := l\<rparr>)), ts[i := StorageLoop q (bs_storage s), i := Stored (Inl err)])"
            by (rule blob_step.storage_refused[OF at err])
          moreover have "unlock q (release_blob_file (?s1\<lparr>bs_locked := l\<rparr>)) = release_blob_file ?s1"
            using assms(4) by (simp add: unlock_def release_blob_file_def l_def)
          ultimately show ?thesis using s2 store Inr False files err
            by (simp add: reserve_blob_file_def reserve_blob_storage_def)
        next
          case bytes: (Inr b)
          let ?s2 = "?s1\<lparr>bs_storage := b\<rparr>"
          have "blob_step L cfg (?s1\<lparr>bs_locked := l\<rparr>, ts[i := StorageLoop q (bs_storage s)])
              (?s1\<lparr>bs_locked := l\<rparr>\<lparr>bs_storage := b\<rparr>, ts[i := StorageLoop q (bs_storage s), i := Persisting q])"
            by (rule blob_step.storage_swapped[OF at bytes]) simp
          with s2 have s3: "blob_steps L cfg (s, ts) (?s2\<lparr>bs_locked := l\<rparr>, ts[i := Persisting q])" using swap by simp
          obtain p bl where persist: "seal_and_persist L nonce io (bs_blobs s) q = (p, bl)" by fastforce
          have settle: "settle_blob q p (?s2\<lparr>bs_blobs := bl\<rparr>) = (result, s')"
            using store Inr False files bytes persist by (simp add: reserve_blob_file_def reserve_blob_storage_def)
          have "blob_step L cfg (?s2\<lparr>bs_locked := l\<rparr>, ts[i := Persisting q])
              (unlock q (s'\<lparr>bs_locked := l\<rparr>), ts[i := Persisting q, i := Stored result])"
          proof (rule blob_step.persisted[OF at assms(5) _ assms(7)])
            show "settle_blob q p (?s2\<lparr>bs_locked := l\<rparr>\<lparr>bs_blobs := bl\<rparr>) = (result, s'\<lparr>bs_locked := l\<rparr>)"
              unfolding swap(3) persist_locks settle by simp
          qed (use persist assms(6) in simp_all)
          moreover have "bs_locked s' = bs_locked s"
            using settle by (auto simp: settle_blob_def release_blob_file_def release_blob_storage_def split: sum.splits if_splits)
          ultimately show ?thesis using s3 unl[of s'] by simp
        qed
      qed
    qed
  qed
qed

section \<open>Reading what was stored\<close>

text \<open>The blob of a request is in the directory.\<close>

definition holds_blob :: "('x) crates_scheme \<Rightarrow> (str \<times> bytes) list \<Rightarrow> blob_request \<Rightarrow> bool" where
  "holds_blob L blobs q \<longleftrightarrow> (\<exists>enc. map_of blobs (bq_name q) = Some enc \<and> length enc = bq_expected q
      \<and> (case bq_key q of Some key \<Rightarrow> decrypt_blob L key enc (bq_hash q) | None \<Rightarrow> Inr enc) = Inr (bq_plaintext q))"

lemma store_holds:
  assumes "aead_law L" "length nonce = 24" "map_of (bs_blobs s) (io_temporary io) = None"
    and "store_blob_with_limit L cfg nonce io bytes media_type limit s = (Inr ref, s')"
  obtains q where "prepare_blob L cfg bytes media_type limit = Inr q" "ref = bq_ref q" "holds_blob L (bs_blobs s') q"
proof -
  obtain q where q: "prepare_blob L cfg bytes media_type limit = Inr q"
    using assms(4) by (auto simp: store_blob_with_limit_def split: sum.splits)
  note ok = prepare_blob_fields(5)[OF q]
  consider (hit) "existing_blob_matches L (bs_blobs s) q = Inr True" "ref = bq_ref q" "s' = s"
    | (stored) n b p bl where "seal_and_persist L nonce io (bs_blobs s) q = (p, bl)"
        "settle_blob q p (s\<lparr>bs_files := n, bs_storage := b, bs_blobs := bl\<rparr>) = (Inr ref, s')"
    using assms(4) q
    by (auto simp: store_blob_with_limit_def reserve_blob_file_def reserve_blob_storage_def and_then_eq_Inr
          split: sum.splits bool.splits prod.splits)
  then show thesis
  proof cases
    case hit
    then have "holds_blob L (bs_blobs s) q" unfolding holds_blob_def by (simp only: existing_blob_matches_eq(1)[OF ok])
    then show thesis using that[OF q] hit by simp
  next
    case stored
    have s': "ref = bq_ref q" "bs_blobs s' = bl" "\<exists>b. p = Inr b"
      using stored(2) by (auto simp: settle_blob_def release_blob_file_def release_blob_storage_def split: sum.splits if_splits)
    from assms(1,2) ok assms(3) stored(1) have "holds_blob L bl q"
    proof (cases rule: persist_cases)
      case (new enc)
      then show ?thesis using blob_box.unseal_seal[OF assms(1,2)]
        by (auto simp: holds_blob_def split: option.splits)
    next
      case (temporary contents err)
      then show ?thesis using s'(3) by simp
    next
      case same
      then have "p = Inr False" using s'(3) by auto
      then have "existing_blob_matches L bl q = Inr True" using same by simp
      then show ?thesis unfolding holds_blob_def by (simp only: existing_blob_matches_eq(1)[OF ok])
    qed
    then show thesis using that[OF q] s' by simp
  qed
qed

text \<open>No step removes or replaces a file.\<close>

lemma blob_step_keeps:
  assumes "aead_law L" "blob_step L cfg x y" "blob_inv cfg x" "map_of (bs_blobs (fst x)) name = Some contents"
  shows "map_of (bs_blobs (fst y)) name = Some contents"
  using assms(2-)
proof induction
  case (persisted i ts q nonce s io persistence blobs result s')
  have q: "request_ok q" using blob_inv_request[OF persisted.prems(1) persisted.hyps(1)] persisted.hyps(2) by (simp add: phase_request_def)
  have "bs_blobs s' = blobs"
    using persisted.hyps(7) by (auto simp: settle_blob_def release_blob_file_def release_blob_storage_def split: sum.splits if_splits)
  moreover from assms(1) persisted.hyps(3) q persisted.hyps(4,6) have "map_of blobs name = Some contents"
    by (cases rule: persist_cases) (use persisted.prems(2) persisted.hyps(4) in \<open>auto\<close>)
  ultimately show ?case by simp
qed (simp_all add: release_blob_file_def)

lemma blob_steps_keep:
  assumes "aead_law L" "blob_steps L cfg x y" "blob_inv cfg x" "map_of (bs_blobs (fst x)) name = Some contents"
  shows "map_of (bs_blobs (fst y)) name = Some contents"
  using assms(2-)
proof induction
  case (step y z)
  then show ?case using blob_steps_inv[OF assms(1) step.hyps(1)] blob_step_keeps[OF assms(1) step.hyps(2)] by blast
qed simp

text \<open>The keys a reader of the run directory finds are those the store writes with.\<close>

definition keys_agree :: "('x) run_codecs_scheme \<Rightarrow> blob_config \<Rightarrow> run_dir \<Rightarrow> bool" where
  "keys_agree L cfg rd \<longleftrightarrow> has_keyring rd = Inr (bc_keys cfg \<noteq> None)
     \<and> (\<forall>ring. bc_keys cfg = Some ring \<longrightarrow> (\<exists>k. bc_encryption cfg = Some k
          \<and> (\<forall>c. load_class_key L rd k c = Inr (Some (ring_key ring c)))))"

lemma blobs_irrelevant [simp]:
  "has_keyring (rd\<lparr>rd_blobs := b\<rparr>) = has_keyring rd"
  "load_class_key L (rd\<lparr>rd_blobs := b\<rparr>) k c = load_class_key L rd k c"
  by (simp_all add: has_keyring_def load_class_key_def read_erasure_state_def cong: if_cong sum.case_cong)

lemma decrypt_blob_magic: "decrypt_blob L k enc h = Inr m \<Longrightarrow> is_encrypted_blob enc"
  by (auto simp: decrypt_blob_def decrypt_framed_def is_encrypted_blob_def split: if_splits)

lemma read_held_blob:
  assumes "sha256_law L" "hex_law L" "keys_agree L cfg rd" "prepare_blob L cfg bytes media_type limit = Inr q"
    and "holds_blob L blobs q" "length (bq_plaintext q) \<le> max_bytes"
  shows "read_blob_reference L (rd\<lparr>rd_blobs := blobs\<rparr>) (bq_ref q) (bc_encryption cfg) max_bytes =
     (if bq_key q = None \<and> is_encrypted_blob (bq_plaintext q)
      then Inl (IoError PermissionDenied ''encrypted blob requires the matching effective run key'')
      else Inr (bq_plaintext q))"
proof -
  note f = prepare_blob_fields[OF assms(4)]
  obtain enc where enc: "map_of blobs (bq_name q) = Some enc" "length enc = bq_expected q"
      "(case bq_key q of Some key \<Rightarrow> decrypt_blob L key enc (bq_hash q) | None \<Rightarrow> Inr enc) = Inr (bq_plaintext q)"
    using assms(5) by (auto simp: holds_blob_def)
  have hash: "validate_hash (bq_hash q) = Inr ()"
    using assms(1,2) by (auto simp: validate_hash_def f(2) sha256_law_def hex_law_def list_all_iff)
  have name: "blob_file_name (bq_hash q) (if bc_keys cfg \<noteq> None then Some (from_media_type media_type) else None) = Inr (bq_name q)"
    using f(2,3) by (cases "bc_keys cfg") simp_all
  have fits: "ok_or (checked_add (length (bq_plaintext q)) ENCRYPTED_BLOB_OVERHEAD_BYTES) e = Inr (length (bq_plaintext q) + 48)" for e :: io_error
    using captured_u64[of limit bytes] f(1) by (simp add: ok_or_def checked_add_def ENCRYPTED_BLOB_OVERHEAD_BYTES_def)
  have ref: "pr_size (bq_ref q) = length (bq_plaintext q)" "pr_media_type (bq_ref q) = media_type"
      "ok_or (strip_prefix ''sha256:'' (pr_sha256 (bq_ref q))) e = Inr (bq_hash q)" for e :: io_error
    using f(1,2,6) by (simp_all add: ok_or_def)
  have read: "read_regular_limited (Some enc) (length (bq_plaintext q) + 48) = Inr enc"
    using enc(2) f(5) by (auto simp: read_regular_limited_eq request_ok_def)
  have digest: "hex_encode L (sha256 L (bq_plaintext q)) = bq_hash q" using f(1,2) by simp
  have keyring: "has_keyring rd = Inr (bc_keys cfg \<noteq> None)" using assms(3) by (simp add: keys_agree_def)
  note unfold = read_blob_reference_def[of L "rd\<lparr>rd_blobs := blobs\<rparr>" "bq_ref q" "bc_encryption cfg" max_bytes]
  show ?thesis
  proof (cases "bq_key q")
    case None
    then have plain: "bc_keys cfg = None" "bc_encryption cfg = None" "enc = bq_plaintext q"
      using f(4) enc(3) by (auto simp: blob_key_def split: option.splits)
    show ?thesis unfolding unfold
      using None plain hash name read digest keyring enc(1) assms(6)
      by (simp add: fits ref)
  next
    case (Some key)
    then have magic: "is_encrypted_blob enc" "decrypt_blob L key enc (bq_hash q) = Inr (bq_plaintext q)"
      using enc(3) decrypt_blob_magic by auto
    have key: "case bc_keys cfg of None \<Rightarrow> bc_encryption cfg = Some key
        | Some ring \<Rightarrow> \<exists>k. bc_encryption cfg = Some k \<and> load_class_key L rd k (from_media_type media_type) = Inr (Some key)"
      using f(4) Some assms(3) by (auto simp: blob_key_def keys_agree_def split: option.splits)
    show ?thesis unfolding unfold
      using Some magic key hash name read digest keyring enc(1) assms(6)
      by (cases "bc_keys cfg") (auto simp: fits ref)
  qed
qed

lemma keys_agree_blobs: "keys_agree L cfg (rd\<lparr>rd_blobs := b\<rparr>) = keys_agree L cfg rd"
  by (simp add: keys_agree_def)

text \<open>Every store is prepared, and one that meets no fault and has room succeeds.\<close>

lemma prepare_blob_total:
  assumes "sha256_law L" "hex_law L"
  obtains q where "prepare_blob L cfg bytes media_type limit = Inr q"
proof -
  define captured where "captured = (if length bytes > min limit MAX_SINGLE_BLOB_BYTES
      then take (min limit MAX_SINGLE_BLOB_BYTES) bytes else bytes)"
  have "length captured \<le> MAX_SINGLE_BLOB_BYTES" by (auto simp: captured_def)
  then have len: "length captured + 48 \<le> U64_MAX"
    by (simp add: MAX_SINGLE_BLOB_BYTES_def MAX_CAPTURE_BODY_BYTES_def U64_MAX_def)
  have "validate_hash (hex_encode L (sha256 L captured)) = Inr ()"
    using assms by (auto simp: validate_hash_def sha256_law_def hex_law_def list_all_iff)
  then obtain name where name: "blob_file_name (hex_encode L (sha256 L captured))
      (map_option (\<lambda>_. from_media_type media_type) (bc_keys cfg)) = Inr name"
    by (simp add: blob_file_name_def)
  have "\<exists>n. original_blob_storage_bytes (u64_of_usize (length captured)) b = Inr n" for b
    using len by (simp add: original_blob_storage_bytes_def checked_add_def ok_or_def u64_of_usize_def ENCRYPTED_BLOB_OVERHEAD_BYTES_def)
  then show thesis
    using that name unfolding prepare_blob_def Let_def captured_def[symmetric]
    by (simp add: map_err_def) (metis and_then_simps(2) old.sum.simps(6))
qed

definition no_faults :: "blob_io \<Rightarrow> bool" where
  "no_faults io \<longleftrightarrow> io_open io = None \<and> io_write io = None \<and> io_rename io = None \<and> io_dir_sync io = None"

lemma store_new_blob:
  assumes "prepare_blob L cfg bytes media_type limit = Inr q" "map_of (bs_blobs s) (bq_name q) = None"
    and "bs_files s < MAX_BLOB_DIRECTORY_ENTRIES" "no_faults io" "bq_key q = None"
    and "bs_storage s + bq_expected q \<le> bc_max_run_storage cfg" "bc_max_run_storage cfg \<le> U64_MAX"
  obtains s' where "store_blob_with_limit L cfg nonce io bytes media_type limit s = (Inr (bq_ref q), s')"
    "bs_blobs s' = bt_insert (bq_name q) (bq_plaintext q) (bs_blobs s)"
    "bs_files s' = bs_files s + 1" "bs_storage s' = bs_storage s + bq_expected q"
proof -
  have "existing_blob_matches L (bs_blobs s) q = Inr False"
    using existing_blob_matches_eq(2)[OF prepare_blob_fields(5)[OF assms(1)]] assms(2) by metis
  then show thesis
    using that assms
    by (simp add: store_blob_with_limit_def reserve_blob_file_def reserve_blob_storage_def file_attempt_def
          storage_attempt_def checked_add_def seal_and_persist_def persist_blob_def write_temporary_def settle_blob_def no_faults_def)
qed

definition demo_blob_config :: blob_config where
  "demo_blob_config = \<lparr>bc_max_blob_bytes = 100, bc_max_run_storage = 100, bc_encryption = None, bc_keys = None\<rparr>"

definition demo_blob_state :: blob_state where
  "demo_blob_state = \<lparr>bs_blobs = [], bs_files = 0, bs_storage = 0, bs_stat_blobs = 0, bs_stat_bytes = 0, bs_locked = []\<rparr>"

definition demo_io :: blob_io where
  "demo_io = \<lparr>io_temporary = ''.blob.tmp'', io_open = None, io_write = None, io_rename = None, io_cleanup = None, io_dir_sync = None\<rparr>"

lemma demo_prepared:
  assumes "length bytes \<le> 40"
  obtains q where "prepare_blob demo_run demo_blob_config bytes None 100 = Inr q"
    "bq_expected q = length bytes" "bq_key q = None" "bq_plaintext q = bytes" "bq_name q \<noteq> ''.blob.tmp''"
proof -
  obtain q where q: "prepare_blob demo_run demo_blob_config bytes None 100 = Inr q"
    by (rule prepare_blob_total[of demo_run demo_blob_config bytes None 100]) simp_all
  note f = prepare_blob_fields[OF q]
  have "bq_key q = None" "bq_plaintext q = bytes"
    using f(1,4) assms by (simp_all add: blob_key_def demo_blob_config_def MAX_SINGLE_BLOB_BYTES_def MAX_CAPTURE_BODY_BYTES_def)
  moreover have "bq_name q \<noteq> ''.blob.tmp''"
    using f(3) by (auto simp: blob_file_name_def and_then_eq_Inr demo_blob_config_def)
  ultimately show thesis using that[OF q] f(5) by (simp add: request_ok_def)
qed

lemma demo_stored:
  assumes "length bytes \<le> 40"
  obtains ref s' where "store_blob_with_limit demo_run demo_blob_config demo_nonce demo_io bytes None 100 demo_blob_state = (Inr ref, s')"
    "blob_inv demo_blob_config (s', [])"
proof -
  obtain q where q: "prepare_blob demo_run demo_blob_config bytes None 100 = Inr q" "bq_expected q = length bytes"
      "bq_key q = None" "bq_plaintext q = bytes"
    using demo_prepared[OF assms] by metis
  obtain s' where "store_blob_with_limit demo_run demo_blob_config demo_nonce demo_io bytes None 100 demo_blob_state = (Inr (bq_ref q), s')"
     "bs_blobs s' = bt_insert (bq_name q) (bq_plaintext q) (bs_blobs demo_blob_state)" "bs_files s' = bs_files demo_blob_state + 1"
     "bs_storage s' = bs_storage demo_blob_state + bq_expected q"
    by (rule store_new_blob[OF q(1), of demo_blob_state demo_io demo_nonce])
      (use assms q in \<open>simp_all add: demo_blob_state_def demo_io_def demo_blob_config_def no_faults_def U64_MAX_def MAX_BLOB_DIRECTORY_ENTRIES_def\<close>)
  then show thesis using that q assms
    by (auto simp: blob_inv_def demo_blob_state_def stored_bytes_def demo_blob_config_def U64_MAX_def MAX_BLOB_DIRECTORY_ENTRIES_def)
qed

text \<open>C4: A stored blob stays readable. After a successful store, and after any further concurrent
  stores with whatever failures, reading the returned reference from the run directory gives back
  exactly the captured bytes, for plaintext runs, runs with one key and runs with class keys,
  provided the keys on disk are those the store seals with (\<open>keys_agree\<close>). The exception is a
  plaintext blob that itself begins with the magic of encrypted blobs.\<close>

theorem stored_blob_readable:
  assumes "sha256_law L" "hex_law L" "aead_law L" "keys_agree L cfg rd" "length nonce = 24"
    and "map_of (bs_blobs s) (io_temporary io) = None"
    and "store_blob_with_limit L cfg nonce io bytes media_type limit s = (Inr ref, s')"
    and "blob_inv cfg (s', ts)" "blob_steps L cfg (s', ts) (s'', ts')"
    and "min (length bytes) (min limit MAX_SINGLE_BLOB_BYTES) \<le> max_bytes"
    and "bc_encryption cfg \<noteq> None \<or> bc_keys cfg \<noteq> None \<or> \<not> is_encrypted_blob (take (min limit MAX_SINGLE_BLOB_BYTES) bytes)"
  shows "read_blob_reference L (rd\<lparr>rd_blobs := bs_blobs s''\<rparr>) ref (bc_encryption cfg) max_bytes =
     Inr (take (min limit MAX_SINGLE_BLOB_BYTES) bytes)"
proof -
  obtain q where q: "prepare_blob L cfg bytes media_type limit = Inr q" "ref = bq_ref q" "holds_blob L (bs_blobs s') q"
    by (rule store_holds[OF assms(3,5-7)])
  note f = prepare_blob_fields[OF q(1)]
  have "holds_blob L (bs_blobs s'') q"
    using q(3) blob_steps_keep[OF assms(3,9,8)] by (fastforce simp: holds_blob_def)
  moreover have "length (bq_plaintext q) \<le> max_bytes" using assms(10) f(1) by simp
  moreover have "\<not> (bq_key q = None \<and> is_encrypted_blob (bq_plaintext q))"
    using assms(11) f(1,4) by (auto simp: blob_key_def split: option.splits)
  ultimately show ?thesis
    using read_held_blob[OF assms(1,2,4) q(1)] q(2) f(1) by auto
qed

theorem stored_blob_readable_witness:
  "\<exists>ref s'. store_blob_with_limit demo_run demo_blob_config demo_nonce demo_io ''body'' None 100 demo_blob_state = (Inr ref, s')
     \<and> read_blob_reference demo_run (demo_dir\<lparr>rd_blobs := bs_blobs s'\<rparr>) ref None 100 = Inr ''body''"
proof -
  have four: "length ''body'' \<le> 40" by simp
  obtain ref s' where store: "store_blob_with_limit demo_run demo_blob_config demo_nonce demo_io ''body'' None 100 demo_blob_state = (Inr ref, s')"
      "blob_inv demo_blob_config (s', [])"
    by (rule demo_stored[OF four])
  have "keys_agree demo_run demo_blob_config demo_dir"
    by (simp add: keys_agree_def demo_blob_config_def demo_dir_def has_keyring_def)
  from stored_blob_readable[OF _ _ _ this _ _ store(1,2), of "s'" "[]" 100]
  have "read_blob_reference demo_run (demo_dir\<lparr>rd_blobs := bs_blobs s'\<rparr>) ref None 100 = Inr ''body''"
    by (simp add: demo_nonce_def demo_blob_state_def demo_blob_config_def is_encrypted_blob_def BLOB_MAGIC_def starts_with_def
          MAX_SINGLE_BLOB_BYTES_def MAX_CAPTURE_BODY_BYTES_def)
  then show ?thesis using store(1) by blast
qed

text \<open>C30: A plaintext blob that begins with the magic of encrypted blobs is stored and acknowledged,
  and can never be read back: the reader takes it for an encrypted one and asks for a key.\<close>

theorem magic_blob_unreadable:
  assumes "sha256_law L" "hex_law L" "aead_law L" "has_keyring rd = Inr False" "length nonce = 24"
    and "map_of (bs_blobs s) (io_temporary io) = None" "bc_encryption cfg = None" "bc_keys cfg = None"
    and "store_blob_with_limit L cfg nonce io (BLOB_MAGIC @ rest) media_type limit s = (Inr ref, s')"
    and "8 \<le> limit" "8 + length rest \<le> max_bytes"
  shows "read_blob_reference L (rd\<lparr>rd_blobs := bs_blobs s'\<rparr>) ref None max_bytes =
     Inl (IoError PermissionDenied ''encrypted blob requires the matching effective run key'')"
proof -
  let ?bytes = "BLOB_MAGIC @ rest"
  obtain q where q: "prepare_blob L cfg ?bytes media_type limit = Inr q" "ref = bq_ref q" "holds_blob L (bs_blobs s') q"
    by (rule store_holds[OF assms(3,5,6,9)])
  note f = prepare_blob_fields[OF q(1)]
  have magic: "length BLOB_MAGIC = 8" by (simp add: BLOB_MAGIC_def)
  have "take (min limit MAX_SINGLE_BLOB_BYTES) ?bytes = BLOB_MAGIC @ take (min limit MAX_SINGLE_BLOB_BYTES - 8) rest"
    using assms(10) magic by (simp add: MAX_SINGLE_BLOB_BYTES_def MAX_CAPTURE_BODY_BYTES_def)
  then have "is_encrypted_blob (bq_plaintext q)" using f(1) by (simp add: is_encrypted_blob_def starts_with_iff)
  moreover have "bq_key q = None" using f(4) assms(7,8) by (simp add: blob_key_def)
  moreover have "length (bq_plaintext q) \<le> max_bytes" using assms(11) f(1) magic by simp
  moreover have "keys_agree L cfg rd" using assms(4,8) by (simp add: keys_agree_def)
  ultimately show ?thesis
    using read_held_blob[OF assms(1,2) _ q(1,3), of rd max_bytes] q(2) assms(7) by simp
qed

theorem magic_blob_unreadable_witness:
  "\<exists>ref s'. store_blob_with_limit demo_run demo_blob_config demo_nonce demo_io (BLOB_MAGIC @ ''!'') None 100 demo_blob_state = (Inr ref, s')
     \<and> read_blob_reference demo_run (demo_dir\<lparr>rd_blobs := bs_blobs s'\<rparr>) ref None 100 =
         Inl (IoError PermissionDenied ''encrypted blob requires the matching effective run key'')"
proof -
  have nine: "length (BLOB_MAGIC @ ''!'') \<le> 40" by (simp add: BLOB_MAGIC_def)
  obtain ref s' where store: "store_blob_with_limit demo_run demo_blob_config demo_nonce demo_io (BLOB_MAGIC @ ''!'') None 100 demo_blob_state = (Inr ref, s')"
    by (rule demo_stored[OF nine])
  from magic_blob_unreadable[OF _ _ _ _ _ _ _ _ store, of demo_dir 100] show ?thesis
    using store by (simp add: demo_nonce_def demo_blob_state_def demo_blob_config_def demo_dir_def has_keyring_def)
qed

text \<open>C31: A plaintext store that cannot create its temporary file leaks its reservation. The clean-up then fails
  because there is nothing to remove, which is taken for a file left behind: no file is added, yet
  the file count and the byte budget shrink by the size of the blob, for good.\<close>

theorem failed_open_leaks_reservation:
  assumes "prepare_blob L cfg bytes media_type limit = Inr q" "map_of (bs_blobs s) (bq_name q) = None"
    and "bs_files s < MAX_BLOB_DIRECTORY_ENTRIES"
    and "bs_storage s + bq_expected q \<le> bc_max_run_storage cfg" "bc_max_run_storage cfg \<le> U64_MAX"
    and "io_open io = Some err" "bq_key q = None"
  shows "\<exists>e. store_blob_with_limit L cfg nonce io bytes media_type limit s =
     (Inl e, s\<lparr>bs_files := bs_files s + 1, bs_storage := bs_storage s + bq_expected q\<rparr>)"
proof -
  have "existing_blob_matches L (bs_blobs s) q = Inr False"
    using existing_blob_matches_eq(2)[OF prepare_blob_fields(5)[OF assms(1)]] assms(2) by metis
  then show ?thesis
    using assms(1,3-7)
    by (simp add: store_blob_with_limit_def reserve_blob_file_def reserve_blob_storage_def file_attempt_def
          storage_attempt_def checked_add_def seal_and_persist_def persist_blob_def write_temporary_def settle_blob_def)
qed

theorem failed_open_leaks_reservation_witness:
  "\<exists>e. store_blob_with_limit demo_run demo_blob_config demo_nonce (demo_io\<lparr>io_open := Some (IoError Other ''EMFILE'')\<rparr>) ''body'' None 100
     demo_blob_state = (Inl e, demo_blob_state\<lparr>bs_files := 1, bs_storage := length ''body''\<rparr>)"
proof -
  have four: "length ''body'' \<le> 40" by simp
  obtain q where q: "prepare_blob demo_run demo_blob_config ''body'' None 100 = Inr q" "bq_expected q = length ''body''" "bq_key q = None"
    using demo_prepared[OF four] by metis
  show ?thesis
    using failed_open_leaks_reservation[OF q(1), of demo_blob_state "demo_io\<lparr>io_open := Some (IoError Other ''EMFILE'')\<rparr>"
        "IoError Other ''EMFILE''" demo_nonce] q(2,3)
    by (simp add: demo_blob_state_def demo_blob_config_def MAX_BLOB_DIRECTORY_ENTRIES_def U64_MAX_def)
qed

theorem blob_budget_concurrent_witness:
  "\<exists>ref s' ts. blob_steps demo_run demo_blob_config (demo_blob_state, replicate 2 Idle) (s', ts[0 := Stored (Inr ref)])
     \<and> stored_bytes (bs_blobs s') \<le> 100"
proof -
  have four: "length ''body'' \<le> 40" by simp
  obtain q where q: "prepare_blob demo_run demo_blob_config ''body'' None 100 = Inr q" "bq_name q \<noteq> ''.blob.tmp''"
    using demo_prepared[OF four] by metis
  obtain ref s' where store: "store_blob_with_limit demo_run demo_blob_config demo_nonce demo_io ''body'' None 100 demo_blob_state = (Inr ref, s')"
    by (rule demo_stored[OF four])
  have steps: "blob_steps demo_run demo_blob_config (demo_blob_state, replicate 2 Idle) (s', (replicate 2 Idle)[0 := Stored (Inr ref)])"
    by (rule store_steps[OF _ _ q(1) _ _ _ _ store])
      (use q(2) in \<open>simp_all add: demo_blob_state_def demo_nonce_def demo_io_def\<close>)
  have "stored_bytes (bs_blobs s') \<le> 100"
    using blob_budget_concurrent[OF _ _ _ _ steps] by (simp add: demo_blob_state_def demo_blob_config_def U64_MAX_def)
  then show ?thesis using steps by blast
qed

section \<open>One store, branch by branch\<close>

definition accounts_exact :: "blob_state \<Rightarrow> bool" where
  "accounts_exact s \<longleftrightarrow> bs_files s = length (bs_blobs s) \<and> bs_storage s = stored_bytes (bs_blobs s)"

text \<open>The bytes a request is stored as.\<close>

definition sealed_request :: "('x) crates_scheme \<Rightarrow> bytes \<Rightarrow> blob_request \<Rightarrow> io_error + bytes" where
  "sealed_request L nonce q =
     (case bq_key q of Some key \<Rightarrow> encrypt_blob L nonce key (bq_plaintext q) (bq_hash q) | None \<Rightarrow> Inr (bq_plaintext q))"

lemma persist_faultless:
  assumes "no_faults io" "sealed_request L nonce q = Inr enc" "map_of blobs (bq_name q) = None"
  shows "seal_and_persist L nonce io blobs q = (Inr True, bt_insert (bq_name q) enc blobs)"
  using assms
  by (simp add: seal_and_persist_def sealed_request_def persist_blob_def write_temporary_def no_faults_def Let_def)

lemma existing_blob_cases:
  assumes "request_ok q" "map_of blobs (bq_name q) = Some enc"
  shows "existing_blob_matches L blobs q = Inr True \<longleftrightarrow> length enc = bq_expected q
      \<and> (case bq_key q of Some key \<Rightarrow> decrypt_blob L key enc (bq_hash q) | None \<Rightarrow> Inr enc) = Inr (bq_plaintext q)"
    "existing_blob_matches L blobs q \<noteq> Inr False"
  using existing_blob_matches_eq[OF assms(1), of L blobs] assms(2) by simp_all

text \<open>C26: What one store does on every branch when no file operation fails. From exact accounts: content already
  on disk is neither written nor counted again, and a file of that name with other contents is an
  error; new content is stored under its name, with its reference returned, exactly when the entry
  limit and the byte budget leave room for it; a refused store changes nothing. The accounts stay
  exact.\<close>

theorem store_blob_exact:
  assumes "aead_law L" "length nonce = 24" "prepare_blob L cfg bytes media_type limit = Inr q"
    and "accounts_exact s" "length (bs_blobs s) \<le> MAX_BLOB_DIRECTORY_ENTRIES"
    and "stored_bytes (bs_blobs s) \<le> bc_max_run_storage cfg" "bc_max_run_storage cfg \<le> U64_MAX"
    and "no_faults io" "sealed_request L nonce q = Inr enc"
  shows "case store_blob_with_limit L cfg nonce io bytes media_type limit s of (result, s') \<Rightarrow>
     accounts_exact s'
     \<and> (case map_of (bs_blobs s) (bq_name q) of
          Some old \<Rightarrow> s' = s \<and> (is_ok result \<longleftrightarrow> length old = bq_expected q
            \<and> (case bq_key q of Some key \<Rightarrow> decrypt_blob L key old (bq_hash q) | None \<Rightarrow> Inr old) = Inr (bq_plaintext q))
        | None \<Rightarrow>
            if length (bs_blobs s) < MAX_BLOB_DIRECTORY_ENTRIES
               \<and> stored_bytes (bs_blobs s) + bq_expected q \<le> bc_max_run_storage cfg
            then result = Inr (bq_ref q) \<and> bs_blobs s' = bt_insert (bq_name q) enc (bs_blobs s) \<and> length enc = bq_expected q
            else \<not> is_ok result \<and> s' = s)"
proof -
  have q: "request_ok q" by (rule prepare_blob_fields(5)[OF assms(3)])
  have len: "length enc = bq_expected q"
    using assms(9) q blob_box.seal_length[OF assms(1,2)] by (auto simp: sealed_request_def request_ok_def split: option.splits)
  show ?thesis
  proof (cases "map_of (bs_blobs s) (bq_name q)")
    case (Some old)
    note old = existing_blob_cases[OF q Some, of L]
    show ?thesis
    proof (cases "existing_blob_matches L (bs_blobs s) q")
      case (Inl err)
      then show ?thesis using assms(3,4) old Some by (simp add: store_blob_with_limit_def)
    next
      case (Inr b)
      then show ?thesis using assms(3,4) old Some by (cases b) (simp_all add: store_blob_with_limit_def)
    qed
  next
    case None
    then have absent: "existing_blob_matches L (bs_blobs s) q = Inr False" using existing_blob_matches_eq(2)[OF q, of L] by simp
    let ?s1 = "s\<lparr>bs_files := Suc (bs_files s)\<rparr>"
    show ?thesis
    proof (cases "length (bs_blobs s) < MAX_BLOB_DIRECTORY_ENTRIES")
      case full: False
      then have "reserve_blob_file s = Inl (SBlobFileLimitExceeded (bs_files s) MAX_BLOB_DIRECTORY_ENTRIES)"
        using assms(4) by (simp add: reserve_blob_file_def file_attempt_def accounts_exact_def)
      then show ?thesis using absent assms(3,4) None full by (simp add: store_blob_with_limit_def)
    next
      case room: True
      then have entry: "reserve_blob_file s = Inr ?s1"
        using assms(4) by (simp add: reserve_blob_file_def file_attempt_def accounts_exact_def)
      have storage: "storage_attempt (bc_max_run_storage cfg) (bq_expected q) (bs_storage s) = Inr n \<longleftrightarrow>
          n = stored_bytes (bs_blobs s) + bq_expected q \<and> n \<le> bc_max_run_storage cfg" for n
        using assms(4,7) by (auto simp: storage_attempt_eq accounts_exact_def)
      show ?thesis
      proof (cases "storage_attempt (bc_max_run_storage cfg) (bq_expected q) (bs_storage s)")
        case (Inl err)
        have "release_blob_file ?s1 = s"
          using room assms(4) entries_u64 by (subst release_exact) (auto simp: accounts_exact_def)
        then show ?thesis
          using Inl storage absent entry assms(3,4) None by (auto simp: store_blob_with_limit_def reserve_blob_storage_def)
      next
        case (Inr n)
        then show ?thesis
          using storage[of n] absent entry assms(3,4) None room len persist_faultless[OF assms(8,9) None] bt_insert_absent[OF None, of enc]
          by (simp add: store_blob_with_limit_def reserve_blob_storage_def settle_blob_def accounts_exact_def)
      qed
    qed
  qed
qed

text \<open>A body stored twice: written once, and found the second time.\<close>

theorem store_blob_exact_witness:
  "\<exists>q s'. prepare_blob demo_run demo_blob_config ''body'' None 100 = Inr q
     \<and> store_blob_with_limit demo_run demo_blob_config demo_nonce demo_io ''body'' None 100 demo_blob_state = (Inr (bq_ref q), s')
     \<and> bs_blobs s' = [(bq_name q, ''body'')] \<and> accounts_exact s'
     \<and> (\<exists>ref. store_blob_with_limit demo_run demo_blob_config demo_nonce demo_io ''body'' None 100 s' = (Inr ref, s'))"
proof -
  have four: "length ''body'' \<le> 40" by simp
  obtain q where q: "prepare_blob demo_run demo_blob_config ''body'' None 100 = Inr q" "bq_expected q = length ''body''"
      "bq_key q = None" "bq_plaintext q = ''body''"
    using demo_prepared[OF four] by metis
  have env: "no_faults demo_io" "sealed_request demo_run demo_nonce q = Inr ''body''" "length demo_nonce = 24"
    using q(3,4) by (simp_all add: no_faults_def demo_io_def sealed_request_def demo_nonce_def)
  have cfg: "bc_max_run_storage demo_blob_config = 100" "bc_max_run_storage demo_blob_config \<le> U64_MAX"
      "Suc 0 < MAX_BLOB_DIRECTORY_ENTRIES"
    by (simp_all add: demo_blob_config_def U64_MAX_def MAX_BLOB_DIRECTORY_ENTRIES_def)
  have start: "accounts_exact demo_blob_state" "bs_blobs demo_blob_state = []"
    by (simp_all add: accounts_exact_def demo_blob_state_def stored_bytes_def)
  note exact = store_blob_exact[OF demo_run_laws(4) env(3) q(1) _ _ _ cfg(2) env(1,2)]
  obtain s' where first: "store_blob_with_limit demo_run demo_blob_config demo_nonce demo_io ''body'' None 100 demo_blob_state = (Inr (bq_ref q), s')"
      "bs_blobs s' = [(bq_name q, ''body'')]" "accounts_exact s'"
    using exact[OF start(1)] start(2) cfg q(2) by (auto simp: stored_bytes_def split: prod.splits)
  obtain ref where "store_blob_with_limit demo_run demo_blob_config demo_nonce demo_io ''body'' None 100 s' = (Inr ref, s')"
    using exact[OF first(3)] first(2) cfg q(2-4) by (auto simp: stored_bytes_def is_ok_iff split: prod.splits)
  then show ?thesis using q(1) first by blast
qed

end
