(* ===== verification/Run_Store.thy ===== *)
theory Run_Store
  imports Run_Sessions Blob_Store
begin

text \<open>
  The run store as a whole (\<open>src/storage.rs\<close>): opening a run directory with its event log, blob
  directory and keys, and the client side of the writer: submitting an event, waiting for a
  durable boundary, shutting down.
\<close>

section \<open>Creation\<close>

record run_store =
  st_run_id :: str
  st_policy :: capture_policy
  st_encryption :: "encryption_key option"
  st_blob_keys :: "blob_keyring option"
  st_blobs :: blob_state
  st_writer :: writer_state
  st_closed :: bool

definition store_writer_config :: "capture_policy \<Rightarrow> encryption_key option \<Rightarrow> writer_config" where
  "store_writer_config policy encryption =
     \<lparr>wc_max_event_storage_bytes = max_event_storage_bytes policy, wc_encryption = encryption,
      wc_format = cp_event_log_format policy\<rparr>"

definition store_blob_config :: "run_store \<Rightarrow> blob_config" where
  "store_blob_config st =
     \<lparr>bc_max_blob_bytes = max_blob_bytes (st_policy st),
      bc_max_run_storage = max_run_blob_storage_bytes (st_policy st),
      bc_encryption = st_encryption st, bc_keys = st_blob_keys st\<rparr>"

text \<open>The run directory and the log file are those found on disk; the directories exist or are
  created private. The repair of the log has taken place also when a later step fails.\<close>

definition create_with_encryption ::
  "('x) run_codecs_scheme \<Rightarrow> (bytes \<Rightarrow> bool) \<Rightarrow> (blob_class \<Rightarrow> bytes \<times> bytes) \<Rightarrow> nat option list \<Rightarrow> bool list
   \<Rightarrow> run_dir \<Rightarrow> bytes option \<Rightarrow> str \<Rightarrow> capture_policy \<Rightarrow> encryption_key option
   \<Rightarrow> storage_error + run_store \<times> recovery_report \<times> run_dir" where
  "create_with_encryption L header_name fresh write_faults sync_faults rd events rid policy encryption =
     (if rid = [] \<or> length rid > 256 \<or> any_control rid
      then Inl (SInvalidEnvelope ''run ID is empty, too long, or contains control characters'')
      else
      and_then (map_err SInvalidPolicy (validate_policy header_name policy)) (\<lambda>_.
      let rd = rd\<lparr>rd_private := True\<rparr> in
      and_then (map_err SIo (blob_directory_inventory (rd_blobs rd) 0 0)) (\<lambda>(existing_blob_files, existing_blob_storage_bytes).
      if existing_blob_storage_bytes > max_run_blob_storage_bytes policy
      then Inl (SBlobStorageBudgetExceeded existing_blob_storage_bytes 0 (max_run_blob_storage_bytes policy))
      else
      and_then (open_event_log L (store_writer_config policy encryption) rid events) (\<lambda>(recovery, log).
      let has_legacy_data = (existing_blob_files > 0 \<or> valid_events recovery > 0) in
      and_then (map_err SIo (prepare_for_writer L fresh rd encryption has_legacy_data)) (\<lambda>(blob_keys, rd).
      Inr (\<lparr>st_run_id = rid, st_policy = policy, st_encryption = encryption, st_blob_keys = blob_keys,
            st_blobs = \<lparr>bs_blobs = rd_blobs rd, bs_files = existing_blob_files, bs_storage = existing_blob_storage_bytes,
                        bs_stat_blobs = 0, bs_stat_bytes = 0, bs_locked = []\<rparr>,
            st_writer = start_writer recovery log write_faults sync_faults, st_closed = False\<rparr>,
           recovery, rd))))))"

section \<open>Submitting events\<close>

text \<open>What comes back for a command sent to the writer: its reply, or that the command channel is
  closed, or that the writer ended without a reply. Errors of the writer are passed on as their
  texts, which the parameters \<open>text\<close> and \<open>io_text\<close> stand for.\<close>

datatype 'a outcome = Replied 'a | ChannelClosed | ReplyDropped

definition note_capture_drops :: "nat \<Rightarrow> writer_stats \<Rightarrow> writer_stats" where
  "note_capture_drops n stats = stats\<lparr>st_capture_drops := wrapping_add (st_capture_drops stats) n\<rparr>"

text \<open>The checks before the send, and the event that is sent.\<close>

definition admit_event :: "run_store \<Rightarrow> nat \<Rightarrow> pending_event \<Rightarrow> storage_error + pending_event" where
  "admit_event st elapsed_ns e =
     (if st_closed st then Inl (SWriter ''writer has been shut down'')
      else if pe_run_id e \<noteq> st_run_id st then Inl (SWriter ''event run_id does not match store'')
      else Inr (if pe_monotonic_ns e = 0 then e\<lparr>pe_monotonic_ns := elapsed_ns\<rparr> else e))"

definition append_event ::
  "(storage_error \<Rightarrow> str) \<Rightarrow> run_store \<Rightarrow> nat \<Rightarrow> bool \<Rightarrow> (pending_event \<Rightarrow> (storage_error + nat) outcome)
   \<Rightarrow> pending_event \<Rightarrow> writer_stats \<Rightarrow> (storage_error + nat) \<times> writer_stats" where
  "append_event text st elapsed_ns queue_full send e stats =
     (case admit_event st elapsed_ns e of
        Inl err \<Rightarrow> (Inl err, stats)
      | Inr e \<Rightarrow>
          let stats = (if queue_full then stats\<lparr>st_queue_waits := wrapping_add (st_queue_waits stats) 1\<rparr> else stats) in
          (case send e of
             ChannelClosed \<Rightarrow> (Inl (SWriter ''writer command channel closed''), note_capture_drops 1 stats)
           | ReplyDropped \<Rightarrow> (Inl (SWriter ''writer dropped append acknowledgement''), note_capture_drops 1 stats)
           | Replied (Inl err) \<Rightarrow> (Inl (SWriter (text err)), note_capture_drops 1 stats)
           | Replied (Inr n) \<Rightarrow> (Inr n, stats)))"

definition durable_boundary ::
  "(io_error \<Rightarrow> str) \<Rightarrow> (io_error + writer_stats) outcome \<Rightarrow> storage_error + writer_stats" where
  "durable_boundary io_text answer =
     (case answer of
        ChannelClosed \<Rightarrow> Inl (SWriter ''writer command channel closed'')
      | ReplyDropped \<Rightarrow> Inl (SWriter ''writer dropped flush acknowledgement'')
      | Replied reply \<Rightarrow> map_err (\<lambda>err. SWriter (io_text err)) reply)"

text \<open>How the writer task ended, and \<open>shutdown\<close>: the second call answers from the counters without
  asking the writer, the first waits for its reply and then for the task, unless the handle of
  the task is already taken.\<close>

datatype joined = Panicked str | Returned "storage_error + writer_stats"

definition shutdown ::
  "(io_error \<Rightarrow> str) \<Rightarrow> run_store \<Rightarrow> (io_error + writer_stats) outcome \<Rightarrow> joined option \<Rightarrow> writer_stats
   \<Rightarrow> (storage_error + writer_stats) \<times> run_store" where
  "shutdown io_text st answer writer stats =
     (if st_closed st then (Inr stats, st)
      else
        ((case answer of
            ChannelClosed \<Rightarrow> Inl (SWriter ''writer command channel closed'')
          | ReplyDropped \<Rightarrow> Inl (SWriter ''writer dropped shutdown acknowledgement'')
          | Replied reply \<Rightarrow>
              and_then (map_err (\<lambda>err. SWriter (io_text err)) reply) (\<lambda>acknowledged.
              case writer of
                None \<Rightarrow> Inr acknowledged
              | Some (Panicked error) \<Rightarrow> Inl (SWriter (''writer task panicked: '' @ error))
              | Some (Returned result) \<Rightarrow> result)),
         st\<lparr>st_closed := True\<rparr>))"

section \<open>A client session\<close>

text \<open>The calls of \<open>append\<close> on one store, in the order in which their events enter the channel. The
  writer answers the admitted ones in that order; one it has not answered finds the channel
  closed (\<open>sb_closed\<close>) or its reply dropped.\<close>

record submission =
  sb_elapsed_ns :: nat
  sb_queue_full :: bool
  sb_closed :: bool
  sb_event :: pending_event

abbreviation admit :: "run_store \<Rightarrow> submission \<Rightarrow> storage_error + pending_event" where
  "admit st s \<equiv> admit_event st (sb_elapsed_ns s) (sb_event s)"

definition reply_for :: "submission \<Rightarrow> (storage_error + nat) list \<Rightarrow> (storage_error + nat) outcome" where
  "reply_for s replies =
     (case replies of [] \<Rightarrow> if sb_closed s then ChannelClosed else ReplyDropped | r # _ \<Rightarrow> Replied r)"

fun submit_events ::
  "(storage_error \<Rightarrow> str) \<Rightarrow> run_store \<Rightarrow> submission list \<Rightarrow> (storage_error + nat) list \<Rightarrow> writer_stats
   \<Rightarrow> (storage_error + nat) list \<times> writer_stats" where
  "submit_events text st [] replies stats = ([], stats)"
| "submit_events text st (s # ss) replies stats =
     (case append_event text st (sb_elapsed_ns s) (sb_queue_full s) (\<lambda>_. reply_for s replies) (sb_event s) stats of
        (result, stats) \<Rightarrow>
        (case submit_events text st ss (if is_ok (admit st s) then drop 1 replies else replies) stats of
           (results, stats) \<Rightarrow> (result # results, stats)))"

definition admitted :: "run_store \<Rightarrow> submission list \<Rightarrow> pending_event list" where
  "admitted st ss = concat (map (\<lambda>s. case admit st s of Inl _ \<Rightarrow> [] | Inr e \<Rightarrow> [e]) ss)"

text \<open>The calls that were admitted and failed all the same.\<close>

definition lost_calls :: "run_store \<Rightarrow> submission list \<Rightarrow> (storage_error + nat) list \<Rightarrow> nat" where
  "lost_calls st ss results = length (filter (\<lambda>(s, r). is_ok (admit st s) \<and> \<not> is_ok r) (zip ss results))"

lemma admitted_simps [simp]:
  "admitted st [] = []"
  "admitted st (s # ss) = (case admit st s of Inl _ \<Rightarrow> [] | Inr e \<Rightarrow> [e]) @ admitted st ss"
  by (simp_all add: admitted_def)

lemma lost_calls_simps [simp]:
  "lost_calls st [] results = 0"
  "lost_calls st (s # ss) (r # results) = (if is_ok (admit st s) \<and> \<not> is_ok r then 1 else 0) + lost_calls st ss results"
  by (simp_all add: lost_calls_def)

lemma admitted_run: "e \<in> set (admitted st ss) \<Longrightarrow> pe_run_id e = st_run_id st"
  by (induction ss) (auto simp: admit_event_def split: sum.splits if_splits)

lemma submit_events_length: "submit_events text st ss replies stats = (results, stats') \<Longrightarrow> length results = length ss"
  by (induction ss arbitrary: replies stats results) (auto split: prod.splits)

lemma append_event_result:
  assumes "append_event text st elapsed full send e stats = (result, stats')" "admit_event st elapsed e = Inr e'"
  shows "result = Inr n \<longleftrightarrow> send e' = Replied (Inr n)"
  using assms by (auto simp: append_event_def Let_def split: sum.splits outcome.splits if_splits)

lemma append_event_drops:
  assumes "append_event text st elapsed full send e stats = (result, stats')"
  shows "st_capture_drops stats' = (if is_ok (admit_event st elapsed e) \<and> \<not> is_ok result
    then wrapping_add (st_capture_drops stats) 1 else st_capture_drops stats)"
  using assms by (auto simp: append_event_def note_capture_drops_def Let_def split: sum.splits outcome.splits if_splits)

lemma submit_events_drops:
  assumes "submit_events text st ss replies stats = (results, stats')" "st_capture_drops stats \<le> U64_MAX"
  shows "st_capture_drops stats' = wrapping_add (st_capture_drops stats) (lost_calls st ss results)"
  using assms
proof (induction ss arbitrary: replies stats results)
  case (Cons s ss)
  from Cons.prems(1) obtain r stats1 results1 where first: "append_event text st (sb_elapsed_ns s) (sb_queue_full s)
      (\<lambda>_. reply_for s replies) (sb_event s) stats = (r, stats1)"
    and rest: "submit_events text st ss (if is_ok (admit st s) then drop 1 replies else replies) stats1 = (results1, stats')"
      "results = r # results1"
    by (auto split: prod.splits)
  note drops = append_event_drops[OF first]
  have "st_capture_drops stats1 \<le> U64_MAX" using drops Cons.prems(2) by (auto simp: wrapping_add_def U64_MAX_def)
  from Cons.IH[OF rest(1) this] show ?case
    by (auto simp: drops rest(2) wrapping_add_def mod_simps add.assoc add.commute)
qed (simp add: wrapping_add_def U64_MAX_def)

text \<open>The next answer of the writer.\<close>

lemma answered_next:
  assumes "answered k j replies"
  shows "(j = 0 \<and> (\<forall>n. reply_for s replies \<noteq> Replied (Inr n)) \<and> answered k 0 (drop 1 replies))
    \<or> (\<exists>i. j = Suc i \<and> reply_for s replies = Replied (Inr k) \<and> answered (Suc k) i (drop 1 replies))"
proof (cases j)
  case 0
  obtain refused where "replies = map Inl refused" using assms 0 by (auto simp: answered_def)
  then show ?thesis using 0 by (cases refused) (auto simp: answered_def reply_for_def)
next
  case (Suc i)
  then show ?thesis
    using assms upt_conv_Cons[of k "k + j"] by (auto simp: answered_def reply_for_def simp del: upt_Suc)
qed

text \<open>A sequence number a caller receives is that of its event among the admitted ones; when the
  writer has acknowledged all of those, every admitted call succeeds.\<close>

lemma submit_events_results:
  assumes "submit_events text st ss replies stats = (results, stats')" "answered k j replies" "i < length ss"
  shows "(\<forall>n. results ! i = Inr n \<longrightarrow> (\<exists>e. admit st (ss ! i) = Inr e \<and> k \<le> n \<and> n < k + j \<and> admitted st ss ! (n - k) = e
            \<and> n - k < length (admitted st ss)))
    \<and> (j = length (admitted st ss) \<longrightarrow> is_ok (results ! i) = is_ok (admit st (ss ! i)))"
  using assms
proof (induction ss arbitrary: replies stats results k j i)
  case (Cons s ss)
  from Cons.prems(1) obtain r stats1 results1 where first: "append_event text st (sb_elapsed_ns s) (sb_queue_full s)
      (\<lambda>_. reply_for s replies) (sb_event s) stats = (r, stats1)"
    and rest: "submit_events text st ss (if is_ok (admit st s) then drop 1 replies else replies) stats1 = (results1, stats')"
      "results = r # results1"
    by (auto split: prod.splits)
  show ?case
  proof (cases "admit st s")
    case (Inl err)
    then have "r = Inl err" using first by (simp add: append_event_def)
    then show ?thesis using Inl rest Cons.prems(2,3) Cons.IH[of replies stats1 results1 k j "i - 1"] by (cases i) auto
  next
    case (Inr e)
    from answered_next[OF Cons.prems(2), of s] show ?thesis
    proof (elim disjE exE conjE)
      assume none: "j = 0" "\<forall>n. reply_for s replies \<noteq> Replied (Inr n)" "answered k 0 (drop 1 replies)"
      then have "\<not> is_ok r" using append_event_result[OF first Inr] by (simp add: is_ok_iff)
      then show ?thesis using Inr rest none Cons.prems(3) Cons.IH[of "drop 1 replies" stats1 results1 k 0 "i - 1"]
        by (cases i) auto
    next
      fix m assume some: "j = Suc m" "reply_for s replies = Replied (Inr k)" "answered (Suc k) m (drop 1 replies)"
      then have r: "r = Inr k" using append_event_result[OF first Inr] by simp
      show ?thesis
      proof (cases i)
        case 0
        then show ?thesis using r Inr rest some by simp
      next
        case (Suc i')
        then show ?thesis
          using Inr rest some Cons.prems(3) Cons.IH[of "drop 1 replies" stats1 results1 "Suc k" m i']
          by (auto simp: nth_Cons' Suc_le_eq less_diff_conv2)
      qed
    qed
  qed
qed simp

section \<open>A created store is ready\<close>

lemma load_keyring_keys:
  assumes "load_keyring L rd k = Inr ring"
  shows "load_class_key L rd k c = Inr (Some (ring_key ring c))"
  using assms by (cases c) (auto simp: load_keyring_def and_then_eq_Inr require_active_key_def ok_or_def split: option.splits)

lemma prepare_for_writer_agrees:
  assumes "prepare_for_writer L fresh rd encryption legacy = Inr (keys, rd')"
    and "bc_encryption cfg = encryption" "bc_keys cfg = keys"
  shows "keys_agree L cfg rd' \<longleftrightarrow> (encryption = None \<longrightarrow> rd_keys rd = None)" "rd_blobs rd' = rd_blobs rd"
proof -
  have "(if encryption = None then keys = None \<and> rd' = rd
      else has_keyring rd' = Inr (keys \<noteq> None) \<and> rd_blobs rd' = rd_blobs rd
        \<and> (\<forall>ring. keys = Some ring \<longrightarrow> (\<exists>k. encryption = Some k \<and> load_keyring L rd' k = Inr ring)))"
    using assms(1)
    by (auto simp: prepare_for_writer_def and_then_eq_Inr has_keyring_cases initialize_keyring_def
          split: option.splits if_splits)
  then show "keys_agree L cfg rd' \<longleftrightarrow> (encryption = None \<longrightarrow> rd_keys rd = None)" "rd_blobs rd' = rd_blobs rd"
    using load_keyring_keys assms(2,3)
    by (cases "encryption = None"; fastforce simp: keys_agree_def has_keyring_cases)+
qed

text \<open>What a successful creation has done.\<close>

lemma create_cases:
  assumes "create_with_encryption L header_name fresh write_faults sync_faults rd events rid policy encryption = Inr (st, recovery, rd')"
  obtains files bytes log legacy keys where "blob_directory_inventory (rd_blobs rd) 0 0 = Inr (files, bytes)"
    "bytes \<le> max_run_blob_storage_bytes policy"
    "open_event_log L (store_writer_config policy encryption) rid events = Inr (recovery, log)"
    "prepare_for_writer L fresh (rd\<lparr>rd_private := True\<rparr>) encryption legacy = Inr (keys, rd')"
    "st = \<lparr>st_run_id = rid, st_policy = policy, st_encryption = encryption, st_blob_keys = keys,
        st_blobs = \<lparr>bs_blobs = rd_blobs rd', bs_files = files, bs_storage = bytes,
                    bs_stat_blobs = 0, bs_stat_bytes = 0, bs_locked = []\<rparr>,
        st_writer = start_writer recovery log write_faults sync_faults, st_closed = False\<rparr>"
  using assms by (auto simp: create_with_encryption_def Let_def and_then_eq_Inr split: if_splits)

lemma created_writer_start:
  assumes "log_laws L" "max_event_storage_bytes policy \<le> U64_MAX"
    and "run_history L (store_writer_config policy encryption) rid events acked"
    and "length (disk_events L (store_writer_config policy encryption) events) < U64_MAX"
    and "create_with_encryption L header_name fresh write_faults sync_faults rd events rid policy encryption = Inr (st, recovery, rd')"
  obtains rs where "writer_start L (store_writer_config policy encryption) rs (st_writer st)" "subseq acked (log_events rs)"
    "\<forall>e\<in>set (log_events rs). run_id e = rid"
proof -
  let ?cfg = "store_writer_config policy encryption"
  have cfg: "wc_max_event_storage_bytes ?cfg \<le> U64_MAX" using assms(2) by (simp add: store_writer_config_def)
  obtain es where es: "disk_ok L ?cfg rid events es" "subseq acked es"
    using run_history_disk_ok[OF assms(3,1) cfg] by blast
  have few: "length es < U64_MAX" using assms(4) disk_ok_recovered(1)[OF es(1) assms(1)] by simp
  obtain log where opened: "open_event_log L ?cfg rid events = Inr (recovery, log)"
    and w: "st_writer st = start_writer recovery log write_faults sync_faults"
    by (rule create_cases[OF assms(5)]) simp
  obtain rs where "log_events rs = es" "writer_start L ?cfg rs (st_writer st)"
    using opened_log_starts[OF es(1) assms(1) cfg opened few] w by metis
  then show thesis using that es disk_ok_sequences(2)[OF es(1) assms(1)] by blast
qed

text \<open>C2: A created store is ready. Whatever crashes and faults the run has been through, a store that
  opens on its directory starts its writer after exactly the recovered events, which hold every
  event acknowledged before; its blob accounts cover the directory and respect the budget for any
  number of concurrent stores; and the keys it seals blobs with are those a reader will find,
  except in one case: a store opened without a key on a directory that has a keyring writes
  plaintext blobs that a reader of the directory looks for under the keyed names.\<close>

theorem created_store_ready:
  assumes "log_laws L" "max_event_storage_bytes policy \<le> U64_MAX" "max_run_blob_storage_bytes policy \<le> U64_MAX"
    and "run_history L (store_writer_config policy encryption) rid events acked"
    and "length (disk_events L (store_writer_config policy encryption) events) < U64_MAX"
    and "create_with_encryption L header_name fresh write_faults sync_faults rd events rid policy encryption = Inr (st, recovery, rd')"
  shows "(\<exists>rs. writer_start L (store_writer_config policy encryption) rs (st_writer st) \<and> subseq acked (log_events rs))
    \<and> blob_inv (store_blob_config st) (st_blobs st, replicate n Idle)
    \<and> (keys_agree L (store_blob_config st) rd' \<longleftrightarrow> (encryption = None \<longrightarrow> rd_keys rd = None))
    \<and> rd_blobs rd' = bs_blobs (st_blobs st)"
proof (rule create_cases[OF assms(6)])
  fix files bytes log legacy keys
  assume inv: "blob_directory_inventory (rd_blobs rd) 0 0 = Inr (files, bytes)" "bytes \<le> max_run_blob_storage_bytes policy"
    and prep: "prepare_for_writer L fresh (rd\<lparr>rd_private := True\<rparr>) encryption legacy = Inr (keys, rd')"
    and st: "st = \<lparr>st_run_id = rid, st_policy = policy, st_encryption = encryption, st_blob_keys = keys,
        st_blobs = \<lparr>bs_blobs = rd_blobs rd', bs_files = files, bs_storage = bytes,
                    bs_stat_blobs = 0, bs_stat_bytes = 0, bs_locked = []\<rparr>,
        st_writer = start_writer recovery log write_faults sync_faults, st_closed = False\<rparr>"
  have bc: "bc_encryption (store_blob_config st) = encryption" "bc_keys (store_blob_config st) = keys"
    by (simp_all add: store_blob_config_def st)
  note keys = prepare_for_writer_agrees[OF prep bc]
  have "blob_inv (store_blob_config st) (st_blobs st, replicate n Idle)"
    using inventory_exact[OF inv(1)] inv(2) keys(2) assms(3)
    by (simp add: st blob_inv_def store_blob_config_def held_bytes_def held_files_def phase_request_def sum_list_replicate)
  moreover have "rd_blobs rd' = bs_blobs (st_blobs st)" by (simp add: st)
  moreover have "\<exists>rs. writer_start L (store_writer_config policy encryption) rs (st_writer st) \<and> subseq acked (log_events rs)"
    using created_writer_start[OF assms(1,2,4-6)] by blast
  ultimately show ?thesis using keys(1) by simp
qed

lemma demo_run_log_laws: "log_laws demo_run"
proof -
  have "encrypted_event_law demo_run" "event_json_law demo_run" "json_whitespace_law demo_run" "block_json_law demo_run"
    using log_lawsD[OF demo_log_laws]
    unfolding encrypted_event_law_def event_json_law_def json_whitespace_law_def block_json_law_def demo_run_fields demo_log_fields
    by blast+
  then show ?thesis by (simp add: log_laws_def)
qed

lemma demo_run_lines: "demo_lines demo_run"
proof -
  have valid: "validate_envelope demo_run (demo_event n) = Inr ()" if "0 < n" for n
    using that
    by (simp add: validate_envelope_def demo_event_def from_pending_def new_pending_event_def
          demo_run_fields demo_crates_def SCHEMA_VERSION_def validate_text_def validate_event_ids_def
          validate_optional_text_def default_event_ids_def validate_text_list_def byte_val_def)
  have "encode_plaintext_envelope demo_run (demo_event 1) = Inr ''{1}''" "encode_plaintext_envelope demo_run (demo_event 2) = Inr ''{2}''"
    by (simp_all add: encode_plaintext_eq valid demo_run_fields demo_codecs_json demo_line_complexity event_limits)
  then show ?thesis using demo_run_log_laws by (simp add: demo_lines_def encode_envelope_eq event_limits)
qed

definition demo_policy :: capture_policy where
  "demo_policy = \<lparr>cp_name = ''p'', body_mode = Full, cp_event_log_format = Jsonl, max_event_storage_bytes = 100,
     max_blob_bytes = 100, max_run_blob_storage_bytes = 100, allowed_paths = [], redact_headers = []\<rparr>"

lemma demo_policy_config: "store_writer_config demo_policy None = demo_config"
  by (simp add: store_writer_config_def demo_policy_def demo_config_def)

text \<open>A run that crashed in the middle of its second event, and the store that opens on it.\<close>

abbreviation demo_crashed :: bytes where
  "demo_crashed \<equiv> ''{1}'' @ [newline] @ ''{2''"

lemma demo_crashed_events: "disk_events demo_run demo_config (Some demo_crashed) = [demo_event 1]"
proof -
  have "\<forall>nonce. encode_envelope demo_run nonce (demo_event 1) None = Inr ''{1}''" using demo_run_lines by (simp add: demo_lines_def)
  note line = one_line_log[OF demo_run_log_laws this]
  have "recovered_events demo_run demo_crashed None = Inr [demo_event 1]"
    using recovered_log_image[OF line(1) demo_torn_line] line(2) by simp
  then show ?thesis by (simp add: disk_events_def demo_config_def)
qed

definition demo_full_dir :: run_dir where
  "demo_full_dir = demo_dir\<lparr>rd_blobs := [(''aa'', ''old'')]\<rparr>"

definition demo_crashed_report :: recovery_report where
  "demo_crashed_report = \<lparr>valid_events = 1, last_sequence = 1, valid_bytes = 4, discarded_tail_bytes = 2,
     quarantine = Some ''{2''\<rparr>"

definition demo_store :: "nat option list \<Rightarrow> run_store" where
  "demo_store write_faults = \<lparr>st_run_id = ''r'', st_policy = demo_policy, st_encryption = None, st_blob_keys = None,
     st_blobs = \<lparr>bs_blobs = [(''aa'', ''old'')], bs_files = 1, bs_storage = 3, bs_stat_blobs = 0, bs_stat_bytes = 0, bs_locked = []\<rparr>,
     st_writer = start_writer demo_crashed_report (Some (''{1}'' @ [newline])) write_faults [], st_closed = False\<rparr>"

lemma demo_crashed_opens:
  "open_event_log demo_run demo_config ''r'' (Some demo_crashed) = Inr (demo_crashed_report, Some (''{1}'' @ [newline]))"
proof -
  have "\<forall>nonce. encode_envelope demo_run nonce (demo_event 1) None = Inr ''{1}''" using demo_run_lines by (simp add: demo_lines_def)
  note line = one_line_log[OF demo_run_log_laws this]
  show ?thesis
    using open_log_image[of demo_run demo_config "[([demo_event 1], ''{1}'')]" "''{2''" "''r''"] line demo_torn_line
    by (simp add: demo_config_def demo_crashed_report_def check_event_id_def)
qed

lemma demo_store_created:
  "create_with_encryption demo_run (\<lambda>_. True) demo_fresh write_faults [] demo_full_dir (Some demo_crashed) ''r'' demo_policy None
     = Inr (demo_store write_faults, demo_crashed_report, demo_full_dir)"
proof -
  have "validate_policy (\<lambda>_. True) demo_policy = Inr ()"
    by (simp add: validate_policy_def demo_policy_def MAX_CAPTURE_BODY_BYTES_def byte_val_def)
  moreover have "blob_directory_inventory (rd_blobs (demo_full_dir\<lparr>rd_private := True\<rparr>)) 0 0 = Inr (1, 3)"
    by (simp add: demo_full_dir_def demo_dir_def MAX_BLOB_DIRECTORY_ENTRIES_def U64_MAX_def checked_add_def ok_or_def)
  moreover have "max_run_blob_storage_bytes demo_policy = 100" "demo_full_dir\<lparr>rd_private := True\<rparr> = demo_full_dir"
    by (simp_all add: demo_policy_def demo_full_dir_def demo_dir_def)
  ultimately show ?thesis
    by (simp add: create_with_encryption_def demo_policy_config demo_crashed_opens[simplified] prepare_for_writer_def
          demo_store_def byte_val_def) (simp add: demo_full_dir_def)
qed

lemma demo_store_history:
  "run_history demo_run (store_writer_config demo_policy None) ''r'' (Some demo_crashed) [demo_event 1]"
  "max_event_storage_bytes demo_policy \<le> U64_MAX" "max_run_blob_storage_bytes demo_policy \<le> U64_MAX"
  "length (disk_events demo_run (store_writer_config demo_policy None) (Some demo_crashed)) < U64_MAX"
  unfolding demo_policy_config demo_crashed_events using demo_history[OF demo_run_lines]
  by (simp_all add: demo_policy_def U64_MAX_def)

theorem created_store_ready_witness:
  "run_history demo_run (store_writer_config demo_policy None) ''r'' (Some demo_crashed) [demo_event 1]
   \<and> create_with_encryption demo_run (\<lambda>_. True) demo_fresh [] [] demo_full_dir (Some demo_crashed) ''r'' demo_policy None
       = Inr (demo_store [], demo_crashed_report, demo_full_dir)
   \<and> (\<exists>rs. writer_start demo_run (store_writer_config demo_policy None) rs (st_writer (demo_store []))
           \<and> subseq [demo_event 1] (log_events rs))
   \<and> blob_inv (store_blob_config (demo_store [])) (st_blobs (demo_store []), replicate 3 Idle)
   \<and> keys_agree demo_run (store_blob_config (demo_store [])) demo_full_dir"
proof -
  have "rd_keys demo_full_dir = None" by (simp add: demo_full_dir_def demo_dir_def)
  then show ?thesis
    using created_store_ready[OF demo_run_log_laws demo_store_history(2,3,1,4) demo_store_created, where n = 3]
      demo_store_history(1) demo_store_created[of "[]"] by blast
qed

section \<open>Every submitted event is accounted for\<close>

lemma number_events_nth:
  "i < length ps \<Longrightarrow> number_events env n ps ! i = from_pending (we_uuid env (n + i)) (n + i) (ps ! i)"
proof (induction ps arbitrary: n i)
  case (Cons p ps)
  then show ?case by (cases i) auto
qed simp

lemma created_stats:
  assumes "create_with_encryption L header_name fresh write_faults sync_faults rd events rid policy encryption = Inr (st, recovery, rd')"
  shows "st_capture_drops (ws_stats (st_writer st)) = 0" "st_run_id st = rid"
  by (rule create_cases[OF assms]; simp add: start_writer_def Let_def)+

text \<open>C29: Every submitted event is accounted for, from the caller through the writer to the disk. A store
  opens on a run with any history of crashes; any calls are made on it, and its writer serves the
  events they admit under any write and sync faults, in any batches and among any flushes. Then,
  whatever a crash leaves of the log, a caller that received a sequence number finds exactly its
  event at that number, and the counter of capture drops has counted exactly the admitted calls
  that failed. When the writer ends without an error, and no event came after the shutdown, every
  admitted call has succeeded.\<close>

theorem submitted_events_accounted:
  assumes "log_laws L" "max_event_storage_bytes policy \<le> U64_MAX"
    and "run_history L (store_writer_config policy encryption) rid events acked"
    and "length (disk_events L (store_writer_config policy encryption) events) < U64_MAX"
    and "create_with_encryption L header_name fresh write_faults sync_faults rd events rid policy encryption = Inr (st, recovery, rd')"
    and "\<forall>n. length (we_nonce env n) = 24" "queue_events None queue = admitted st ss"
    and "writer_loop L env (store_writer_config policy encryption) locked (st_writer st) queue = (final, replies, w')"
    and "submit_events text st ss (append_replies replies) (ws_stats (st_writer st)) = (results, stats')"
    and "crash_image (ws_file w') disk'"
  shows "\<exists>es. recovered_events L disk' encryption = Inr es
     \<and> (\<forall>i n. i < length ss \<and> results ! i = Inr n \<longrightarrow>
          (\<exists>e. admit st (ss ! i) = Inr e \<and> 0 < n \<and> n \<le> length es \<and> es ! (n - 1) = from_pending (we_uuid env n) n e))
     \<and> st_capture_drops stats' = wrapping_add 0 (lost_calls st ss results)
     \<and> (served_all final (map fst queue) \<longrightarrow> (\<forall>i<length ss. is_ok (results ! i) = is_ok (admit st (ss ! i))))"
proof (rule created_writer_start[OF assms(1-5)])
  fix rs
  let ?cfg = "store_writer_config policy encryption" and ?s = "ws_sequence (st_writer st)"
  let ?new = "number_events env ?s (admitted st ss)"
  assume rs: "writer_start L ?cfg rs (st_writer st)" "subseq acked (log_events rs)" "\<forall>e\<in>set (log_events rs). run_id e = rid"
  have runs: "\<forall>p\<in>set (queue_events None queue). pe_run_id p = rid"
    using admitted_run created_stats(2)[OF assms(5)] assms(7) by auto
  obtain j where j: "answered ?s j (append_replies replies)"
      "served_all final (queue_commands None queue) \<longrightarrow> j = length (admitted st ss)"
    using writer_loop_spec[OF rs(1) assms(6) runs assms(8)] assms(7) by auto
  have acked: "acknowledged_events env ?s queue replies = take j ?new"
    using acknowledged_events_take[OF answered_acknowledged[OF j(1)]] assms(7) by simp
  obtain es where es: "disk_ok L ?cfg rid (Some disk') es" "prefix (log_events rs @ take j ?new) es"
    by (rule session_disk_ok[OF rs(1,3) assms(6) runs assms(8,10)]) (simp add: acked)
  note call = submit_events_results[OF assms(9) j(1)]
  have "\<exists>e. admit st (ss ! i) = Inr e \<and> 0 < n \<and> n \<le> length es \<and> es ! (n - 1) = from_pending (we_uuid env n) n e"
    if given: "i < length ss" "results ! i = Inr n" for i n
  proof -
    obtain e where e: "admit st (ss ! i) = Inr e" "?s \<le> n" "n < ?s + j" "admitted st ss ! (n - ?s) = e"
        "n - ?s < length (admitted st ss)"
      using call[OF given(1)] given(2) by blast
    have s: "?s = Suc (length (log_events rs))" by (rule writer_start_sequence[OF rs(1)])
    have i: "n - 1 < length (log_events rs @ take j ?new)" using e(2,3,5) s by simp
    have "(log_events rs @ take j ?new) ! (n - 1) = ?new ! (n - ?s)"
      using e(2,3) s by (simp add: nth_append)
    also have "\<dots> = from_pending (we_uuid env n) n e" using number_events_nth[OF e(5)] e(2,4) by simp
    finally show ?thesis
      using e(1,2) s i es(2) by (fastforce simp: prefix_def nth_append)
  qed
  moreover have "recovered_events L disk' encryption = Inr es"
    using disk_ok_recovered(2)[OF es(1) assms(1) refl] by (simp add: store_writer_config_def)
  moreover have "st_capture_drops stats' = wrapping_add 0 (lost_calls st ss results)"
    using submit_events_drops[OF assms(9)] created_stats(1)[OF assms(5)] by simp
  moreover have "served_all final (map fst queue) \<longrightarrow> (\<forall>i<length ss. is_ok (results ! i) = is_ok (admit st (ss ! i)))"
    using call j(2) by (auto simp: queue_commands_def)
  ultimately show ?thesis by blast
qed

text \<open>Three calls on the reopened store: one that is written, one refused for its run, and one whose
  record a fault tears.\<close>

definition demo_submission :: "str \<Rightarrow> submission" where
  "demo_submission rid = \<lparr>sb_elapsed_ns = 0, sb_queue_full = False, sb_closed = False,
     sb_event = new_pending_event 0 rid ''proxy'' ''request''\<rparr>"

abbreviation demo_calls :: "submission list" where
  "demo_calls \<equiv> [demo_submission ''r'', demo_submission ''q'', demo_submission ''r'']"

lemma demo_calls_admitted:
  "admit (demo_store fs) (demo_submission ''r'') = Inr demo_pending"
  "admit (demo_store fs) (demo_submission ''q'') = Inl (SWriter ''event run_id does not match store'')"
  by (simp_all add: admit_event_def demo_store_def demo_submission_def new_pending_event_def)

lemma demo_store_session:
  "\<exists>final err w'. writer_loop demo_run demo_env demo_config True (st_writer (demo_store [None, None, Some 0])) demo_queue
     = (final, [RAppend (Inr 2), RAppend (Inl err)], w') \<and> crash_image (ws_file w') (''{1}'' @ [newline] @ ''{2}'' @ [newline])"
proof -
  have ev: "from_pending n n demo_pending = demo_event n" for n by (simp add: demo_event_def)
  have two: "encode_envelope demo_run nonce (demo_event 2) None = Inr ''{2}''" for nonce
    using demo_run_lines by (simp add: demo_lines_def)
  show ?thesis
    using two two[unfolded numeral_2_eq_2]
    by (cases "encode_envelope demo_run demo_nonce (demo_event (Suc (Suc (Suc 0)))) None")
      (simp_all add: run_writer_simps demo_store_def demo_queue_def demo_crashed_report_def ev
          starts_with_def EVENT_BLOCK_HEADER_def crash_image_def)
qed

theorem submitted_events_accounted_witness:
  "run_history demo_run (store_writer_config demo_policy None) ''r'' (Some demo_crashed) [demo_event 1]
   \<and> create_with_encryption demo_run (\<lambda>_. True) demo_fresh [None, None, Some 0] [] demo_full_dir (Some demo_crashed) ''r''
       demo_policy None = Inr (demo_store [None, None, Some 0], demo_crashed_report, demo_full_dir)
   \<and> (\<exists>final replies w' results stats'. writer_loop demo_run demo_env (store_writer_config demo_policy None) True
       (st_writer (demo_store [None, None, Some 0])) demo_queue = (final, replies, w')
   \<and> submit_events category (demo_store [None, None, Some 0]) demo_calls (append_replies replies)
       (ws_stats (st_writer (demo_store [None, None, Some 0]))) = (results, stats')
   \<and> results ! 0 = Inr 2 \<and> crash_image (ws_file w') (''{1}'' @ [newline] @ ''{2}'' @ [newline])
   \<and> (\<exists>es. recovered_events demo_run (''{1}'' @ [newline] @ ''{2}'' @ [newline]) None = Inr es
          \<and> 2 \<le> length es \<and> es ! 1 = demo_event 2)
   \<and> st_capture_drops stats' = 1)"
proof -
  let ?st = "demo_store [None, None, Some 0]"
  obtain final err w' where loop: "writer_loop demo_run demo_env demo_config True (st_writer ?st) demo_queue
      = (final, [RAppend (Inr 2), RAppend (Inl err)], w')" "crash_image (ws_file w') (''{1}'' @ [newline] @ ''{2}'' @ [newline])"
    using demo_store_session by blast
  obtain results stats' where sub: "submit_events category ?st demo_calls (append_replies [RAppend (Inr 2), RAppend (Inl err)])
      (ws_stats (st_writer ?st)) = (results, stats')" "results ! 0 = Inr 2" "lost_calls ?st demo_calls results = 1"
    by (simp add: append_event_def demo_calls_admitted reply_for_def)
  have "\<forall>n. length (we_nonce demo_env n) = 24" by (simp add: demo_env_def demo_nonce_def)
  moreover have "queue_events None demo_queue = admitted ?st demo_calls" by (simp add: demo_queue_def demo_calls_admitted)
  ultimately obtain es where es: "recovered_events demo_run (''{1}'' @ [newline] @ ''{2}'' @ [newline]) None = Inr es"
      "\<forall>i n. i < length demo_calls \<and> results ! i = Inr n \<longrightarrow> (\<exists>e. admit ?st (demo_calls ! i) = Inr e
         \<and> 0 < n \<and> n \<le> length es \<and> es ! (n - 1) = from_pending (we_uuid demo_env n) n e)"
      "st_capture_drops stats' = wrapping_add 0 1"
    using submitted_events_accounted[OF demo_run_log_laws demo_store_history(2,1,4) demo_store_created _ _
        loop(1)[folded demo_policy_config] sub(1) loop(2)] sub(3) by metis
  have "2 \<le> length es \<and> es ! 1 = demo_event 2"
    using es(2)[rule_format, of 0 2] sub(2) by (simp add: demo_calls_admitted demo_env_def demo_event_def)
  moreover have "st_capture_drops stats' = 1" using es(3) by (simp add: wrapping_add_def U64_MAX_def)
  ultimately show ?thesis
    using loop[folded demo_policy_config] sub(1,2) es(1) demo_store_history(1) demo_store_created[of "[None, None, Some 0]"] by blast
qed

end
