(* ===== verification/Audit_Log.thy ===== *)
theory Audit_Log
  imports Record_Lines Json_Input Model
begin

text \<open>
  The operator audit log (\<open>src/audit.rs\<close>): one JSON record per line, numbered from 1, each
  record carrying the SHA-256 of its predecessor and of itself. The audit root is the directory
  (whether it is a real directory) with its log file, absent or with its content. Appending
  holds the exclusive lock from the verification to the synchronisation and searching holds
  the shared lock, so calls are composed one after another. A fault of an append is a write
  that stops after some bytes or a failed synchronisation.
\<close>

section \<open>Records\<close>

definition MAX_AUDIT_RECORD_BYTES :: nat where "MAX_AUDIT_RECORD_BYTES = 16 * 1024"
definition MAX_AUDIT_RECORDS :: nat where "MAX_AUDIT_RECORDS = 10000000"

record audit_record =
  ar_schema_version :: nat
  ar_sequence :: nat
  ar_event_id :: uuid
  ar_wall_time :: int
  ar_effective_uid :: nat
  ar_process_id :: nat
  ar_action :: str
  ar_outcome :: str
  ar_run_id :: str
  ar_details :: "json option"
  ar_previous_sha256 :: "str option"
  ar_record_sha256 :: str

text \<open>\<open>serde_json::to_vec\<close> and \<open>from_slice\<close> at \<open>AuditRecord\<close>.\<close>

record audit_codecs = crates +
  audit_to_vec :: "audit_record \<Rightarrow> bytes option"
  audit_from_slice :: "bytes \<Rightarrow> audit_record option"

datatype audit_error = AuditMessage str | AuditIo io_error | AuditJson

definition validate_label :: "str \<Rightarrow> str \<Rightarrow> audit_error + unit" where
  "validate_label name value =
     ensure (value \<noteq> [] \<and> length value \<le> 256
             \<and> \<not> list_ex (\<lambda>c. c \<in> {CHR 0x00, carriage_return, newline}) value)
       (AuditMessage (''audit '' @ name @ '' is empty, too long, or contains delimiters''))"

definition validate_audit_hash :: "str \<Rightarrow> audit_error + unit" where
  "validate_audit_hash value =
     (case strip_prefix ''sha256:'' value of
        None \<Rightarrow> Inl (AuditMessage ''audit hash has no sha256 prefix'')
      | Some hash \<Rightarrow> ensure (length hash = 64 \<and> list_all is_ascii_hexdigit hash)
                       (AuditMessage ''audit hash is invalid''))"

definition validate_record :: "audit_record \<Rightarrow> audit_error + unit" where
  "validate_record r =
     and_then (ensure (ar_schema_version r = 1) (AuditMessage ''unsupported audit schema'')) (\<lambda>_.
     and_then (ensure (ar_sequence r > 0) (AuditMessage ''audit sequence must be positive'')) (\<lambda>_.
     and_then (ensure (ar_event_id r \<noteq> 0) (AuditMessage ''audit event ID must not be nil'')) (\<lambda>_.
     and_then (validate_label ''action'' (ar_action r)) (\<lambda>_.
     and_then (validate_label ''outcome'' (ar_outcome r)) (\<lambda>_.
     and_then (validate_label ''run ID'' (ar_run_id r)) (\<lambda>_.
     and_then (validate_audit_hash (ar_record_sha256 r)) (\<lambda>_.
     case ar_previous_sha256 r of Some previous \<Rightarrow> validate_audit_hash previous | None \<Rightarrow> Inr ())))))))"

definition record_hash :: "('x) audit_codecs_scheme \<Rightarrow> audit_record \<Rightarrow> audit_error + str" where
  "record_hash L r =
     and_then (ok_or (audit_to_vec L (r\<lparr>ar_record_sha256 := []\<rparr>)) AuditJson) (\<lambda>canonical.
     Inr (''sha256:'' @ hex_encode L (sha256 L canonical)))"

section \<open>Verification\<close>

datatype audit_match = MatchRequest str str str | MatchRun str str str

fun audit_matches :: "audit_match \<Rightarrow> audit_record \<Rightarrow> bool" where
  "audit_matches (MatchRequest action outcome request_id) r \<longleftrightarrow>
     ar_action r = action \<and> ar_outcome r = outcome
     \<and> Option.bind (ar_details r) (\<lambda>details. Option.bind (json_get details ''request_id'') as_str)
         = Some request_id"
| "audit_matches (MatchRun action outcome rid) r \<longleftrightarrow>
     ar_action r = action \<and> ar_outcome r = outcome \<and> ar_run_id r = rid"

text \<open>The locals of the scan: count, last record (whose hash is \<open>previous_hash\<close>) and match.\<close>

record audit_scan =
  as_records :: nat
  as_previous_hash :: "str option"
  as_last_record :: "audit_record option"
  as_matched :: bool

definition audit_scan_start :: audit_scan where
  "audit_scan_start =
     \<lparr>as_records = 0, as_previous_hash = None, as_last_record = None, as_matched = False\<rparr>"

text \<open>The body of the loop on a line whose line break has been removed.\<close>

definition audit_step ::
  "('x) audit_codecs_scheme \<Rightarrow> audit_match option \<Rightarrow> audit_scan \<Rightarrow> bytes \<Rightarrow> audit_error + audit_scan" where
  "audit_step L target s line =
     and_then (ensure (line \<noteq> [] \<and> length line \<le> MAX_AUDIT_RECORD_BYTES)
       (AuditMessage ''audit record is empty or exceeds its safety limit'')) (\<lambda>_.
     and_then (map_err AuditIo (validate_json_complexity line)) (\<lambda>_.
     and_then (ok_or (audit_from_slice L line) AuditJson) (\<lambda>r.
     and_then (validate_record r) (\<lambda>_.
     let records = saturating_add (as_records s) 1 in
     and_then (ensure (records \<le> MAX_AUDIT_RECORDS)
       (AuditMessage ''audit log exceeds the record-count safety limit'')) (\<lambda>_.
     and_then (ensure (ar_sequence r = records)
       (AuditMessage ''audit sequence is not contiguous'')) (\<lambda>_.
     and_then (ensure (ar_previous_sha256 r = as_previous_hash s)
       (AuditMessage ''audit hash chain is broken'')) (\<lambda>_.
     and_then (record_hash L r) (\<lambda>hash.
     and_then (ensure (ar_record_sha256 r = hash)
       (AuditMessage ''audit record hash mismatch'')) (\<lambda>_.
     Inr \<lparr>as_records = records, as_previous_hash = Some (ar_record_sha256 r),
          as_last_record = Some r,
          as_matched = (as_matched s \<or> (case target of None \<Rightarrow> False | Some t \<Rightarrow> audit_matches t r))\<rparr>)))))))))"

definition incomplete_record :: audit_error where
  "incomplete_record = AuditMessage ''audit log ends with an incomplete record''"

function audit_lines ::
  "('x) audit_codecs_scheme \<Rightarrow> audit_match option \<Rightarrow> audit_scan \<Rightarrow> bytes \<Rightarrow> audit_error + audit_scan" where
  "audit_lines L target s bs =
     (let line = fst (read_until (MAX_AUDIT_RECORD_BYTES + 2) bs);
          rest = snd (read_until (MAX_AUDIT_RECORD_BYTES + 2) bs) in
      if line = [] then Inr s
      else if last line \<noteq> newline then Inl incomplete_record
      else and_then (audit_step L target s (butlast line)) (\<lambda>s'. audit_lines L target s' rest))"
  by pat_completeness auto
termination
  by (relation "measure (\<lambda>(_, _, _, bs). length bs)") (auto intro: read_until_rest_shorter)

declare audit_lines.simps [simp del]

definition verify_locked_file_matching ::
  "('x) audit_codecs_scheme \<Rightarrow> bytes \<Rightarrow> audit_match option \<Rightarrow> audit_error + audit_scan" where
  "verify_locked_file_matching L bs target = audit_lines L target audit_scan_start bs"

definition verify_locked_file :: "('x) audit_codecs_scheme \<Rightarrow> bytes \<Rightarrow> audit_error + audit_scan" where
  "verify_locked_file L bs = verify_locked_file_matching L bs None"

section \<open>Operations\<close>

record audit_root =
  root_is_directory :: bool
  root_log :: "bytes option"

definition real_directory :: "audit_root \<Rightarrow> audit_error + unit" where
  "real_directory root =
     ensure (root_is_directory root) (AuditMessage ''audit root must be a real directory'')"

text \<open>What a call reads from its process: the fresh event ID, the clock, the owner of
  \<open>/proc/self\<close> and the process ID.\<close>

record audit_env =
  env_event_id :: uuid
  env_wall_time :: int
  env_effective_uid :: "io_error + nat"
  env_process_id :: nat

datatype audit_fault = NoFault | WriteFault nat io_error | SyncFault io_error

text \<open>The record an append writes on a log with the given content, and its line.\<close>

definition new_audit_line ::
  "('x) audit_codecs_scheme \<Rightarrow> audit_env \<Rightarrow> bytes \<Rightarrow> str \<Rightarrow> str \<Rightarrow> str \<Rightarrow> json option
   \<Rightarrow> audit_error + audit_record \<times> bytes" where
  "new_audit_line L env log action outcome rid details =
     and_then (verify_locked_file L log) (\<lambda>scan.
     and_then (case as_last_record scan of
                 None \<Rightarrow> Inr 1
               | Some r \<Rightarrow> ok_or (checked_add (ar_sequence r) 1) (AuditMessage ''audit sequence overflow''))
       (\<lambda>seq.
     and_then (map_err AuditIo (env_effective_uid env)) (\<lambda>uid.
     let r = \<lparr>ar_schema_version = 1, ar_sequence = seq, ar_event_id = env_event_id env,
              ar_wall_time = env_wall_time env, ar_effective_uid = uid,
              ar_process_id = env_process_id env, ar_action = action, ar_outcome = outcome,
              ar_run_id = rid, ar_details = details,
              ar_previous_sha256 = map_option ar_record_sha256 (as_last_record scan),
              ar_record_sha256 = []\<rparr> in
     and_then (record_hash L r) (\<lambda>hash.
     let r = r\<lparr>ar_record_sha256 := hash\<rparr> in
     and_then (validate_record r) (\<lambda>_.
     and_then (ok_or (audit_to_vec L r) AuditJson) (\<lambda>bytes.
     and_then (map_err AuditIo (validate_json_complexity bytes)) (\<lambda>_.
     and_then (ensure (length bytes \<le> MAX_AUDIT_RECORD_BYTES)
       (AuditMessage ''audit record exceeds the safety limit'')) (\<lambda>_.
     Inr (r, bytes @ [newline])))))))))"

text \<open>\<open>open_regular_append_create\<close>: the content of the log, empty when it is created.\<close>

definition open_log :: "audit_root \<Rightarrow> bytes" where
  "open_log root = (case root_log root of None \<Rightarrow> [] | Some bs \<Rightarrow> bs)"

definition audit_append ::
  "('x) audit_codecs_scheme \<Rightarrow> audit_env \<Rightarrow> audit_fault \<Rightarrow> str \<Rightarrow> str \<Rightarrow> str \<Rightarrow> json option \<Rightarrow> audit_root
   \<Rightarrow> (audit_error + audit_record) \<times> audit_root" where
  "audit_append L env fault action outcome rid details root =
     (case and_then (validate_label ''action'' action) (\<lambda>_.
           and_then (validate_label ''outcome'' outcome) (\<lambda>_.
           and_then (validate_label ''run ID'' rid) (\<lambda>_. real_directory root))) of
        Inl e \<Rightarrow> (Inl e, root)
      | Inr _ \<Rightarrow>
          let log = open_log root in
          (case new_audit_line L env log action outcome rid details of
             Inl e \<Rightarrow> (Inl e, root\<lparr>root_log := Some log\<rparr>)
           | Inr (r, line) \<Rightarrow>
               (case fault of
                  WriteFault n e \<Rightarrow> (Inl (AuditIo e), root\<lparr>root_log := Some (log @ take n line)\<rparr>)
                | SyncFault e \<Rightarrow> (Inl (AuditIo e), root\<lparr>root_log := Some (log @ line)\<rparr>)
                | NoFault \<Rightarrow> (Inr r, root\<lparr>root_log := Some (log @ line)\<rparr>))))"

record audit_verification =
  av_valid :: bool
  av_records :: nat
  av_last_sequence :: nat
  av_last_sha256 :: "str option"

definition audit_verify :: "('x) audit_codecs_scheme \<Rightarrow> audit_root \<Rightarrow> audit_error + audit_verification" where
  "audit_verify L root =
     and_then (real_directory root) (\<lambda>_.
     and_then (ok_or (root_log root) (AuditIo (IoError NotFound ''No such file or directory''))) (\<lambda>log.
     and_then (verify_locked_file L log) (\<lambda>scan.
     Inr \<lparr>av_valid = True, av_records = as_records scan, av_last_sequence = as_records scan,
          av_last_sha256 = map_option ar_record_sha256 (as_last_record scan)\<rparr>)))"

definition has_request_record ::
  "('x) audit_codecs_scheme \<Rightarrow> audit_root \<Rightarrow> str \<Rightarrow> str \<Rightarrow> str \<Rightarrow> audit_error + bool" where
  "has_request_record L root action outcome request_id =
     and_then (validate_label ''action'' action) (\<lambda>_.
     and_then (validate_label ''outcome'' outcome) (\<lambda>_.
     and_then (validate_label ''request ID'' request_id) (\<lambda>_.
     and_then (real_directory root) (\<lambda>_.
     case root_log root of
       None \<Rightarrow> Inr False
     | Some log \<Rightarrow>
         and_then (verify_locked_file_matching L log (Some (MatchRequest action outcome request_id)))
           (\<lambda>scan. Inr (as_matched scan))))))"

definition has_run_record ::
  "('x) audit_codecs_scheme \<Rightarrow> audit_root \<Rightarrow> str \<Rightarrow> str \<Rightarrow> str \<Rightarrow> audit_error + bool" where
  "has_run_record L root action outcome rid =
     and_then (validate_label ''action'' action) (\<lambda>_.
     and_then (validate_label ''outcome'' outcome) (\<lambda>_.
     and_then (validate_label ''run ID'' rid) (\<lambda>_.
     and_then (real_directory root) (\<lambda>_.
     case root_log root of
       None \<Rightarrow> Inr False
     | Some log \<Rightarrow>
         and_then (verify_locked_file_matching L log (Some (MatchRun action outcome rid)))
           (\<lambda>scan. Inr (as_matched scan))))))"

text \<open>A sequence of appends with their results.\<close>

record audit_call =
  call_env :: audit_env
  call_fault :: audit_fault
  call_action :: str
  call_outcome :: str
  call_run_id :: str
  call_details :: "json option"

fun audit_calls ::
  "('x) audit_codecs_scheme \<Rightarrow> audit_call list \<Rightarrow> audit_root \<Rightarrow> audit_record list \<times> audit_root" where
  "audit_calls L [] root = ([], root)"
| "audit_calls L (c # cs) root =
     (let (result, root) = audit_append L (call_env c) (call_fault c) (call_action c) (call_outcome c)
                             (call_run_id c) (call_details c) root;
          (appended, root) = audit_calls L cs root in
      ((case result of Inr r \<Rightarrow> [r] | Inl _ \<Rightarrow> []) @ appended, root))"

section \<open>Laws of the codec\<close>

text \<open>The serialized record is one line and determines the record. It reads back exactly unless
  the details hold a floating-point number, whose parsing is best-effort, or are the value
  \<open>null\<close>, which reads back as absent.\<close>

fun float_free :: "json \<Rightarrow> bool" where
  "float_free (JNumber (FloatNumber _)) \<longleftrightarrow> False"
| "float_free (JArray vs) \<longleftrightarrow> (\<forall>v\<in>set vs. float_free v)"
| "float_free (JObject kvs) \<longleftrightarrow> (\<forall>kv\<in>set kvs. float_free (snd kv))"
| "float_free _ \<longleftrightarrow> True"

definition exact_details :: "json option \<Rightarrow> bool" where
  "exact_details d = (case d of None \<Rightarrow> True | Some v \<Rightarrow> v \<noteq> JNull \<and> float_free v)"

definition audit_json_law :: "('x) audit_codecs_scheme \<Rightarrow> bool" where
  "audit_json_law L \<longleftrightarrow>
     (\<forall>r bs. audit_to_vec L r = Some bs \<longrightarrow> newline \<notin> set bs \<and> bs \<noteq> []
        \<and> (exact_details (ar_details r) \<longrightarrow> audit_from_slice L bs = Some r))
     \<and> (\<forall>r r' bs. audit_to_vec L r = Some bs \<longrightarrow> audit_to_vec L r' = Some bs \<longrightarrow> r = r')"

section \<open>Reading the lines\<close>

lemma audit_lines_append:
  "audit_lines L t s bs = Inr s' \<Longrightarrow> audit_lines L t s (bs @ ms) = audit_lines L t s' ms"
proof (induction L t s bs rule: audit_lines.induct)
  case (1 L t s bs)
  obtain line rest where r: "read_until (MAX_AUDIT_RECORD_BYTES + 2) bs = (line, rest)"
    by (cases "read_until (MAX_AUDIT_RECORD_BYTES + 2) bs")
  show ?case
  proof (cases "line = []")
    case True
    then have "bs = []" using read_until_empty[of _ bs rest] r by auto
    with 1(2) show ?thesis by (simp add: audit_lines.simps[of L t s "[]"])
  next
    case False
    then have last: "last line = newline"
      using 1(2) r by (auto simp: audit_lines.simps[of L t s bs] split: if_splits)
    with 1(2) False r obtain s1 where s1: "audit_step L t s (butlast line) = Inr s1"
        "audit_lines L t s1 rest = Inr s'"
      by (auto simp: audit_lines.simps[of L t s bs] and_then_eq_Inr)
    have "audit_lines L t s1 (rest @ ms) = audit_lines L t s' ms"
      by (rule 1(1)[of line rest]) (use r s1(2) False last in simp_all)
    then show ?thesis using read_until_extend[OF r False last, of ms] s1(1) False last
      by (simp add: audit_lines.simps[of L t s "bs @ ms"])
  qed
qed

lemma audit_lines_Nil [simp]: "audit_lines L t s [] = Inr s"
  by (simp add: audit_lines.simps)

lemma audit_lines_line:
  assumes "newline \<notin> set l" "length l \<le> MAX_AUDIT_RECORD_BYTES + 1"
  shows "audit_lines L t s (l @ newline # rest) =
     and_then (audit_step L t s l) (\<lambda>s'. audit_lines L t s' rest)"
  using read_until_line[OF assms(1), of "MAX_AUDIT_RECORD_BYTES + 2" rest] assms(2)
  by (simp add: audit_lines.simps[of L t s "l @ newline # rest"])

lemma audit_lines_torn:
  assumes "newline \<notin> set tail" "tail \<noteq> []"
  shows "audit_lines L t s tail = Inl incomplete_record"
proof -
  have "take (MAX_AUDIT_RECORD_BYTES + 2) tail \<noteq> []" using assms(2) by simp
  moreover from this have "last (take (MAX_AUDIT_RECORD_BYTES + 2) tail) \<noteq> newline"
    using assms(1) by (metis in_set_takeD last_in_set)
  ultimately show ?thesis
    using read_until_tail[OF assms(1), of "MAX_AUDIT_RECORD_BYTES + 2"]
    by (simp add: audit_lines.simps[of L t s tail])
qed

section \<open>The records of a verified log\<close>

text \<open>The records a log holds, line by line.\<close>

definition log_records :: "('x) audit_codecs_scheme \<Rightarrow> bytes \<Rightarrow> audit_record list" where
  "log_records L log =
     map (\<lambda>line. the (audit_from_slice L line)) (butlast (split_on (\<lambda>c. c = newline) log))"

text \<open>What makes a list of records a hash chain after \<open>n\<close> records, the last one with the given
  hash.\<close>

fun audit_chain :: "('x) audit_codecs_scheme \<Rightarrow> nat \<Rightarrow> str option \<Rightarrow> audit_record list \<Rightarrow> bool" where
  "audit_chain L n previous [] \<longleftrightarrow> True"
| "audit_chain L n previous (r # rs) \<longleftrightarrow>
     validate_record r = Inr () \<and> ar_sequence r = Suc n \<and> Suc n \<le> MAX_AUDIT_RECORDS
     \<and> ar_previous_sha256 r = previous \<and> record_hash L r = Inr (ar_record_sha256 r)
     \<and> audit_chain L (Suc n) (Some (ar_record_sha256 r)) rs"

definition scan_add :: "audit_match option \<Rightarrow> audit_scan \<Rightarrow> audit_record \<Rightarrow> audit_scan" where
  "scan_add t s r =
     \<lparr>as_records = Suc (as_records s), as_previous_hash = Some (ar_record_sha256 r),
      as_last_record = Some r,
      as_matched = (as_matched s \<or> (case t of None \<Rightarrow> False | Some t \<Rightarrow> audit_matches t r))\<rparr>"

lemma scan_add_sel [simp]:
  "as_records (scan_add t s r) = Suc (as_records s)"
  "as_previous_hash (scan_add t s r) = Some (ar_record_sha256 r)"
  by (simp_all add: scan_add_def)

definition scan_of :: "audit_match option \<Rightarrow> audit_record list \<Rightarrow> audit_scan" where
  "scan_of t rs = foldl (scan_add t) audit_scan_start rs"

lemma scan_of_simps:
  "as_records (scan_of t rs) = length rs"
  "as_previous_hash (scan_of t rs) = (if rs = [] then None else Some (ar_record_sha256 (last rs)))"
  "as_last_record (scan_of t rs) = (if rs = [] then None else Some (last rs))"
  "as_matched (scan_of t rs) \<longleftrightarrow> (\<exists>r\<in>set rs. case t of None \<Rightarrow> False | Some t \<Rightarrow> audit_matches t r)"
  unfolding scan_of_def
  by (induction rs rule: rev_induct) (auto simp: scan_add_def audit_scan_start_def)

lemma max_records_u64: "n \<le> MAX_AUDIT_RECORDS \<Longrightarrow> saturating_add n (Suc 0) = Suc n"
  by (simp add: MAX_AUDIT_RECORDS_def U64_MAX_def)

lemma audit_step_eq_Inr:
  assumes "as_records s \<le> MAX_AUDIT_RECORDS"
  shows "audit_step L t s l = Inr s' \<longleftrightarrow>
     (l \<noteq> [] \<and> length l \<le> MAX_AUDIT_RECORD_BYTES \<and> validate_json_complexity l = Inr ())
     \<and> (\<exists>r. audit_from_slice L l = Some r \<and> s' = scan_add t s r
          \<and> validate_record r = Inr () \<and> ar_sequence r = Suc (as_records s)
          \<and> Suc (as_records s) \<le> MAX_AUDIT_RECORDS \<and> ar_previous_sha256 r = as_previous_hash s
          \<and> record_hash L r = Inr (ar_record_sha256 r))"
  using max_records_u64[OF assms]
  by (auto simp: audit_step_def and_then_eq_Inr scan_add_def Let_def)

lemma log_records_line:
  "newline \<notin> set l \<Longrightarrow> log_records L (l @ newline # rest) = the (audit_from_slice L l) # log_records L rest"
  using split_on_single[of l "\<lambda>c. c = newline"]
  by (fastforce simp: log_records_def split_on_append_sep butlast_append)

lemma audit_lines_records:
  assumes "audit_lines L t s bs = Inr s'" "as_records s \<le> MAX_AUDIT_RECORDS"
  shows "audit_chain L (as_records s) (as_previous_hash s) (log_records L bs)
     \<and> (\<forall>t q. as_records q = as_records s \<longrightarrow> as_previous_hash q = as_previous_hash s \<longrightarrow>
          audit_lines L t q bs = Inr (foldl (scan_add t) q (log_records L bs)))
     \<and> (\<forall>ms. log_records L (bs @ ms) = log_records L bs @ log_records L ms)"
  using assms
proof (induction L t s bs rule: audit_lines.induct)
  case (1 L t s bs)
  obtain line rest where r: "read_until (MAX_AUDIT_RECORD_BYTES + 2) bs = (line, rest)"
    by (cases "read_until (MAX_AUDIT_RECORD_BYTES + 2) bs")
  show ?case
  proof (cases "line = []")
    case True
    then have "bs = []" using read_until_empty[of _ bs rest] r by auto
    then show ?thesis by (simp add: log_records_def)
  next
    case False
    then have last: "last line = newline"
      using 1(2) r by (auto simp: audit_lines.simps[of L t s bs] split: if_splits)
    then obtain l where l: "line = l @ [newline]" "newline \<notin> set l"
      using read_until_last[OF r False] by blast
    have bs: "bs = l @ newline # rest" and len: "length l \<le> MAX_AUDIT_RECORD_BYTES + 1"
      using read_until_append[OF r] read_until_length[OF r] l(1) by auto
    from 1(2) obtain s1 where s1: "audit_step L t s l = Inr s1" "audit_lines L t s1 rest = Inr s'"
      by (auto simp: bs audit_lines_line[OF l(2) len] and_then_eq_Inr)
    obtain e where e: "audit_from_slice L l = Some e" "s1 = scan_add t s e"
        "audit_chain L (as_records s) (as_previous_hash s) [e]"
        "l \<noteq> [] \<and> length l \<le> MAX_AUDIT_RECORD_BYTES \<and> validate_json_complexity l = Inr ()"
      using s1(1) by (auto simp: audit_step_eq_Inr[OF 1(3)])
    have step: "audit_step L t' q l = Inr (scan_add t' q e)"
      if "as_records q = as_records s" "as_previous_hash q = as_previous_hash s" for t' q
      using e that 1(3) by (subst audit_step_eq_Inr) auto
    have "as_records s1 \<le> MAX_AUDIT_RECORDS" using e by simp
    then have IH: "audit_chain L (as_records s1) (as_previous_hash s1) (log_records L rest)
       \<and> (\<forall>t q. as_records q = as_records s1 \<longrightarrow> as_previous_hash q = as_previous_hash s1 \<longrightarrow>
            audit_lines L t q rest = Inr (foldl (scan_add t) q (log_records L rest)))
       \<and> (\<forall>ms. log_records L (rest @ ms) = log_records L rest @ log_records L ms)"
      by (intro 1(1)[of line rest]) (use r s1(2) False last in simp_all)
    show ?thesis
      using IH e step by (simp add: bs log_records_line[OF l(2)] audit_lines_line[OF l(2) len])
  qed
qed

text \<open>A verified log: scanning it for any target succeeds and gives the records it holds.\<close>

definition verified :: "('x) audit_codecs_scheme \<Rightarrow> bytes \<Rightarrow> bool" where
  "verified L log \<longleftrightarrow>
     audit_chain L 0 None (log_records L log)
     \<and> (\<forall>t. verify_locked_file_matching L log t = Inr (scan_of t (log_records L log)))"

lemma verified_iff: "verified L log \<longleftrightarrow> is_ok (verify_locked_file L log)"
  using audit_lines_records[of L None audit_scan_start log]
  by (fastforce simp: verified_def verify_locked_file_def verify_locked_file_matching_def scan_of_def
      is_ok_iff audit_scan_start_def)


lemma verified_simps:
  assumes "verified L log"
  shows "verify_locked_file L log = Inr (scan_of None (log_records L log))"
    "verify_locked_file_matching L log t = Inr (scan_of t (log_records L log))"
  using assms by (simp_all add: verified_def verify_locked_file_def)

lemma verified_Nil [simp]: "verified L []" "log_records L [] = []"
  by (simp_all add: verified_def verify_locked_file_matching_def log_records_def scan_of_def)

lemma log_records_append:
  assumes "verified L log"
  shows "log_records L (log @ ms) = log_records L log @ log_records L ms"
  using audit_lines_records[of L None audit_scan_start log "scan_of None (log_records L log)"] assms
  by (simp add: verified_def verify_locked_file_matching_def audit_scan_start_def)

lemma audit_chain_append:
  "audit_chain L n p (rs @ rs') \<longleftrightarrow> audit_chain L n p rs
     \<and> audit_chain L (n + length rs) (if rs = [] then p else Some (ar_record_sha256 (last rs))) rs'"
  by (induction rs arbitrary: n p) auto

lemma audit_chain_last:
  "audit_chain L 0 None rs \<Longrightarrow> rs \<noteq> [] \<Longrightarrow> ar_sequence (last rs) = length rs"
  by (induction rs rule: rev_induct) (auto simp: audit_chain_append)

lemma audit_chain_sequence:
  "audit_chain L n p rs \<Longrightarrow> map ar_sequence rs = [Suc n..<Suc (n + length rs)]"
  by (induction rs arbitrary: n p) (auto simp: upt_conv_Cons)

text \<open>Reading one more line after a verified log.\<close>

lemma verify_line:
  assumes "verified L log" "newline \<notin> set l" "length l \<le> MAX_AUDIT_RECORD_BYTES + 1"
  shows "verify_locked_file_matching L (log @ l @ [newline]) t =
     audit_step L t (scan_of t (log_records L log)) l"
proof -
  have "audit_lines L t audit_scan_start log = Inr (scan_of t (log_records L log))"
    using assms(1) by (simp add: verified_def verify_locked_file_matching_def)
  then show ?thesis
    using audit_lines_line[OF assms(2,3), of L t "scan_of t (log_records L log)" "[]"]
    by (cases "audit_step L t (scan_of t (log_records L log)) l")
      (simp_all add: verify_locked_file_matching_def audit_lines_append)
qed

section \<open>Appending\<close>

lemma new_audit_line_eq_Inr:
  assumes "new_audit_line L env log action outcome rid details = Inr (r, line)"
  shows "verified L log" "ar_sequence r = Suc (length (log_records L log))"
    "ar_action r = action" "ar_outcome r = outcome" "ar_run_id r = rid" "ar_details r = details"
    "ar_previous_sha256 r = as_previous_hash (scan_of None (log_records L log))"
    "record_hash L r = Inr (ar_record_sha256 r)" "validate_record r = Inr ()"
    "\<exists>bs. line = bs @ [newline] \<and> audit_to_vec L r = Some bs
       \<and> validate_json_complexity bs = Inr () \<and> length bs \<le> MAX_AUDIT_RECORD_BYTES"
proof -
  show v: "verified L log"
    using assms by (auto simp: new_audit_line_def verified_iff and_then_eq_Inr)
  note last = audit_chain_last[of L "log_records L log"]
  show "ar_sequence r = Suc (length (log_records L log))"
    using assms v last
    by (auto simp: new_audit_line_def verified_simps[OF v] verified_def scan_of_simps and_then_eq_Inr
        Let_def split: if_splits)
  show "ar_action r = action" "ar_outcome r = outcome" "ar_run_id r = rid" "ar_details r = details"
    "ar_previous_sha256 r = as_previous_hash (scan_of None (log_records L log))"
    "record_hash L r = Inr (ar_record_sha256 r)" "validate_record r = Inr ()"
    "\<exists>bs. line = bs @ [newline] \<and> audit_to_vec L r = Some bs
       \<and> validate_json_complexity bs = Inr () \<and> length bs \<le> MAX_AUDIT_RECORD_BYTES"
    using assms
    by (auto simp: new_audit_line_def verified_simps[OF v] scan_of_simps and_then_eq_Inr Let_def
        record_hash_def)
qed

text \<open>A line that an append writes verifies after the log it was made for, up to the greatest
  number of records.\<close>

lemma new_audit_line_step:
  assumes "audit_json_law L" "exact_details details"
    and "new_audit_line L env log action outcome rid details = Inr (r, line)"
  shows "log_records L (log @ line) = log_records L log @ [r]"
    and "length (log_records L log) < MAX_AUDIT_RECORDS \<Longrightarrow> verified L (log @ line)"
    and "length (log_records L log) = MAX_AUDIT_RECORDS \<Longrightarrow> verify_locked_file_matching L (log @ line) t =
       Inl (AuditMessage ''audit log exceeds the record-count safety limit'')"
proof -
  note n = new_audit_line_eq_Inr[OF assms(3)]
  obtain bs where bs: "line = bs @ [newline]" "audit_to_vec L r = Some bs"
      "validate_json_complexity bs = Inr ()" "length bs \<le> MAX_AUDIT_RECORD_BYTES"
    using n(10) by blast
  have codec: "newline \<notin> set bs" "bs \<noteq> []" "audit_from_slice L bs = Some r"
    using assms(1,2) bs(2) n(6) by (auto simp: audit_json_law_def)
  have le: "as_records (scan_of t (log_records L log)) \<le> MAX_AUDIT_RECORDS" for t
    using audit_chain_last[of L "log_records L log"] n(1)
    by (cases "log_records L log" rule: rev_cases) (auto simp: verified_def audit_chain_append scan_of_simps)
  show recs: "log_records L (log @ line) = log_records L log @ [r]"
    using log_records_line[OF codec(1), of L "[]"] codec(3)
    by (simp add: log_records_append[OF n(1)] bs(1))
  have step: "verify_locked_file_matching L (log @ line) t
      = audit_step L t (scan_of t (log_records L log)) bs" for t
    using verify_line[OF n(1) codec(1), of t] bs by simp
  show "verified L (log @ line)" if "length (log_records L log) < MAX_AUDIT_RECORDS"
    unfolding verified_iff verify_locked_file_def step
    using that n codec bs by (subst is_ok_iff, subst audit_step_eq_Inr[OF le]) (auto simp: scan_of_simps)
  show "verify_locked_file_matching L (log @ line) t =
       Inl (AuditMessage ''audit log exceeds the record-count safety limit'')"
    if "length (log_records L log) = MAX_AUDIT_RECORDS"
    unfolding step using that n(9) codec bs max_records_u64[of MAX_AUDIT_RECORDS]
    by (simp add: audit_step_def scan_of_simps Let_def)
qed

text \<open>Sequences of appends.\<close>

lemma audit_append_cases:
  assumes "audit_append L env NoFault action outcome rid details root = (result, root')"
  obtains "root' = root" "\<not> is_ok result"
  | "root_is_directory root'" "root_log root' = Some (open_log root)" "\<not> is_ok result"
  | r line where "root_is_directory root'" "result = Inr r" "root_log root' = Some (open_log root @ line)"
    "new_audit_line L env (open_log root) action outcome rid details = Inr (r, line)"
  using assms
  by (auto simp: audit_append_def real_directory_def Let_def and_then_eq_Inr split: sum.splits)

lemma audit_calls_records:
  assumes "audit_json_law L" "audit_calls L cs root = (rs, root')" "root_is_directory root"
    and "\<forall>c\<in>set cs. call_fault c = NoFault \<and> exact_details (call_details c)"
    and "verified L (open_log root)"
    and "length (log_records L (open_log root)) + length cs \<le> MAX_AUDIT_RECORDS"
  shows "root_is_directory root' \<and> verified L (open_log root')
     \<and> log_records L (open_log root') = log_records L (open_log root) @ rs"
  using assms(2-)
proof (induction cs arbitrary: root rs)
  case Nil
  then show ?case by simp
next
  case (Cons c cs)
  obtain result root1 rs1 where c: "audit_append L (call_env c) NoFault (call_action c)
      (call_outcome c) (call_run_id c) (call_details c) root = (result, root1)"
      "audit_calls L cs root1 = (rs1, root')"
      "rs = (case result of Inr r \<Rightarrow> [r] | Inl _ \<Rightarrow> []) @ rs1"
    using Cons.prems(1,3) by (auto split: prod.splits)
  have details: "exact_details (call_details c)"
    and rest: "\<forall>c\<in>set cs. call_fault c = NoFault \<and> exact_details (call_details c)"
    using Cons.prems(3) by auto
  have len: "length (log_records L (open_log root)) + length cs < MAX_AUDIT_RECORDS"
    using Cons.prems(5) by simp
  note IH = Cons.IH[OF c(2) _ rest]
  from c(1) show ?case
  proof (cases rule: audit_append_cases)
    case 1
    then show ?thesis using IH Cons.prems(2,4) c(3) len by (cases result) simp_all
  next
    case 2
    then have "open_log root1 = open_log root" by (simp add: open_log_def[of root1])
    then show ?thesis using 2 IH Cons.prems(4) c(3) len by (cases result) simp_all
  next
    case (3 r line)
    then have log: "open_log root1 = open_log root @ line" by (simp add: open_log_def[of root1])
    have line: "log_records L (open_log root1) = log_records L (open_log root) @ [r]"
      "verified L (open_log root1)"
      using new_audit_line_step(1,2)[OF assms(1) details 3(4)] len log by simp_all
    have "root_is_directory root' \<and> verified L (open_log root')
       \<and> log_records L (open_log root') = log_records L (open_log root1) @ rs1"
      by (rule IH) (use 3(1) line len in simp_all)
    then show ?thesis using line(1) c(3) 3(2) by simp
  qed
qed

text \<open>Two chains with a common record hash agree up to there, unless two canonical records
  collide.\<close>

definition hash_collision :: "('x) audit_codecs_scheme \<Rightarrow> audit_record list \<Rightarrow> audit_record list \<Rightarrow> bool" where
  "hash_collision L rs rs' \<longleftrightarrow>
     (\<exists>r\<in>set rs. \<exists>r'\<in>set rs'. \<exists>m m'. audit_to_vec L (r\<lparr>ar_record_sha256 := []\<rparr>) = Some m
        \<and> audit_to_vec L (r'\<lparr>ar_record_sha256 := []\<rparr>) = Some m' \<and> m \<noteq> m' \<and> sha256 L m = sha256 L m')"

lemma same_hash_record:
  assumes "audit_json_law L" "hex_law L" "ar_record_sha256 r = ar_record_sha256 r'"
    and "record_hash L r = Inr (ar_record_sha256 r)" "record_hash L r' = Inr (ar_record_sha256 r')"
  shows "r = r' \<or> hash_collision L [r] [r']"
proof -
  obtain m where m: "audit_to_vec L (r\<lparr>ar_record_sha256 := []\<rparr>) = Some m"
      "ar_record_sha256 r = ''sha256:'' @ hex_encode L (sha256 L m)"
    using assms(4) unfolding record_hash_def by (auto simp only: and_then_eq_Inr ok_or_eq_Inr sum.inject)
  obtain m' where m': "audit_to_vec L (r'\<lparr>ar_record_sha256 := []\<rparr>) = Some m'"
      "ar_record_sha256 r' = ''sha256:'' @ hex_encode L (sha256 L m')"
    using assms(5) unfolding record_hash_def by (auto simp only: and_then_eq_Inr ok_or_eq_Inr sum.inject)
  have "hex_encode L (sha256 L m) = hex_encode L (sha256 L m')" using m(2) m'(2) assms(3) by simp
  then have sha: "sha256 L m = sha256 L m'" using hex_inject[OF assms(2)] by simp
  show ?thesis
  proof (cases "m = m'")
    case True
    then have "r\<lparr>ar_record_sha256 := []\<rparr> = r'\<lparr>ar_record_sha256 := []\<rparr>"
      using assms(1) m(1) m'(1) unfolding audit_json_law_def by blast
    then have "r = r'" using assms(3) by (cases r, cases r') simp
    then show ?thesis ..
  qed (use m(1) m'(1) sha in \<open>auto simp: hash_collision_def\<close>)
qed

lemma hash_collision_mono:
  "hash_collision L rs rs' \<Longrightarrow> set rs \<subseteq> set qs \<Longrightarrow> set rs' \<subseteq> set qs' \<Longrightarrow> hash_collision L qs qs'"
  unfolding hash_collision_def by blast

lemma same_hash_chain:
  assumes "audit_json_law L" "hex_law L"
    and "audit_chain L 0 None (rs @ [r])" "audit_chain L 0 None (rs' @ [r'])"
    and "ar_record_sha256 r = ar_record_sha256 r'"
  shows "rs @ [r] = rs' @ [r'] \<or> hash_collision L (rs @ [r]) (rs' @ [r'])"
  using assms(3-)
proof (induction rs arbitrary: r rs' r' rule: rev_induct)
  case Nil
  have "r = r' \<or> hash_collision L [r] [r']"
    using same_hash_record[OF assms(1,2)] Nil by (auto simp: audit_chain_append)
  then show ?case
  proof
    assume "r = r'"
    then have "rs' = []" using Nil by (auto simp: audit_chain_append split: if_splits)
    then show ?thesis using \<open>r = r'\<close> by simp
  next
    assume "hash_collision L [r] [r']"
    then show ?thesis using hash_collision_mono[of L "[r]" "[r']" "[r]" "rs' @ [r']"] by simp
  qed
next
  case (snoc q qs)
  have "r = r' \<or> hash_collision L [r] [r']"
    using same_hash_record[OF assms(1,2)] snoc.prems by (auto simp: audit_chain_append)
  then show ?case
  proof
    assume r: "r = r'"
    then obtain qs' q' where rs': "rs' = qs' @ [q']" "ar_record_sha256 q = ar_record_sha256 q'"
      using snoc.prems by (cases rs' rule: rev_cases) (auto simp: audit_chain_append)
    have "qs @ [q] = qs' @ [q'] \<or> hash_collision L (qs @ [q]) (qs' @ [q'])"
      using snoc.IH[of q qs' q'] snoc.prems rs' by (simp add: audit_chain_append)
    then show ?thesis
      using r rs' hash_collision_mono[of L "qs @ [q]" "qs' @ [q']" "(qs @ [q]) @ [r]" "rs' @ [r']"] by auto
  next
    assume "hash_collision L [r] [r']"
    then show ?thesis
      using hash_collision_mono[of L "[r]" "[r']" "(qs @ [q]) @ [r]" "rs' @ [r']"] by simp
  qed
qed

lemma audit_calls_subseq:
  "audit_calls L cs root = (rs, root') \<Longrightarrow>
   subseq (map (\<lambda>r. (ar_action r, ar_outcome r, ar_run_id r, ar_details r)) rs)
     (map (\<lambda>c. (call_action c, call_outcome c, call_run_id c, call_details c)) cs)"
proof (induction cs arbitrary: root rs)
  case (Cons c cs)
  obtain result root1 rs1 where c: "audit_append L (call_env c) (call_fault c) (call_action c)
      (call_outcome c) (call_run_id c) (call_details c) root = (result, root1)"
      "audit_calls L cs root1 = (rs1, root')"
      "rs = (case result of Inr r \<Rightarrow> [r] | Inl _ \<Rightarrow> []) @ rs1"
    using Cons.prems by (auto split: prod.splits)
  have "ar_action r = call_action c \<and> ar_outcome r = call_outcome c \<and> ar_run_id r = call_run_id c
      \<and> ar_details r = call_details c" if "result = Inr r" for r
    using c(1) that new_audit_line_eq_Inr(3-6)
    by (fastforce simp: audit_append_def Let_def split: sum.splits audit_fault.splits)
  then show ?case using Cons.IH[OF c(2)] c(3) by (cases result) auto
qed simp

lemma unverifiable_log:
  assumes "root_log root = Some log" "verify_locked_file L log = Inl e"
  shows "\<exists>err. audit_append L env fault action outcome rid details root = (Inl err, root)"
  using assms by (auto simp: audit_append_def open_log_def new_audit_line_def split: sum.splits)

lemma audit_append_line:
  assumes "new_audit_line L env (open_log root) action outcome rid details = Inr (r, line)"
    and "root_is_directory root"
  shows "audit_append L env fault action outcome rid details root =
     (case fault of
        WriteFault n e \<Rightarrow> (Inl (AuditIo e), root\<lparr>root_log := Some (open_log root @ take n line)\<rparr>)
      | SyncFault e \<Rightarrow> (Inl (AuditIo e), root\<lparr>root_log := Some (open_log root @ line)\<rparr>)
      | NoFault \<Rightarrow> (Inr r, root\<lparr>root_log := Some (open_log root @ line)\<rparr>))"
proof -
  note n = new_audit_line_eq_Inr[OF assms(1)]
  have "validate_label ''action'' action = Inr ()" "validate_label ''outcome'' outcome = Inr ()"
    "validate_label ''run ID'' rid = Inr ()"
    using n(9) unfolding validate_record_def n(3-5) by (auto simp: and_then_eq_Inr)
  then show ?thesis using assms by (cases fault) (simp_all add: audit_append_def real_directory_def Let_def)
qed

section \<open>A concrete codec for witnesses\<close>

text \<open>A codec for the records of one operation repeated for ever: the sequence number in
  decimal, marked when the hash is left out.\<close>

definition demo_audit_hash :: str where
  "demo_audit_hash = ''sha256:'' @ demo_hex (replicate 32 (CHR ''h''))"

definition demo_audit_record :: "nat \<Rightarrow> audit_record" where
  "demo_audit_record n =
     \<lparr>ar_schema_version = 1, ar_sequence = n, ar_event_id = 1, ar_wall_time = 0, ar_effective_uid = 0,
      ar_process_id = 1, ar_action = ''export'', ar_outcome = ''started'', ar_run_id = ''r'',
      ar_details = None, ar_previous_sha256 = (if n \<le> 1 then None else Some demo_audit_hash),
      ar_record_sha256 = demo_audit_hash\<rparr>"

definition demo_audit_to_vec :: "audit_record \<Rightarrow> bytes option" where
  "demo_audit_to_vec r =
     (let n = ar_sequence r in
      if n > U64_MAX then None
      else if r = demo_audit_record n then Some (decimal n)
      else if r = (demo_audit_record n)\<lparr>ar_record_sha256 := []\<rparr> then Some (CHR ''c'' # decimal n)
      else None)"

definition demo_audit_from_slice :: "bytes \<Rightarrow> audit_record option" where
  "demo_audit_from_slice bs =
     (case bs of
        [] \<Rightarrow> None
      | b # cs \<Rightarrow>
          if b = CHR ''c''
          then map_option (\<lambda>n. (demo_audit_record n)\<lparr>ar_record_sha256 := []\<rparr>) (parse_uint U64_MAX cs)
          else map_option demo_audit_record (parse_uint U64_MAX bs))"

definition demo_audit :: audit_codecs where
  "demo_audit =
     \<lparr>sha256 = (\<lambda>m. replicate 32 (CHR ''h'')),
      hex_encode = hex_encode demo_crates, hex_decode = hex_decode demo_crates,
      b64_encode = b64_encode demo_crates, b64_decode = b64_decode demo_crates,
      aead_seal = aead_seal demo_crates, aead_open = aead_open demo_crates,
      hkdf_expand = hkdf_expand demo_crates, zstd_compress = zstd_compress demo_crates,
      zstd_read = zstd_read demo_crates, uuid_version = uuid_version demo_crates,
      audit_to_vec = demo_audit_to_vec, audit_from_slice = demo_audit_from_slice\<rparr>"

lemma demo_from_decimal:
  assumes "n \<le> U64_MAX"
  shows "demo_audit_from_slice (decimal n) = Some (demo_audit_record n)"
proof (cases "decimal n")
  case (Cons b cs)
  have "b \<noteq> CHR ''c''" using decimal_no_newline(2)[of n] Cons by auto
  then show ?thesis using parse_uint_decimal[OF assms] by (simp add: Cons demo_audit_from_slice_def)
qed simp

lemma demo_audit_roundtrip:
  assumes "demo_audit_to_vec r = Some bs"
  shows "newline \<notin> set bs \<and> bs \<noteq> [] \<and> demo_audit_from_slice bs = Some r"
proof -
  have n: "ar_sequence r \<le> U64_MAX" using assms by (auto simp: demo_audit_to_vec_def Let_def split: if_splits)
  consider "r = demo_audit_record (ar_sequence r)" "bs = decimal (ar_sequence r)"
    | "r = (demo_audit_record (ar_sequence r))\<lparr>ar_record_sha256 := []\<rparr>"
      "bs = CHR ''c'' # decimal (ar_sequence r)"
    using assms by (auto simp: demo_audit_to_vec_def Let_def split: if_splits)
  then show ?thesis
  proof cases
    case 1
    then have "demo_audit_from_slice bs = Some (demo_audit_record (ar_sequence r))"
      using demo_from_decimal[OF n] by simp
    then show ?thesis using 1 decimal_no_newline(1)[of "ar_sequence r"] decimal_not_Nil by metis
  next
    case 2
    then have "demo_audit_from_slice bs = Some ((demo_audit_record (ar_sequence r))\<lparr>ar_record_sha256 := []\<rparr>)"
      using parse_uint_decimal[OF n] by (simp add: demo_audit_from_slice_def)
    then show ?thesis using 2 decimal_no_newline(1)[of "ar_sequence r"] by auto
  qed
qed

lemma demo_audit_laws [simp]: "audit_json_law demo_audit" "hex_law demo_audit"
proof -
  show "audit_json_law demo_audit"
    unfolding audit_json_law_def demo_audit_def
    using demo_audit_roundtrip by (auto simp del: split_paired_All) (metis option.inject)
  show "hex_law demo_audit" using demo_laws(2) by (simp add: hex_law_def demo_audit_def)
qed

definition demo_audit_env :: audit_env where
  "demo_audit_env = \<lparr>env_event_id = 1, env_wall_time = 0, env_effective_uid = Inr 0, env_process_id = 1\<rparr>"

definition demo_audit_log :: "nat \<Rightarrow> bytes" where
  "demo_audit_log n = concat (map (\<lambda>i. decimal i @ [newline]) [1..<Suc n])"

lemma demo_audit_hash_valid: "validate_audit_hash demo_audit_hash = Inr ()"
proof -
  have "list_all is_ascii_hexdigit (demo_hex (replicate 32 (CHR ''h'')))"
    unfolding list_all_iff is_ascii_hexdigit_def
    using demo_hex_chars[of _ "replicate 32 (CHR ''h'')"] unfolding is_lower_hex_def by blast
  then show ?thesis
    unfolding validate_audit_hash_def demo_audit_hash_def strip_prefix_append
    by (simp add: demo_hex_length)
qed

lemma digits_complexity: "validate_json_complexity (decimal n) = Inr ()"
proof -
  have "scan_step D T scan_start c = Inr scan_start" if c: "is_ascii_digit c" for c D T
  proof -
    have "c \<notin> {CHR 0x22, CHR ''{'', CHR ''['', CHR ''}'', CHR '']'', CHR '','', CHR '':''}"
      using c unfolding is_ascii_digit_def in_byte_range_def byte_val_def by auto
    then show ?thesis by (simp add: scan_step_def scan_start_def)
  qed
  then have "scan_bytes D T scan_start cs = Inr ()" if "\<forall>c\<in>set cs. is_ascii_digit c" for cs D T
    using that by (induction cs) auto
  then show ?thesis using decimal_digits
    by (simp add: validate_json_complexity_def validate_json_complexity_with_limits_def)
qed

lemma demo_audit_line:
  assumes "verified demo_audit log" "log_records demo_audit log = map demo_audit_record [1..<Suc n]"
    and "n \<le> MAX_AUDIT_RECORDS"
  shows "new_audit_line demo_audit demo_audit_env log ''export'' ''started'' ''r'' None =
     Inr (demo_audit_record (Suc n), decimal (Suc n) @ [newline])"
proof -
  have n: "Suc n \<le> U64_MAX" using assms(3) by (simp add: MAX_AUDIT_RECORDS_def U64_MAX_def)
  have hash: "record_hash demo_audit ((demo_audit_record (Suc n))\<lparr>ar_record_sha256 := []\<rparr>) = Inr demo_audit_hash"
    using n by (simp add: record_hash_def demo_audit_def demo_audit_to_vec_def demo_audit_record_def
        demo_audit_hash_def demo_crates_def)
  have vec: "audit_to_vec demo_audit (demo_audit_record (Suc n)) = Some (decimal (Suc n))"
    using n by (simp add: demo_audit_def demo_audit_to_vec_def demo_audit_record_def)
  have valid: "validate_record (demo_audit_record (Suc n)) = Inr ()"
    using demo_audit_hash_valid
    by (simp add: validate_record_def demo_audit_record_def validate_label_def)
  have "Suc n < 10 ^ 20" using n by (simp add: U64_MAX_def)
  then have len: "length (decimal (Suc n)) \<le> MAX_AUDIT_RECORD_BYTES"
    using decimal_length[of "Suc n" 20] by (simp add: MAX_AUDIT_RECORD_BYTES_def)
  have "as_last_record (scan_of None (log_records demo_audit log)) =
      (if n = 0 then None else Some (demo_audit_record n))"
    by (simp add: scan_of_simps assms(2))
  then show ?thesis
    using hash vec valid len n digits_complexity
    by (cases "n = 0") (simp_all add: new_audit_line_def verified_simps[OF assms(1)] demo_audit_env_def
        demo_audit_record_def checked_add_def Let_def)
qed

lemma demo_audit_log_verified:
  "n \<le> MAX_AUDIT_RECORDS \<Longrightarrow> verified demo_audit (demo_audit_log n)
     \<and> log_records demo_audit (demo_audit_log n) = map demo_audit_record [1..<Suc n]"
proof (induction n)
  case (Suc n)
  then have line: "new_audit_line demo_audit demo_audit_env (demo_audit_log n) ''export'' ''started'' ''r'' None =
     Inr (demo_audit_record (Suc n), decimal (Suc n) @ [newline])"
    using demo_audit_line[of "demo_audit_log n" n] by simp
  have "demo_audit_log (Suc n) = demo_audit_log n @ decimal (Suc n) @ [newline]"
    by (simp add: demo_audit_log_def)
  then show ?case using Suc new_audit_line_step(1,2)[OF _ _ line] by (simp add: exact_details_def)
qed (simp add: demo_audit_log_def)

definition demo_call :: audit_call where
  "demo_call = \<lparr>call_env = demo_audit_env, call_fault = NoFault, call_action = ''export'',
     call_outcome = ''started'', call_run_id = ''r'', call_details = None\<rparr>"

lemma demo_new_line:
  assumes "n \<le> MAX_AUDIT_RECORDS"
  shows "new_audit_line demo_audit demo_audit_env (demo_audit_log n) ''export'' ''started'' ''r'' None =
     Inr (demo_audit_record (Suc n), decimal (Suc n) @ [newline])"
  using demo_audit_log_verified[OF assms] demo_audit_line[OF _ _ assms] by simp

lemma demo_audit_calls:
  "audit_calls demo_audit [demo_call, demo_call] \<lparr>root_is_directory = True, root_log = None\<rparr> =
     ([demo_audit_record 1, demo_audit_record 2],
      \<lparr>root_is_directory = True, root_log = Some (demo_audit_log 2)\<rparr>)"
proof -
  have "audit_append demo_audit demo_audit_env NoFault ''export'' ''started'' ''r'' None root =
      (Inr (demo_audit_record (Suc n)), root\<lparr>root_log := Some (demo_audit_log (Suc n))\<rparr>)"
    if "root_is_directory root" "open_log root = demo_audit_log n" "n \<le> MAX_AUDIT_RECORDS" for root n
    using audit_append_line[of demo_audit demo_audit_env root _ _ _ _ _ _ NoFault] demo_new_line[OF that(3)] that
    by (simp add: demo_audit_log_def)
  from this[of "\<lparr>root_is_directory = True, root_log = None\<rparr>" 0]
    this[of "\<lparr>root_is_directory = True, root_log = Some (demo_audit_log 1)\<rparr>" 1]
  show ?thesis
    by (simp add: demo_call_def open_log_def demo_audit_log_def MAX_AUDIT_RECORDS_def numeral_2_eq_2)
qed

section \<open>Properties\<close>

text \<open>C8: The audit log accounts for the operations. Starting from a directory without a log, any
  sequence of at most \<open>MAX_AUDIT_RECORDS\<close> appends without a file fault, whose details are absent or
  are JSON other than null without floating-point numbers (\<open>exact_details\<close>, the values serde reads
  back as it wrote them), leaves a log that verifies, with exactly the records of the appends that
  returned one, numbered from 1 in call order with the data of their calls; and the two searches
  find a record exactly when such an append was made.\<close>

theorem audit_history_verified:
  assumes "audit_json_law L" "audit_calls L cs root = (rs, root')"
    and "root_is_directory root" "root_log root = None"
    and "\<forall>c\<in>set cs. call_fault c = NoFault \<and> exact_details (call_details c)"
    and "length cs \<le> MAX_AUDIT_RECORDS"
    and "validate_label ''action'' action = Inr ()" "validate_label ''outcome'' outcome = Inr ()"
    and "validate_label ''run ID'' rid = Inr ()" "validate_label ''request ID'' req = Inr ()"
  shows "map ar_sequence rs = [1..<Suc (length rs)]
    \<and> subseq (map (\<lambda>r. (ar_action r, ar_outcome r, ar_run_id r, ar_details r)) rs)
        (map (\<lambda>c. (call_action c, call_outcome c, call_run_id c, call_details c)) cs)
    \<and> (root_log root' \<noteq> None \<longrightarrow> audit_verify L root' =
        Inr \<lparr>av_valid = True, av_records = length rs, av_last_sequence = length rs,
             av_last_sha256 = (if rs = [] then None else Some (ar_record_sha256 (last rs)))\<rparr>)
    \<and> has_run_record L root' action outcome rid = Inr (\<exists>r\<in>set rs. ar_action r = action
        \<and> ar_outcome r = outcome \<and> ar_run_id r = rid)
    \<and> has_request_record L root' action outcome req = Inr (\<exists>r\<in>set rs. ar_action r = action
        \<and> ar_outcome r = outcome
        \<and> (\<exists>d. ar_details r = Some d \<and> json_get d ''request_id'' = Some (JString req)))"
proof (intro conjI impI)
  have "open_log root = []" using assms(4) by (simp add: open_log_def)
  then have r: "root_is_directory root'" "verified L (open_log root')" "log_records L (open_log root') = rs"
    using audit_calls_records[OF assms(1-3,5)] assms(6) by simp_all
  then show "map ar_sequence rs = [1..<Suc (length rs)]"
    using audit_chain_sequence[of L 0 None rs] by (simp add: verified_def)
  show "subseq (map (\<lambda>r. (ar_action r, ar_outcome r, ar_run_id r, ar_details r)) rs)
     (map (\<lambda>c. (call_action c, call_outcome c, call_run_id c, call_details c)) cs)"
    by (rule audit_calls_subseq[OF assms(2)])
  note scan = verified_simps[OF r(2)]
  show "audit_verify L root' = Inr \<lparr>av_valid = True, av_records = length rs, av_last_sequence = length rs,
       av_last_sha256 = (if rs = [] then None else Some (ar_record_sha256 (last rs)))\<rparr>"
    if "root_log root' \<noteq> None"
    using that r scan by (auto simp: audit_verify_def real_directory_def open_log_def scan_of_simps)
  have none: "rs = []" if "root_log root' = None" using that r(3) by (simp add: open_log_def)
  show "has_run_record L root' action outcome rid = Inr (\<exists>r\<in>set rs. ar_action r = action
     \<and> ar_outcome r = outcome \<and> ar_run_id r = rid)"
    using r scan none assms(7-9)
    by (cases "root_log root'") (auto simp: has_run_record_def real_directory_def open_log_def scan_of_simps)
  show "has_request_record L root' action outcome req = Inr (\<exists>r\<in>set rs. ar_action r = action
     \<and> ar_outcome r = outcome
     \<and> (\<exists>d. ar_details r = Some d \<and> json_get d ''request_id'' = Some (JString req)))"
    using r scan none assms(7,8,10)
    by (cases "root_log root'") (auto simp: has_request_record_def real_directory_def open_log_def scan_of_simps
        bind_eq_Some_conv as_str_eq_Some)
qed

theorem audit_history_verified_witness:
  "audit_verify demo_audit \<lparr>root_is_directory = True, root_log = Some (demo_audit_log 2)\<rparr> =
     Inr \<lparr>av_valid = True, av_records = 2, av_last_sequence = 2, av_last_sha256 = Some demo_audit_hash\<rparr>
   \<and> has_run_record demo_audit \<lparr>root_is_directory = True, root_log = Some (demo_audit_log 2)\<rparr>
       ''export'' ''started'' ''r'' = Inr True
   \<and> has_run_record demo_audit \<lparr>root_is_directory = True, root_log = Some (demo_audit_log 2)\<rparr>
       ''export'' ''completed'' ''r'' = Inr False"
proof -
  note h = audit_history_verified[OF demo_audit_laws(1) demo_audit_calls, of "''export''" _ "''r''" "''q''"]
  have labels: "validate_label name ''export'' = Inr ()" "validate_label name ''started'' = Inr ()"
    "validate_label name ''completed'' = Inr ()" "validate_label name ''r'' = Inr ()"
    "validate_label name ''q'' = Inr ()" for name
    by (simp_all add: validate_label_def)
  show ?thesis
    using h[of "''started''"] h[of "''completed''"] labels
    by (simp add: demo_call_def exact_details_def MAX_AUDIT_RECORDS_def demo_audit_record_def)
qed

text \<open>C9: Tamper evidence. When a verified log holds a record whose hash is the last hash of another
  verified log, the two agree on every record up to that one; otherwise the two logs exhibit
  two different serialized records with the same SHA-256.\<close>

theorem audit_tamper_evident:
  assumes "audit_json_law L" "hex_law L"
    and "is_ok (verify_locked_file L log)" "is_ok (verify_locked_file L log')"
    and "log_records L log \<noteq> []" "r' \<in> set (log_records L log')"
    and "ar_record_sha256 r' = ar_record_sha256 (last (log_records L log))"
  shows "log_records L log = take (ar_sequence r') (log_records L log')
     \<or> hash_collision L (log_records L log) (log_records L log')"
proof -
  obtain xs ys where split: "log_records L log' = xs @ r' # ys" using assms(6) split_list by metis
  obtain rs r where rs: "log_records L log = rs @ [r]" using assms(5) rev_exhaust by blast
  have chain: "audit_chain L 0 None (rs @ [r])" "audit_chain L 0 None (xs @ [r'])"
    "ar_sequence r' = Suc (length xs)"
    using assms(3,4) rs split by (auto simp: verified_iff[symmetric] verified_def audit_chain_append)
  have "rs @ [r] = xs @ [r'] \<or> hash_collision L (rs @ [r]) (xs @ [r'])"
    using same_hash_chain[OF assms(1,2) chain(1,2)] assms(7) rs by simp
  then show ?thesis
    using hash_collision_mono[of L "rs @ [r]" "xs @ [r']" "rs @ [r]" "log_records L log'"] chain(3) rs split
    by auto
qed

theorem audit_tamper_evident_witness:
  "log_records demo_audit (demo_audit_log 2) = take 2 (log_records demo_audit (demo_audit_log 3))
   \<or> hash_collision demo_audit (log_records demo_audit (demo_audit_log 2))
       (log_records demo_audit (demo_audit_log 3))"
proof -
  have log: "verified demo_audit (demo_audit_log n)"
    "log_records demo_audit (demo_audit_log n) = map demo_audit_record [1..<Suc n]" if "n \<le> 3" for n
    using demo_audit_log_verified[of n] that by (simp_all add: MAX_AUDIT_RECORDS_def)
  have "demo_audit_record 2 \<in> set (log_records demo_audit (demo_audit_log 3))"
    by (simp add: log(2) del: upt_Suc)
  moreover have "ar_record_sha256 (demo_audit_record 2)
      = ar_record_sha256 (last (log_records demo_audit (demo_audit_log 2)))"
    by (simp add: log(2) last_map demo_audit_record_def del: upt_Suc)
  ultimately show ?thesis
    using audit_tamper_evident[OF demo_audit_laws, of "demo_audit_log 2" "demo_audit_log 3" "demo_audit_record 2"]
      log[of 2] log(1)[of 3] by (simp add: verified_iff demo_audit_record_def[of 2])
qed

text \<open>C35: A torn append closes the log. When the write of a record stops inside the record, the
  append reports the error, verification fails from then on, and no later append changes the
  log: there is no repair.\<close>

theorem torn_append_closes_log:
  assumes "audit_json_law L" "root_is_directory root"
    and "new_audit_line L env (open_log root) action outcome rid details = Inr (r, line)"
    and "0 < n" "n < length line"
    and "audit_append L env (WriteFault n e) action outcome rid details root = (result, root')"
  shows "result = Inl (AuditIo e) \<and> audit_verify L root' = Inl incomplete_record
     \<and> (\<forall>env' fault action' outcome' rid' details'.
          \<exists>err. audit_append L env' fault action' outcome' rid' details' root' = (Inl err, root'))"
proof -
  note l = new_audit_line_eq_Inr[OF assms(3)]
  obtain bs where bs: "line = bs @ [newline]" "newline \<notin> set bs"
    using l(10) assms(1) by (auto simp: audit_json_law_def)
  have torn: "take n line = take n bs" "newline \<notin> set (take n bs)" "take n bs \<noteq> []"
    using bs assms(4,5) by (auto dest: in_set_takeD)
  have root': "result = Inl (AuditIo e)" "root' = root\<lparr>root_log := Some (open_log root @ take n bs)\<rparr>"
    using assms(6) audit_append_line[OF assms(3,2), of "WriteFault n e"] torn(1) by auto
  have "audit_lines L None audit_scan_start (open_log root) = Inr (scan_of None (log_records L (open_log root)))"
    using verified_simps(1)[OF l(1)] by (simp add: verify_locked_file_def verify_locked_file_matching_def)
  then have v: "verify_locked_file L (open_log root @ take n bs) = Inl incomplete_record"
    using audit_lines_torn[OF torn(2,3)]
    by (simp add: verify_locked_file_def verify_locked_file_matching_def audit_lines_append)
  then have "\<forall>env' fault action' outcome' rid' details'.
      \<exists>err. audit_append L env' fault action' outcome' rid' details' root' = (Inl err, root')"
    by (intro allI unverifiable_log) (simp_all add: root'(2))
  then show ?thesis using v assms(2) by (simp add: root' audit_verify_def real_directory_def)
qed

theorem torn_append_closes_log_witness:
  "audit_verify demo_audit \<lparr>root_is_directory = True, root_log = Some (demo_audit_log 1 @ ''2'')\<rparr>
     = Inl incomplete_record"
proof -
  have two: "decimal (Suc 1) @ [newline] = [CHR ''2'', newline]" by (simp add: decimal.simps) code_simp
  have line: "new_audit_line demo_audit demo_audit_env (demo_audit_log 1) ''export'' ''started'' ''r'' None =
      Inr (demo_audit_record (Suc 1), [CHR ''2'', newline])"
    using demo_new_line[of 1] two by (simp add: MAX_AUDIT_RECORDS_def)
  let ?root = "\<lparr>root_is_directory = True, root_log = Some (demo_audit_log 1)\<rparr>"
  have "audit_append demo_audit demo_audit_env (WriteFault 1 (IoError Other ''full'')) ''export'' ''started'' ''r''
      None ?root = (Inl (AuditIo (IoError Other ''full'')), ?root\<lparr>root_log := Some (demo_audit_log 1 @ ''2'')\<rparr>)"
    using audit_append_line[of demo_audit demo_audit_env ?root] line by (simp add: open_log_def)
  then show ?thesis
    using torn_append_closes_log[of demo_audit ?root demo_audit_env "''export''" "''started''" "''r''" None
        "demo_audit_record (Suc 1)" "[CHR ''2'', newline]" 1 "IoError Other ''full''"] line
    by (simp add: open_log_def)
qed

text \<open>C36: The record-count limit is enforced only by the reader. On a log that verifies with the
  greatest number of records, an append whose record passes every check still succeeds; the
  log it leaves never verifies, and no later append succeeds.\<close>

theorem append_past_record_limit:
  assumes "audit_json_law L" "exact_details details" "root_is_directory root"
    and "new_audit_line L env (open_log root) action outcome rid details = Inr (r, line)"
    and "length (log_records L (open_log root)) = MAX_AUDIT_RECORDS"
    and "audit_append L env NoFault action outcome rid details root = (result, root')"
  shows "result = Inr r
     \<and> audit_verify L root' = Inl (AuditMessage ''audit log exceeds the record-count safety limit'')
     \<and> (\<forall>env' fault action' outcome' rid' details'.
          \<exists>err. audit_append L env' fault action' outcome' rid' details' root' = (Inl err, root'))"
proof -
  have root': "result = Inr r" "root' = root\<lparr>root_log := Some (open_log root @ line)\<rparr>"
    using assms(6) audit_append_line[OF assms(4,3), of NoFault] by auto
  have v: "verify_locked_file L (open_log root @ line) =
      Inl (AuditMessage ''audit log exceeds the record-count safety limit'')"
    using new_audit_line_step(3)[OF assms(1,2,4,5)] by (simp add: verify_locked_file_def)
  then have "\<forall>env' fault action' outcome' rid' details'.
      \<exists>err. audit_append L env' fault action' outcome' rid' details' root' = (Inl err, root')"
    by (intro allI unverifiable_log) (simp_all add: root'(2))
  then show ?thesis using v assms(3) by (simp add: root' audit_verify_def real_directory_def)
qed

theorem append_past_record_limit_witness:
  "\<exists>root root'. audit_verify demo_audit root =
       Inr \<lparr>av_valid = True, av_records = 10000000, av_last_sequence = 10000000,
            av_last_sha256 = Some demo_audit_hash\<rparr>
     \<and> audit_append demo_audit demo_audit_env NoFault ''export'' ''started'' ''r'' None root =
         (Inr (demo_audit_record (Suc MAX_AUDIT_RECORDS)), root')
     \<and> \<not> is_ok (audit_verify demo_audit root')"
proof -
  let ?root = "\<lparr>root_is_directory = True, root_log = Some (demo_audit_log MAX_AUDIT_RECORDS)\<rparr>"
  have log: "verified demo_audit (demo_audit_log MAX_AUDIT_RECORDS)"
    "log_records demo_audit (demo_audit_log MAX_AUDIT_RECORDS) = map demo_audit_record [1..<Suc MAX_AUDIT_RECORDS]"
    using demo_audit_log_verified[of MAX_AUDIT_RECORDS] by simp_all
  have pos: "MAX_AUDIT_RECORDS = 10000000" by (simp add: MAX_AUDIT_RECORDS_def)
  obtain result root' where app: "audit_append demo_audit demo_audit_env NoFault ''export'' ''started'' ''r''
      None ?root = (result, root')" by (cases "audit_append demo_audit demo_audit_env NoFault ''export'' ''started'' ''r''
      None ?root")
  have v: "audit_verify demo_audit ?root = Inr \<lparr>av_valid = True, av_records = 10000000,
      av_last_sequence = 10000000, av_last_sha256 = Some demo_audit_hash\<rparr>"
    using log pos last_map[of "[1..<Suc MAX_AUDIT_RECORDS]" demo_audit_record]
    by (simp add: audit_verify_def real_directory_def verified_simps(1) scan_of_simps demo_audit_record_def
        del: upt_Suc)
  have "result = Inr (demo_audit_record (Suc MAX_AUDIT_RECORDS)) \<and> audit_verify demo_audit root' =
      Inl (AuditMessage ''audit log exceeds the record-count safety limit'')"
    using append_past_record_limit[of demo_audit None ?root demo_audit_env "''export''" "''started''" "''r''" _ _ result root']
      demo_new_line[of MAX_AUDIT_RECORDS] log app
    by (simp add: open_log_def exact_details_def del: upt_Suc)
  then show ?thesis using v app by (intro exI[of _ ?root] exI[of _ root']) simp
qed

end
