(* ===== verification/Upload_Plan.thy ===== *)
theory Upload_Plan
  imports Blob_Keys Event_Log
begin

text \<open>
  The local side of the platform upload (\<open>src/upload.rs\<close>): the persistent state of a recording
  segment with its fixed batch plan, planning of batches from the event log, validation, the
  chain of segment states in the spool directory, and the reconciliation with what the platform
  reports. The spool directory is the list of its files. The events come from the run event
  reader as the list of what its iterator yields. An invocation reads one clock value.
\<close>

section \<open>State\<close>

definition STATE_SCHEMA_VERSION :: nat where "STATE_SCHEMA_VERSION = 1"
definition MAX_RECORDING_SEGMENTS :: nat where "MAX_RECORDING_SEGMENTS = 10000"
definition MAX_PLATFORM_SEQUENCE :: nat where "MAX_PLATFORM_SEQUENCE = 9223372036854775807"
definition DEFAULT_BATCH_EVENTS :: nat where "DEFAULT_BATCH_EVENTS = 2000"
definition DEFAULT_BATCH_BYTES :: nat where "DEFAULT_BATCH_BYTES = 4 * 1024 * 1024"
definition MAX_WIRE_BATCH_BYTES :: nat where "MAX_WIRE_BATCH_BYTES = 16 * 1024 * 1024"
definition MAX_STATE_BYTES :: nat where "MAX_STATE_BYTES = 64 * 1024 * 1024"
definition MAX_BATCH_PLANS :: nat where "MAX_BATCH_PLANS = 100000"
definition MAX_BLOB_PLANS :: nat where "MAX_BLOB_PLANS = 250000"
definition PCAP_MEDIA_TYPE :: str where "PCAP_MEDIA_TYPE = ''application/vnd.tcpdump.pcap''"
definition TLS_SECRETS_MEDIA_TYPE :: str where "TLS_SECRETS_MEDIA_TYPE = ''application/x-nss-key-log''"

record blob_plan =
  bp_sha256 :: str
  bp_size :: nat
  bp_media_type :: "str option"

record batch_plan =
  pl_first_seq :: nat
  pl_last_seq :: nat
  pl_event_count :: nat
  pl_byte_length :: nat
  pl_sha256 :: str
  pl_prev_sha256 :: "str option"
  pl_blobs :: "blob_plan list"
  pl_created_at :: int

record upload_state =
  us_schema_version :: nat
  us_api_origin :: str
  us_run_id :: str
  us_recording_id :: str
  us_segment_no :: nat
  us_first_seq :: nat
  us_batch_max_events :: nat
  us_batch_max_bytes :: nat
  us_acked_seq :: nat
  us_sealed :: bool
  us_collector_id :: "uuid option"
  us_config_version :: int
  us_batches :: "batch_plan list"
  us_created_at :: int
  us_updated_at :: int

text \<open>\<open>struct BatchHeader\<close>, the first line of a batch on the wire.\<close>

record batch_header =
  bh_batch_id :: str
  bh_recording_id :: str
  bh_schema_version :: nat
  bh_first_seq :: nat
  bh_last_seq :: nat
  bh_event_count :: nat
  bh_byte_length :: nat
  bh_sha256 :: str
  bh_prev_sha256 :: "str option"
  bh_encoding :: str
  bh_blobs :: "(str \<times> nat) list"
  bh_created_at :: int

text \<open>The codecs of the two sides: \<open>serde_json\<close> at the upload state, the batch header and a JSON
  value, \<open>zstd::bulk::compress\<close> and what \<open>HeaderValue::from_str\<close> accepts for the recorder;
  \<open>json.Unmarshal\<close> with the batch schema, \<open>json.Marshal\<close>, the zstd decoder with a limit and the
  event schema decoder (the sequence of a valid event line) for the platform.\<close>

record upload_codecs = run_codecs +
  state_to_vec :: "upload_state \<Rightarrow> bytes option"
  state_from_slice :: "bytes \<Rightarrow> upload_state option"
  header_to_vec :: "batch_header \<Rightarrow> bytes option"
  bulk_compress :: "bytes \<Rightarrow> bytes option"
  header_unmarshal :: "bytes \<Rightarrow> batch_header option"
  header_marshal :: "batch_header \<Rightarrow> bytes"
  zstd_decode_all :: "bytes \<Rightarrow> nat \<Rightarrow> bytes option"
  event_line_sequence :: "bytes \<Rightarrow> nat option"
  config_to_vec :: "json \<Rightarrow> bytes option"
  header_value_ok :: "str \<Rightarrow> bool"

datatype upload_error =
  UMessage str | UIo io_error | UStorage storage_error | UJson | UHttp nat str | UNoResponse | UKilled

abbreviation check :: "bool \<Rightarrow> str \<Rightarrow> upload_error + unit" where
  "check b message \<equiv> ensure b (UMessage message)"

text \<open>\<open>{n:04}\<close> and \<open>{n:012}\<close>\<close>

definition zero_padded :: "nat \<Rightarrow> nat \<Rightarrow> str" where
  "zero_padded width n = replicate (width - length (decimal n)) (CHR ''0'') @ decimal n"

definition recording_id_for_segment :: "('x) crates_scheme \<Rightarrow> str \<Rightarrow> nat \<Rightarrow> str" where
  "recording_id_for_segment L rid segment =
     (let direct = rid @ ''#'' @ zero_padded 4 segment in
      if length direct \<le> 240 then direct
      else ''run-'' @ hex_encode L (sha256 L rid) @ ''#'' @ zero_padded 4 segment)"

definition recording_id :: "('x) crates_scheme \<Rightarrow> str \<Rightarrow> str" where
  "recording_id L rid = recording_id_for_segment L rid 0"

definition segment_state_path :: "('x) crates_scheme \<Rightarrow> str \<Rightarrow> nat \<Rightarrow> str" where
  "segment_state_path L origin segment =
     (let digest = hex_encode L (sha256 L origin) in
      if segment = 0 then ''state-'' @ digest @ ''.json''
      else ''state-'' @ digest @ ''-segment-'' @ zero_padded 4 segment @ ''.json'')"

definition planned_sequence :: "upload_state \<Rightarrow> nat" where
  "planned_sequence st =
     (if us_batches st = [] then us_first_seq st - 1 else pl_last_seq (last (us_batches st)))"

definition is_batch_boundary :: "upload_state \<Rightarrow> nat \<Rightarrow> bool" where
  "is_batch_boundary st n \<longleftrightarrow>
     n = us_first_seq st - 1 \<or> list_ex (\<lambda>b. pl_last_seq b = n) (us_batches st)"

definition is_sensitive_upload_media_type :: "str option \<Rightarrow> bool" where
  "is_sensitive_upload_media_type m \<longleftrightarrow> m = Some PCAP_MEDIA_TYPE \<or> m = Some TLS_SECRETS_MEDIA_TYPE"

definition omit_sensitive_blob_plans :: "upload_state \<Rightarrow> upload_state" where
  "omit_sensitive_blob_plans st =
     st\<lparr>us_batches := map (\<lambda>b. b\<lparr>pl_blobs := filter (\<lambda>p. \<not> is_sensitive_upload_media_type (bp_media_type p)) (pl_blobs b)\<rparr>)
          (us_batches st)\<rparr>"

section \<open>Validation\<close>

definition validate_sha :: "str \<Rightarrow> upload_error + unit" where
  "validate_sha value =
     check (length value = 64 \<and> list_all is_lower_hex value) ''upload state contains an invalid SHA-256 digest''"

fun validate_blob_plans :: "blob_plan list \<Rightarrow> upload_error + unit" where
  "validate_blob_plans [] = Inr ()"
| "validate_blob_plans (p # ps) =
     and_then (validate_sha (bp_sha256 p)) (\<lambda>_.
     and_then (check (\<not> is_sensitive_upload_media_type (bp_media_type p))
       ''ordinary upload state contains a sensitive-tier blob'') (\<lambda>_.
     validate_blob_plans ps))"

text \<open>The loop over the batches with the next sequence, the previous digest and the blob count.\<close>

fun validate_batches :: "nat \<Rightarrow> str option \<Rightarrow> nat \<Rightarrow> batch_plan list \<Rightarrow> upload_error + nat \<times> nat" where
  "validate_batches n previous blob_count [] = Inr (n, blob_count)"
| "validate_batches n previous blob_count (b # bs) =
     and_then (check (pl_first_seq b = n) ''upload state has a sequence gap'') (\<lambda>_.
     and_then (check (pl_last_seq b \<ge> pl_first_seq b \<and> pl_last_seq b \<le> MAX_PLATFORM_SEQUENCE
                      \<and> pl_event_count b = pl_last_seq b - pl_first_seq b + 1)
       ''upload state has an invalid batch range'') (\<lambda>_.
     and_then (check (pl_byte_length b > 0 \<and> pl_byte_length b \<le> DEFAULT_BATCH_BYTES)
       ''upload state has an invalid batch size'') (\<lambda>_.
     and_then (validate_sha (pl_sha256 b)) (\<lambda>_.
     and_then (check (pl_prev_sha256 b = previous) ''upload hash chain mismatch'') (\<lambda>_.
     and_then (validate_blob_plans (pl_blobs b)) (\<lambda>_.
     and_then (ok_or (checked_add (pl_last_seq b) 1) (UMessage ''upload sequence overflow'')) (\<lambda>n.
     validate_batches n (Some (pl_sha256 b)) (saturating_add blob_count (length (pl_blobs b))) bs)))))))"

definition FIVE_MINUTES :: int where "FIVE_MINUTES = 300 * 1000000000"

definition validate_state_prefix ::
  "upload_state \<Rightarrow> str \<Rightarrow> str \<Rightarrow> str \<Rightarrow> nat \<Rightarrow> upload_error + nat" where
  "validate_state_prefix st rid rec origin available =
     and_then (check (us_schema_version st = STATE_SCHEMA_VERSION) ''unsupported upload state'') (\<lambda>_.
     and_then (check (us_api_origin st = origin) ''upload state API origin mismatch'') (\<lambda>_.
     and_then (check (us_run_id st = rid) ''upload state run ID mismatch'') (\<lambda>_.
     and_then (check (us_segment_no st < MAX_RECORDING_SEGMENTS \<and> us_first_seq st > 0
                      \<and> us_first_seq st \<le> MAX_PLATFORM_SEQUENCE)
       ''upload state has an invalid segment identity'') (\<lambda>_.
     and_then (check (us_created_at st \<le> us_updated_at st + FIVE_MINUTES)
       ''upload state creation time is invalid'') (\<lambda>_.
     and_then (check (us_recording_id st = rec) ''upload state recording ID mismatch'') (\<lambda>_.
     and_then (check (us_batch_max_events st = DEFAULT_BATCH_EVENTS \<and> us_batch_max_bytes st = DEFAULT_BATCH_BYTES)
       ''upload state batch policy mismatch'') (\<lambda>_.
     and_then (check (length (us_batches st) \<le> MAX_BATCH_PLANS) ''upload state has too many batches'') (\<lambda>_.
     and_then (validate_batches (us_first_seq st) None 0 (us_batches st)) (\<lambda>(n, blob_count).
     let planned_seq = n - 1 in
     and_then (check (planned_seq \<le> available) ''upload state exceeds available local evidence'') (\<lambda>_.
     and_then (check (blob_count \<le> MAX_BLOB_PLANS) ''upload state has too many blob references'') (\<lambda>_.
     and_then (check (us_acked_seq st \<le> planned_seq \<and> is_batch_boundary st (us_acked_seq st))
       ''upload state acknowledged sequence is not a batch boundary'') (\<lambda>_.
     and_then (check (\<not> us_sealed st \<or> us_acked_seq st = planned_seq)
       ''sealed upload state is not fully acknowledged'') (\<lambda>_.
     Inr planned_seq)))))))))))))"

definition validate_state :: "upload_state \<Rightarrow> str \<Rightarrow> str \<Rightarrow> str \<Rightarrow> nat \<Rightarrow> upload_error + unit" where
  "validate_state st rid rec origin final =
     and_then (validate_state_prefix st rid rec origin final) (\<lambda>planned_seq.
     check (planned_seq = final) ''upload state does not cover the event log'')"

section \<open>Planning\<close>

definition add_blob_plan :: "(str \<times> blob_plan) list \<Rightarrow> payload_ref option \<Rightarrow> upload_error + (str \<times> blob_plan) list" where
  "add_blob_plan blobs reference =
     (case reference of
        None \<Rightarrow> Inr blobs
      | Some r \<Rightarrow>
          if is_sensitive_upload_media_type (pr_media_type r) then Inr blobs
          else
          and_then (ok_or (strip_prefix ''sha256:'' (pr_sha256 r))
            (UMessage ''raw payload reference has no sha256 prefix'')) (\<lambda>digest.
          let candidate = \<lparr>bp_sha256 = digest, bp_size = pr_size r, bp_media_type = pr_media_type r\<rparr> in
          (case map_of blobs digest of
             Some existing \<Rightarrow>
               and_then (check (bp_size existing = bp_size candidate)
                 ''the same blob digest has conflicting sizes'') (\<lambda>_. Inr blobs)
           | None \<Rightarrow> Inr (bt_insert digest candidate blobs))))"

definition finish_plan ::
  "('x) crates_scheme \<Rightarrow> int \<Rightarrow> nat \<Rightarrow> nat \<Rightarrow> nat \<Rightarrow> bytes \<Rightarrow> (str \<times> blob_plan) list \<Rightarrow> str option
   \<Rightarrow> upload_error + batch_plan" where
  "finish_plan L now first last_seq count body blobs previous =
     and_then (check (first > 0 \<and> last_seq \<ge> first) ''invalid batch sequence range'') (\<lambda>_.
     and_then (check (count > 0) ''empty batch plan'') (\<lambda>_.
     Inr \<lparr>pl_first_seq = first, pl_last_seq = last_seq, pl_event_count = count,
          pl_byte_length = length body, pl_sha256 = hex_encode L (sha256 L body),
          pl_prev_sha256 = previous, pl_blobs = map snd blobs, pl_created_at = now\<rparr>))"

text \<open>The locals of the planning loop.\<close>

record plan_scan =
  ps_batches :: "batch_plan list"
  ps_raw :: bytes
  ps_first_seq :: nat
  ps_last_seq :: nat
  ps_count :: nat
  ps_blobs :: "(str \<times> blob_plan) list"
  ps_previous :: "str option"
  ps_expected :: nat

text \<open>The batch is closed before the event when it is full.\<close>

definition close_full_batch :: "('x) crates_scheme \<Rightarrow> int \<Rightarrow> nat \<Rightarrow> plan_scan \<Rightarrow> upload_error + plan_scan" where
  "close_full_batch L now line_length s =
     (if ps_count s > 0 \<and> (ps_count s = DEFAULT_BATCH_EVENTS \<or> length (ps_raw s) + line_length > DEFAULT_BATCH_BYTES)
      then
        and_then (finish_plan L now (ps_first_seq s) (ps_last_seq s) (ps_count s) (ps_raw s) (ps_blobs s)
                    (ps_previous s)) (\<lambda>plan.
        and_then (check (length (ps_batches s) + 1 \<le> MAX_BATCH_PLANS) ''upload batch plan limit exceeded'') (\<lambda>_.
        Inr (s\<lparr>ps_previous := Some (pl_sha256 plan), ps_batches := ps_batches s @ [plan], ps_raw := [],
               ps_blobs := [], ps_count := 0\<rparr>)))
      else Inr s)"

definition plan_event ::
  "('x) json_codecs_scheme \<Rightarrow> int \<Rightarrow> plan_scan \<Rightarrow> event_envelope \<Rightarrow> upload_error + plan_scan" where
  "plan_event L now s e =
     and_then (check (sequence e = ps_expected s) ''event log does not cover the requested upload range'') (\<lambda>_.
     and_then (ok_or (checked_add (ps_expected s) 1) (UMessage ''upload sequence overflow'')) (\<lambda>expected.
     and_then (ok_or (event_to_vec L e) UJson) (\<lambda>encoded.
     let line = encoded @ [newline] in
     and_then (check (length line \<le> DEFAULT_BATCH_BYTES)
       ''event exceeds the upload inline limit; payloads must use raw blob references'') (\<lambda>_.
     and_then (close_full_batch L now (length line) s) (\<lambda>s.
     and_then (add_blob_plan (ps_blobs s) (raw e)) (\<lambda>blobs.
     Inr (s\<lparr>ps_expected := expected,
            ps_first_seq := (if ps_count s = 0 then sequence e else ps_first_seq s),
            ps_last_seq := sequence e, ps_blobs := blobs, ps_raw := ps_raw s @ line,
            ps_count := ps_count s + 1\<rparr>)))))))"

fun plan_loop ::
  "('x) json_codecs_scheme \<Rightarrow> int \<Rightarrow> nat \<Rightarrow> nat \<Rightarrow> plan_scan \<Rightarrow> (storage_error + event_envelope) list
   \<Rightarrow> upload_error + plan_scan" where
  "plan_loop L now first final s [] = Inr s"
| "plan_loop L now first final s (item # items) =
     (case item of
        Inl err \<Rightarrow> Inl (UStorage err)
      | Inr e \<Rightarrow>
          if sequence e < first then plan_loop L now first final s items
          else if sequence e > final then Inr s
          else and_then (plan_event L now s e) (\<lambda>s'. plan_loop L now first final s' items))"

definition build_batch_plans_range ::
  "('x) json_codecs_scheme \<Rightarrow> int \<Rightarrow> (storage_error + event_envelope) list \<Rightarrow> nat \<Rightarrow> nat \<Rightarrow> str option
   \<Rightarrow> upload_error + batch_plan list" where
  "build_batch_plans_range L now reader first final previous =
     and_then (check (first > 0 \<and> final \<ge> first) ''invalid upload planning range'') (\<lambda>_.
     and_then (plan_loop L now first final
       \<lparr>ps_batches = [], ps_raw = [], ps_first_seq = 0, ps_last_seq = 0, ps_count = 0, ps_blobs = [],
        ps_previous = previous, ps_expected = first\<rparr> reader) (\<lambda>s.
     and_then (if ps_count s > 0
               then and_then (finish_plan L now (ps_first_seq s) (ps_last_seq s) (ps_count s) (ps_raw s)
                      (ps_blobs s) (ps_previous s)) (\<lambda>plan. Inr (ps_batches s @ [plan]))
               else Inr (ps_batches s)) (\<lambda>batches.
     and_then (check (batches \<noteq> []) ''cannot upload an empty event range'') (\<lambda>_.
     and_then (check (final = U64_MAX \<or> ps_expected s = saturating_add final 1)
       ''event log ends before the requested upload boundary'') (\<lambda>_.
     and_then (check (sum_list (map (\<lambda>b. length (pl_blobs b)) batches) \<le> MAX_BLOB_PLANS)
       ''upload blob plan limit exceeded'') (\<lambda>_.
     Inr batches))))))"

definition extend_state_to ::
  "('x) json_codecs_scheme \<Rightarrow> int \<Rightarrow> (storage_error + event_envelope) list \<Rightarrow> nat \<Rightarrow> upload_state
   \<Rightarrow> upload_error + upload_state" where
  "extend_state_to L now reader target st =
     (let planned_seq = planned_sequence st in
      if planned_seq = target then Inr st
      else
      and_then (check (planned_seq < target) ''upload state exceeds requested boundary'') (\<lambda>_.
      and_then (check (\<not> us_sealed st) ''sealed upload state cannot be extended'') (\<lambda>_.
      and_then (ok_or (checked_add planned_seq 1) (UMessage ''upload sequence overflow'')) (\<lambda>first.
      and_then (build_batch_plans_range L now reader first target
        (if us_batches st = [] then None else Some (pl_sha256 (last (us_batches st))))) (\<lambda>additional.
      and_then (check (length (us_batches st @ additional) \<le> MAX_BATCH_PLANS) ''upload batch plan limit exceeded'') (\<lambda>_.
      Inr (st\<lparr>us_batches := us_batches st @ additional, us_updated_at := now\<rparr>)))))))"

section \<open>The spool\<close>

record segment_state =
  sg_path :: str
  sg_state :: upload_state
  sg_planned_seq :: nat

record segment_cursor =
  sc_path :: str
  sc_recording_id :: str
  sc_segment_no :: nat
  sc_first_seq :: nat

definition strip_suffix :: "'a list \<Rightarrow> 'a list \<Rightarrow> 'a list option" where
  "strip_suffix p s = map_option rev (strip_prefix (rev p) (rev s))"

text \<open>The segment a file name of the spool stands for, \<open>None\<close> for other files.\<close>

definition segment_of_name :: "('x) crates_scheme \<Rightarrow> str \<Rightarrow> str \<Rightarrow> upload_error + nat option" where
  "segment_of_name L origin name =
     (let digest = hex_encode L (sha256 L origin) in
      if name = ''state-'' @ digest @ ''.json'' then Inr (Some 0)
      else
        (case Option.bind (strip_prefix (''state-'' @ digest @ ''-segment-'') name) (strip_suffix ''.json'') of
           None \<Rightarrow> Inr None
         | Some value \<Rightarrow>
             and_then (ok_or (parse_uint 4294967295 value)
               (UMessage ''upload state filename has an invalid segment number'')) (\<lambda>parsed.
             and_then (check (parsed > 0 \<and> parsed < MAX_RECORDING_SEGMENTS \<and> value = zero_padded 4 parsed)
               ''upload state filename has a non-canonical segment number'') (\<lambda>_.
             Inr (Some parsed)))))"

definition read_state :: "('x) upload_codecs_scheme \<Rightarrow> bytes \<Rightarrow> upload_error + upload_state" where
  "read_state L contents =
     and_then (map_err UIo (read_regular_limited (Some contents) MAX_STATE_BYTES)) (\<lambda>bytes.
     and_then (map_err UIo (validate_json_complexity bytes)) (\<lambda>_.
     ok_or (state_from_slice L bytes) UJson))"

fun load_states ::
  "('x) upload_codecs_scheme \<Rightarrow> str \<Rightarrow> str \<Rightarrow> nat \<Rightarrow> segment_state list \<Rightarrow> (str \<times> bytes) list
   \<Rightarrow> upload_error + segment_state list" where
  "load_states L origin rid available states [] = Inr states"
| "load_states L origin rid available states ((name, contents) # entries) =
     and_then (segment_of_name L origin name) (\<lambda>segment.
     (case segment of
        None \<Rightarrow> load_states L origin rid available states entries
      | Some segment \<Rightarrow>
          and_then (check (length states < MAX_RECORDING_SEGMENTS) ''upload segment state limit exceeded'') (\<lambda>_.
          and_then (read_state L contents) (\<lambda>st.
          let st = omit_sensitive_blob_plans st in
          and_then (check (us_segment_no st = segment) ''upload state filename and segment identity disagree'') (\<lambda>_.
          and_then (validate_state_prefix st rid (recording_id_for_segment L rid segment) origin available) (\<lambda>planned_seq.
          and_then (check (name = segment_state_path L origin segment) ''upload state path is not canonical'') (\<lambda>_.
          load_states L origin rid available
            (states @ [\<lparr>sg_path = name, sg_state = st, sg_planned_seq = planned_seq\<rparr>]) entries)))))))"

text \<open>The check of the sorted chain: position, first sequence, and that all but the last segment
  are sealed.\<close>

fun check_chain :: "nat \<Rightarrow> nat \<Rightarrow> segment_state list \<Rightarrow> upload_error + unit" where
  "check_chain index expected_first [] = Inr ()"
| "check_chain index expected_first (item # items) =
     and_then (check (us_segment_no (sg_state item) = index) ''upload segment chain has a gap or duplicate'') (\<lambda>_.
     and_then (check (us_first_seq (sg_state item) = expected_first)
       ''upload segment chain has an event sequence gap or overlap'') (\<lambda>_.
     and_then (check (items = [] \<or> us_sealed (sg_state item) \<and> us_acked_seq (sg_state item) = sg_planned_seq item)
       ''only the final upload segment may remain open'') (\<lambda>_.
     and_then (ok_or (checked_add (sg_planned_seq item) 1) (UMessage ''upload sequence overflow'')) (\<lambda>expected.
     check_chain (index + 1) expected items))))"

definition load_segment_chain ::
  "('x) upload_codecs_scheme \<Rightarrow> (str \<times> bytes) list \<Rightarrow> str \<Rightarrow> str \<Rightarrow> nat \<Rightarrow> upload_error + segment_state list" where
  "load_segment_chain L spool origin rid available =
     and_then (load_states L origin rid available [] spool) (\<lambda>states.
     let states = sort_key (\<lambda>item. us_segment_no (sg_state item)) states in
     and_then (check_chain 0 1 states) (\<lambda>_. Inr states))"

definition segment_chain_complete :: "segment_state list \<Rightarrow> nat \<Rightarrow> bool" where
  "segment_chain_complete states final \<longleftrightarrow>
     states \<noteq> [] \<and> sg_planned_seq (last states) = final
     \<and> list_all (\<lambda>s. planned_sequence (sg_state s) \<ge> us_first_seq (sg_state s) \<and> us_sealed (sg_state s)
          \<and> us_acked_seq (sg_state s) = sg_planned_seq s) states"

definition cursor_at :: "('x) crates_scheme \<Rightarrow> str \<Rightarrow> str \<Rightarrow> nat \<Rightarrow> nat \<Rightarrow> segment_cursor" where
  "cursor_at L origin rid segment first =
     \<lparr>sc_path = segment_state_path L origin segment, sc_recording_id = recording_id_for_segment L rid segment,
      sc_segment_no = segment, sc_first_seq = first\<rparr>"

text \<open>The cursor of the segment after a sealed one; the same lines in \<open>select_segment_cursor\<close> and
  in the loops of the uploaders.\<close>

definition next_cursor :: "('x) crates_scheme \<Rightarrow> str \<Rightarrow> str \<Rightarrow> nat \<Rightarrow> nat \<Rightarrow> upload_error + segment_cursor" where
  "next_cursor L origin rid segment planned_seq =
     and_then (check (segment + 1 < MAX_RECORDING_SEGMENTS) ''upload recording segment limit exceeded'') (\<lambda>_.
     and_then (ok_or (checked_add planned_seq 1) (UMessage ''upload sequence overflow'')) (\<lambda>first.
     Inr (cursor_at L origin rid (segment + 1) first)))"

definition select_segment_cursor ::
  "('x) upload_codecs_scheme \<Rightarrow> (str \<times> bytes) list \<Rightarrow> str \<Rightarrow> str \<Rightarrow> nat
   \<Rightarrow> upload_error + segment_state list \<times> segment_cursor" where
  "select_segment_cursor L spool origin rid available =
     and_then (load_segment_chain L spool origin rid available) (\<lambda>states.
     and_then
       (if states = [] then Inr (cursor_at L origin rid 0 1)
        else let item = last states in
          if \<not> us_sealed (sg_state item) \<or> sg_planned_seq item = available
          then Inr (cursor_at L origin rid (us_segment_no (sg_state item)) (us_first_seq (sg_state item)))
          else
          and_then (check (sg_planned_seq item < available)
            ''upload segment chain exceeds the requested durable boundary'') (\<lambda>_.
          next_cursor L origin rid (us_segment_no (sg_state item)) (sg_planned_seq item))) (\<lambda>cursor.
     Inr (states, cursor)))"

definition rsplit_once :: "'a \<Rightarrow> 'a list \<Rightarrow> ('a list \<times> 'a list) option" where
  "rsplit_once c s =
     (if c \<in> set s
      then Some (rev (drop 1 (dropWhile (\<lambda>x. x \<noteq> c) (rev s))), rev (takeWhile (\<lambda>x. x \<noteq> c) (rev s)))
      else None)"

definition select_expected_segment_cursor ::
  "('x) upload_codecs_scheme \<Rightarrow> (str \<times> bytes) list \<Rightarrow> str \<Rightarrow> str \<Rightarrow> str \<Rightarrow> nat \<Rightarrow> nat
   \<Rightarrow> upload_error + segment_state list \<times> segment_cursor" where
  "select_expected_segment_cursor L spool origin rid expected boundary available =
     and_then (check (boundary \<le> available)
       ''persisted collector request boundary exceeds durable local evidence'') (\<lambda>_.
     and_then (ok_or (rsplit_once (CHR ''#'') expected)
       (UMessage ''collector request recording ID has no segment suffix'')) (\<lambda>(_, tail).
     and_then (check (length tail = 4 \<and> list_all is_ascii_digit tail)
       ''collector request recording ID has an invalid segment suffix'') (\<lambda>_.
     and_then (ok_or (parse_uint 4294967295 tail)
       (UMessage ''collector request recording segment is invalid'')) (\<lambda>segment.
     and_then (check (segment < MAX_RECORDING_SEGMENTS \<and> recording_id_for_segment L rid segment = expected)
       ''collector request recording ID does not belong to the local run'') (\<lambda>_.
     and_then (load_segment_chain L spool origin rid available) (\<lambda>states.
     and_then
       (if segment < length states then
          let item = states ! segment in
          and_then (check (us_segment_no (sg_state item) = segment)
            ''collector request recording segment is not contiguous'') (\<lambda>_.
          and_then (check (sg_planned_seq item \<le> boundary)
            ''collector request boundary was superseded inside an unsealed segment'') (\<lambda>_.
          and_then (check (\<not> (us_sealed (sg_state item) \<or> segment + 1 < length states) \<or> sg_planned_seq item = boundary)
            ''collector request boundary does not match the immutable segment seal'') (\<lambda>_.
          Inr \<lparr>sc_path = sg_path item, sc_recording_id = us_recording_id (sg_state item),
               sc_segment_no = segment, sc_first_seq = us_first_seq (sg_state item)\<rparr>)))
        else
          and_then (check (segment = length states) ''collector request recording segment has a gap'') (\<lambda>_.
          and_then
            (if states = [] then Inr 1
             else
               and_then (check (us_sealed (sg_state (last states)))
                 ''collector request cannot skip an open recording segment'') (\<lambda>_.
               ok_or (checked_add (sg_planned_seq (last states)) 1) (UMessage ''upload sequence overflow''))) (\<lambda>first.
          and_then (check (first \<le> boundary)
            ''collector request recording segment starts after its durable boundary'') (\<lambda>_.
          Inr \<lparr>sc_path = segment_state_path L origin segment, sc_recording_id = expected,
               sc_segment_no = segment, sc_first_seq = first\<rparr>)))) (\<lambda>cursor.
     Inr (states, cursor))))))))"

text \<open>The state a segment starts with.\<close>

definition new_upload_state :: "int \<Rightarrow> str \<Rightarrow> str \<Rightarrow> str \<Rightarrow> nat \<Rightarrow> nat \<Rightarrow> upload_state" where
  "new_upload_state now origin rid rec segment first =
     \<lparr>us_schema_version = STATE_SCHEMA_VERSION, us_api_origin = origin, us_run_id = rid,
      us_recording_id = rec, us_segment_no = segment, us_first_seq = first,
      us_batch_max_events = DEFAULT_BATCH_EVENTS, us_batch_max_bytes = DEFAULT_BATCH_BYTES,
      us_acked_seq = first - 1, us_sealed = False, us_collector_id = None, us_config_version = 0,
      us_batches = [], us_created_at = now, us_updated_at = now\<rparr>"

text \<open>\<open>load_or_create_state\<close> up to the write of the state.\<close>

definition loaded_or_new_state ::
  "('x) upload_codecs_scheme \<Rightarrow> int \<Rightarrow> (str \<times> bytes) list \<Rightarrow> segment_cursor \<Rightarrow> str \<Rightarrow> str \<Rightarrow> nat
   \<Rightarrow> upload_error + upload_state" where
  "loaded_or_new_state L now spool cursor rid origin target =
     and_then (case map_of spool (sc_path cursor) of
                 Some contents \<Rightarrow> read_state L contents
               | None \<Rightarrow> Inr (new_upload_state now origin rid (sc_recording_id cursor) (sc_segment_no cursor)
                                (sc_first_seq cursor))) (\<lambda>st.
     let st = omit_sensitive_blob_plans st in
     and_then (check (us_segment_no st = sc_segment_no cursor \<and> us_first_seq st = sc_first_seq cursor)
       ''upload state segment identity mismatch'') (\<lambda>_.
     and_then (validate_state_prefix st rid (sc_recording_id cursor) origin target) (\<lambda>_.
     Inr st)))"

section \<open>The wire\<close>

text \<open>\<open>read_batch\<close>: the bytes of the batch, and what the reader yields afterwards.\<close>

fun next_at_least ::
  "nat \<Rightarrow> (storage_error + event_envelope) list
   \<Rightarrow> upload_error + event_envelope \<times> (storage_error + event_envelope) list" where
  "next_at_least expected [] = Inl (UMessage ''event log ended before the upload plan'')"
| "next_at_least expected (item # items) =
     (case item of
        Inl err \<Rightarrow> Inl (UStorage err)
      | Inr e \<Rightarrow> if sequence e \<ge> expected then Inr (e, items) else next_at_least expected items)"

fun read_events ::
  "('x) json_codecs_scheme \<Rightarrow> nat \<Rightarrow> nat \<Rightarrow> (storage_error + event_envelope) list \<Rightarrow> bytes
   \<Rightarrow> upload_error + bytes \<times> (storage_error + event_envelope) list" where
  "read_events L 0 expected reader body = Inr (body, reader)"
| "read_events L (Suc n) expected reader body =
     and_then (next_at_least expected reader) (\<lambda>(e, reader).
     and_then (check (sequence e = expected) ''event sequence changed after spooling'') (\<lambda>_.
     and_then (ok_or (event_to_vec L e) UJson) (\<lambda>encoded.
     read_events L n (expected + 1) reader (body @ encoded @ [newline]))))"

definition read_batch ::
  "('x) json_codecs_scheme \<Rightarrow> (storage_error + event_envelope) list \<Rightarrow> batch_plan
   \<Rightarrow> upload_error + bytes \<times> (storage_error + event_envelope) list" where
  "read_batch L reader plan =
     and_then (read_events L (pl_last_seq plan + 1 - pl_first_seq plan) (pl_first_seq plan) reader []) (\<lambda>(body, reader).
     and_then (check (length body = pl_byte_length plan) ''batch byte length changed after spooling'') (\<lambda>_.
     and_then (check (hex_encode L (sha256 L body) = pl_sha256 plan) ''batch content changed after spooling'') (\<lambda>_.
     Inr (body, reader))))"

definition batch_id :: "str \<Rightarrow> nat \<Rightarrow> nat \<Rightarrow> str" where
  "batch_id rec first final = rec @ '':'' @ zero_padded 12 first @ ''-'' @ zero_padded 12 final"

definition plan_header :: "str \<Rightarrow> batch_plan \<Rightarrow> batch_header" where
  "plan_header rec plan =
     \<lparr>bh_batch_id = batch_id rec (pl_first_seq plan) (pl_last_seq plan), bh_recording_id = rec,
      bh_schema_version = 1, bh_first_seq = pl_first_seq plan, bh_last_seq = pl_last_seq plan,
      bh_event_count = pl_event_count plan, bh_byte_length = pl_byte_length plan,
      bh_sha256 = pl_sha256 plan, bh_prev_sha256 = pl_prev_sha256 plan, bh_encoding = ''ndjson+zstd'',
      bh_blobs = map (\<lambda>p. (bp_sha256 p, bp_size p)) (pl_blobs plan), bh_created_at = pl_created_at plan\<rparr>"

definition encode_batch_body ::
  "('x) upload_codecs_scheme \<Rightarrow> str \<Rightarrow> batch_plan \<Rightarrow> bytes \<Rightarrow> upload_error + bytes" where
  "encode_batch_body L rec plan body =
     and_then (ok_or (bulk_compress L body) (UMessage ''compress upload batch'')) (\<lambda>compressed.
     and_then (ok_or (header_to_vec L (plan_header rec plan)) UJson) (\<lambda>header.
     and_then (check (length header + 1 + length compressed \<le> MAX_WIRE_BATCH_BYTES)
       ''compressed upload batch exceeds wire limit'') (\<lambda>_.
     Inr (header @ [newline] @ compressed))))"

section \<open>Reconciliation\<close>

record remote_recording =
  rr_state :: str
  rr_segment_no :: nat
  rr_sequence_base :: nat
  rr_durable_seq :: nat
  rr_final_seq :: "nat option"

record batch_ack =
  ba_recording_id :: str
  ba_durable_seq :: nat
  ba_state :: str
  ba_missing_blobs :: "str list"

definition reconcile_remote :: "int \<Rightarrow> remote_recording \<Rightarrow> upload_state \<Rightarrow> upload_error + upload_state" where
  "reconcile_remote now remote st =
     (let sequence_base = us_first_seq st - 1; final = planned_sequence st in
     and_then (check (rr_segment_no remote = us_segment_no st \<and> rr_sequence_base remote = sequence_base)
       ''platform recording segment identity conflicts with local evidence'') (\<lambda>_.
     and_then (check (rr_durable_seq remote \<ge> sequence_base \<and> rr_durable_seq remote \<le> final)
       ''platform durable sequence exceeds local evidence'') (\<lambda>_.
     and_then (check (is_batch_boundary st (rr_durable_seq remote))
       ''platform durable sequence does not match the fixed local batch plan'') (\<lambda>_.
     and_then
       (if rr_state remote = ''sealed''
        then (case rr_final_seq remote of
                Some remote_final \<Rightarrow> check (remote_final = final) ''platform final sequence conflicts with local evidence''
              | None \<Rightarrow> Inr ())
        else check (rr_state remote = ''open'') ''platform recording is not uploadable'') (\<lambda>_.
     Inr (st\<lparr>us_acked_seq := rr_durable_seq remote,
             us_sealed := (rr_state remote = ''sealed'' \<and> rr_durable_seq remote = final),
             us_updated_at := now\<rparr>))))))"

definition validate_ack :: "upload_state \<Rightarrow> batch_plan \<Rightarrow> batch_ack \<Rightarrow> upload_error + unit" where
  "validate_ack st plan ack =
     and_then (check (ba_recording_id ack = us_recording_id st) ''platform acknowledged a different recording'') (\<lambda>_.
     and_then (check (ba_state ack = ''open'' \<or> ba_state ack = ''sealed'')
       ''platform returned an invalid recording state'') (\<lambda>_.
     and_then (check (ba_durable_seq ack \<ge> pl_last_seq plan \<and> ba_durable_seq ack \<le> planned_sequence st
                      \<and> is_batch_boundary st (ba_durable_seq ack))
       ''platform returned an invalid durable sequence'') (\<lambda>_.
     check (ba_missing_blobs ack = []) ''platform reports missing uploaded blobs'')))"

section \<open>What a plan stands for\<close>

text \<open>The NDJSON bytes of events, and the events of a log with the sequences from \<open>a\<close> to \<open>b\<close>.\<close>

fun ndjson :: "('x) json_codecs_scheme \<Rightarrow> event_envelope list \<Rightarrow> bytes option" where
  "ndjson L [] = Some []"
| "ndjson L (e # es) =
     (case (event_to_vec L e, ndjson L es) of
        (Some line, Some rest) \<Rightarrow> Some (line @ newline # rest) | _ \<Rightarrow> None)"

definition events_between :: "event_envelope list \<Rightarrow> nat \<Rightarrow> nat \<Rightarrow> event_envelope list" where
  "events_between es a b = take (Suc b - a) (drop (a - 1) es)"

text \<open>The digest of the blob an event uploads, and the blob plans of some events.\<close>

definition uploaded_blob :: "event_envelope \<Rightarrow> blob_plan \<Rightarrow> bool" where
  "uploaded_blob e p \<longleftrightarrow>
     (\<exists>r. raw e = Some r \<and> \<not> is_sensitive_upload_media_type (pr_media_type r)
        \<and> strip_prefix ''sha256:'' (pr_sha256 r) = Some (bp_sha256 p) \<and> pr_size r = bp_size p
        \<and> pr_media_type r = bp_media_type p)"

definition blobs_for :: "event_envelope list \<Rightarrow> (str \<times> blob_plan) list \<Rightarrow> bool" where
  "blobs_for es m \<longleftrightarrow>
     bt_wf m \<and> length m \<le> length es
     \<and> (\<forall>d p. map_of m d = Some p \<longrightarrow> bp_sha256 p = d \<and> (\<exists>e\<in>set es. uploaded_blob e p))
     \<and> (\<forall>e\<in>set es. \<forall>q. uploaded_blob e q \<longrightarrow> (\<exists>p. map_of m (bp_sha256 q) = Some p \<and> bp_size p = bp_size q))"

text \<open>A batch is faithful when it describes exactly the events of its range, within the limits.\<close>

definition faithful_batch :: "('x) json_codecs_scheme \<Rightarrow> event_envelope list \<Rightarrow> batch_plan \<Rightarrow> bool" where
  "faithful_batch L es b \<longleftrightarrow>
     0 < pl_first_seq b \<and> pl_first_seq b \<le> pl_last_seq b \<and> pl_last_seq b \<le> length es
     \<and> pl_event_count b = pl_last_seq b + 1 - pl_first_seq b \<and> pl_event_count b \<le> DEFAULT_BATCH_EVENTS
     \<and> (\<exists>body. ndjson L (events_between es (pl_first_seq b) (pl_last_seq b)) = Some body
          \<and> pl_byte_length b = length body \<and> length body \<le> DEFAULT_BATCH_BYTES
          \<and> pl_sha256 b = hex_encode L (sha256 L body))
     \<and> (\<exists>m. pl_blobs b = map snd m \<and> blobs_for (events_between es (pl_first_seq b) (pl_last_seq b)) m)"

text \<open>\<open>plan_chain L es n previous bs m\<close>: the batches \<open>bs\<close> are faithful, start at sequence \<open>n\<close>, follow each
  other without gap up to \<open>m - 1\<close> and carry the digest of their predecessor.\<close>

fun plan_chain ::
  "('x) json_codecs_scheme \<Rightarrow> event_envelope list \<Rightarrow> nat \<Rightarrow> str option \<Rightarrow> batch_plan list \<Rightarrow> nat \<Rightarrow> bool" where
  "plan_chain L es n previous [] m \<longleftrightarrow> n = m"
| "plan_chain L es n previous (b # bs) m \<longleftrightarrow>
     pl_first_seq b = n \<and> pl_prev_sha256 b = previous \<and> faithful_batch L es b
     \<and> plan_chain L es (pl_last_seq b + 1) (Some (pl_sha256 b)) bs m"

definition last_digest :: "str option \<Rightarrow> batch_plan list \<Rightarrow> str option" where
  "last_digest previous bs = (if bs = [] then previous else Some (pl_sha256 (last bs)))"

lemma last_digest_simps [simp]:
  "last_digest previous [] = previous" "last_digest previous (b # bs) = last_digest (Some (pl_sha256 b)) bs"
  "last_digest previous (bs @ [b]) = Some (pl_sha256 b)"
  by (simp_all add: last_digest_def)

lemma plan_chain_append:
  "plan_chain L es n previous (xs @ ys) m \<longleftrightarrow>
     (\<exists>k. plan_chain L es n previous xs k \<and> plan_chain L es k (last_digest previous xs) ys m)"
  by (induction L es n previous xs m rule: plan_chain.induct) auto

lemma plan_chain_le: "plan_chain L es n previous bs m \<Longrightarrow> n \<le> m"
  by (induction L es n previous bs m rule: plan_chain.induct) (auto simp: faithful_batch_def)

lemma plan_chain_last: "plan_chain L es n previous bs m \<Longrightarrow> bs \<noteq> [] \<Longrightarrow> Suc (pl_last_seq (last bs)) = m"
  by (induction L es n previous bs m rule: plan_chain.induct) (auto split: if_splits)

lemma plan_chain_faithful: "plan_chain L es n previous bs m \<Longrightarrow> b \<in> set bs \<Longrightarrow> faithful_batch L es b"
  by (induction L es n previous bs m rule: plan_chain.induct) auto

lemma plan_chain_bound: "plan_chain L es n previous bs m \<Longrightarrow> bs \<noteq> [] \<Longrightarrow> m \<le> Suc (length es)"
  using plan_chain_last[of L es n previous bs m] plan_chain_faithful[of L es n previous bs m "last bs"]
  by (auto simp: faithful_batch_def)

lemma plan_chain_length: "plan_chain L es n previous bs m \<Longrightarrow> length bs \<le> m - n"
  by (induction L es n previous bs m rule: plan_chain.induct)
    (use plan_chain_le in \<open>fastforce simp: faithful_batch_def\<close>)+

lemma events_between_append:
  "0 < a \<Longrightarrow> a - 1 \<le> length es \<Longrightarrow> b \<le> length es \<Longrightarrow> events_between (es @ es') a b = events_between es a b"
  by (simp add: events_between_def)

lemma faithful_batch_extend: "faithful_batch L es b \<Longrightarrow> faithful_batch L (es @ es') b"
  using events_between_append[of "pl_first_seq b" es "pl_last_seq b" es']
  by (auto simp: faithful_batch_def)

lemma plan_chain_extend: "plan_chain L es n previous bs m \<Longrightarrow> plan_chain L (es @ es') n previous bs m"
  by (induction L es n previous bs m rule: plan_chain.induct) (auto intro: faithful_batch_extend)

lemma events_between_empty: "0 < n \<Longrightarrow> events_between es n (n - Suc 0) = []"
  by (auto simp: events_between_def)

lemma events_between_Suc:
  assumes "0 < a" "a \<le> n" "n \<le> length es"
  shows "events_between es a n = events_between es a (n - 1) @ [es ! (n - 1)]"
proof -
  have "Suc n - a = Suc (n - a)" "Suc (n - 1) - a = n - a" "n - a < length (drop (a - 1) es)"
    using assms by auto
  moreover have "drop (a - 1) es ! (n - a) = es ! (n - 1)" using assms by simp
  ultimately show ?thesis unfolding events_between_def by (metis take_Suc_conv_app_nth)
qed

lemma events_between_split:
  assumes "0 < a" "a \<le> Suc b" "b \<le> c" "c \<le> length es"
  shows "events_between es a c = events_between es a b @ events_between es (Suc b) c"
proof -
  have "Suc c - a = (Suc b - a) + (c - b)" "drop b es = drop (Suc b - a) (drop (a - 1) es)"
    using assms by auto
  then show ?thesis unfolding events_between_def by (simp only: take_add diff_Suc_Suc) simp
qed

lemma length_events_between: "0 < a \<Longrightarrow> b \<le> length es \<Longrightarrow> length (events_between es a b) = Suc b - a"
  by (auto simp: events_between_def min_def)

lemma events_between_all: "events_between es 1 (length es) = es"
  by (simp add: events_between_def)

lemma set_events_between: "set (events_between es a b) \<subseteq> set es"
  unfolding events_between_def by (meson set_take_subset set_drop_subset subset_trans)

lemma plan_chain_events:
  "plan_chain L es n previous bs m \<Longrightarrow> 0 < n \<Longrightarrow>
   concat (map (\<lambda>b. events_between es (pl_first_seq b) (pl_last_seq b)) bs) = events_between es n (m - 1)"
proof (induction L es n previous bs m rule: plan_chain.induct)
  case (1 L es n previous m)
  then show ?case by (simp add: events_between_empty)
next
  case (2 L es n previous b bs m)
  then have b: "faithful_batch L es b" "pl_first_seq b = n" and rest: "plan_chain L es (pl_last_seq b + 1) (Some (pl_sha256 b)) bs m"
    by auto
  have "m - 1 \<le> length es" "pl_last_seq b \<le> m - 1"
    using plan_chain_bound[OF "2.prems"(1)] plan_chain_le[OF rest] by auto
  then show ?case using 2 b events_between_split[of n "pl_last_seq b" "m - 1" es]
    by (auto simp: faithful_batch_def)
qed

lemma ndjson_append:
  "ndjson L (xs @ ys) = (case (ndjson L xs, ndjson L ys) of (Some a, Some b) \<Rightarrow> Some (a @ b) | _ \<Rightarrow> None)"
  by (induction xs) (auto split: option.splits)

lemma ndjson_append_Some:
  "ndjson L (xs @ ys) = Some body \<longleftrightarrow> (\<exists>a b. ndjson L xs = Some a \<and> ndjson L ys = Some b \<and> body = a @ b)"
  by (auto simp: ndjson_append split: option.splits)

lemma ndjson_single: "ndjson L [e] = map_option (\<lambda>line. line @ [newline]) (event_to_vec L e)"
  by (simp split: option.splits)

lemma consecutive_nth: "consecutive n es \<Longrightarrow> i < length es \<Longrightarrow> sequence (es ! i) = n + i"
  by (induction n es arbitrary: i rule: consecutive.induct) (auto simp: nth_Cons split: nat.splits)

section \<open>The planning loop\<close>

lemma blobs_for_Nil [simp]: "blobs_for [] []"
  by (simp add: blobs_for_def)

lemma length_bt_insert: "length (bt_insert k v m) \<le> Suc (length m)"
  by (induction k v m rule: bt_insert.induct) auto

lemma add_blob_plan_for:
  assumes m: "blobs_for es m" and ok: "add_blob_plan m (raw e) = Inr m'"
  shows "blobs_for (es @ [e]) m'"
proof (cases "\<exists>q. uploaded_blob e q")
  case False
  have "m' = m"
  proof (cases "raw e")
    case (Some r)
    have "is_sensitive_upload_media_type (pr_media_type r)"
    proof (rule ccontr)
      assume s: "\<not> is_sensitive_upload_media_type (pr_media_type r)"
      with ok Some obtain d where "strip_prefix ''sha256:'' (pr_sha256 r) = Some d"
        by (auto simp: add_blob_plan_def and_then_eq_Inr)
      then have "uploaded_blob e \<lparr>bp_sha256 = d, bp_size = pr_size r, bp_media_type = pr_media_type r\<rparr>"
        using s Some by (simp add: uploaded_blob_def)
      then show False using False by blast
    qed
    then show ?thesis using ok Some by (simp add: add_blob_plan_def)
  qed (use ok in \<open>simp add: add_blob_plan_def\<close>)
  then show ?thesis using m False unfolding blobs_for_def by auto
next
  case True
  then obtain q where q: "uploaded_blob e q" by auto
  then obtain r where r: "raw e = Some r" "\<not> is_sensitive_upload_media_type (pr_media_type r)"
      "strip_prefix ''sha256:'' (pr_sha256 r) = Some (bp_sha256 q)" "pr_size r = bp_size q" "pr_media_type r = bp_media_type q"
    by (auto simp: uploaded_blob_def)
  have q_eq: "\<lparr>bp_sha256 = bp_sha256 q, bp_size = bp_size q, bp_media_type = bp_media_type q\<rparr> = q" by simp
  have only: "uploaded_blob e p \<longleftrightarrow> p = q" for p
    using r q by (auto simp: uploaded_blob_def intro: blob_plan.equality)
  show ?thesis
  proof (cases "map_of m (bp_sha256 q)")
    case None
    then have "m' = bt_insert (bp_sha256 q) \<lparr>bp_sha256 = bp_sha256 q, bp_size = bp_size q, bp_media_type = bp_media_type q\<rparr> m"
      using ok r by (simp add: add_blob_plan_def Let_def)
    then have "m' = bt_insert (bp_sha256 q) q m" unfolding q_eq .
    with m None q only length_bt_insert[of "bp_sha256 q" q m] show ?thesis
      by (auto simp: blobs_for_def split: if_splits) (metis option.distinct(1))+
  next
    case (Some p)
    then have "m' = m" "bp_size p = bp_size q" using ok r q_eq by (auto simp: add_blob_plan_def Let_def and_then_eq_Inr)
    with m Some only show ?thesis by (auto simp: blobs_for_def)
  qed
qed

definition scan_start :: "plan_scan \<Rightarrow> nat" where
  "scan_start s = (if ps_count s = 0 then ps_expected s else ps_first_seq s)"

definition scan_ok :: "('x) json_codecs_scheme \<Rightarrow> event_envelope list \<Rightarrow> nat \<Rightarrow> str option \<Rightarrow> plan_scan \<Rightarrow> bool" where
  "scan_ok L es first previous s \<longleftrightarrow>
     plan_chain L es first previous (ps_batches s) (scan_start s)
     \<and> ps_previous s = last_digest previous (ps_batches s)
     \<and> 0 < scan_start s \<and> scan_start s + ps_count s = ps_expected s \<and> ps_expected s \<le> Suc (length es)
     \<and> (ps_count s > 0 \<longrightarrow> Suc (ps_last_seq s) = ps_expected s)
     \<and> ps_count s \<le> DEFAULT_BATCH_EVENTS \<and> length (ps_raw s) \<le> DEFAULT_BATCH_BYTES
     \<and> ndjson L (events_between es (scan_start s) (ps_expected s - 1)) = Some (ps_raw s)
     \<and> blobs_for (events_between es (scan_start s) (ps_expected s - 1)) (ps_blobs s)"

lemma finish_plan_faithful:
  assumes s: "scan_ok L es first previous s" and "ps_count s > 0"
    and "finish_plan L now (ps_first_seq s) (ps_last_seq s) (ps_count s) (ps_raw s) (ps_blobs s) (ps_previous s) = Inr b"
  shows "plan_chain L es first previous (ps_batches s @ [b]) (ps_expected s)"
    "length (ps_batches s @ [b]) = Suc (length (ps_batches s))"
proof -
  have "Suc (ps_last_seq s) = ps_expected s" using s assms(2) by (simp add: scan_ok_def)
  then have e: "ps_expected s - 1 = ps_last_seq s" by simp
  have b: "b = \<lparr>pl_first_seq = ps_first_seq s, pl_last_seq = ps_last_seq s, pl_event_count = ps_count s,
      pl_byte_length = length (ps_raw s), pl_sha256 = hex_encode L (sha256 L (ps_raw s)),
      pl_prev_sha256 = ps_previous s, pl_blobs = map snd (ps_blobs s), pl_created_at = now\<rparr>"
    using assms(3) by (auto simp: finish_plan_def and_then_eq_Inr)
  have "faithful_batch L es b"
    using s assms(2) unfolding scan_ok_def e scan_start_def faithful_batch_def b by auto
  then show "plan_chain L es first previous (ps_batches s @ [b]) (ps_expected s)"
    using s assms(2) by (auto simp: scan_ok_def plan_chain_append scan_start_def b)
qed simp

lemma close_full_batch_ok:
  assumes s: "scan_ok L es first previous s" and ok: "close_full_batch L now k s = Inr s'" and k: "k \<le> DEFAULT_BATCH_BYTES"
  shows "scan_ok L es first previous s'" "ps_expected s' = ps_expected s"
    "ps_count s' < DEFAULT_BATCH_EVENTS" "length (ps_raw s') + k \<le> DEFAULT_BATCH_BYTES"
proof -
  let ?full = "ps_count s > 0 \<and> (ps_count s = DEFAULT_BATCH_EVENTS \<or> length (ps_raw s) + k > DEFAULT_BATCH_BYTES)"
  have "scan_ok L es first previous s' \<and> ps_expected s' = ps_expected s
    \<and> ps_count s' < DEFAULT_BATCH_EVENTS \<and> length (ps_raw s') + k \<le> DEFAULT_BATCH_BYTES"
  proof (cases ?full)
    case False
    then have s': "s' = s" using ok unfolding close_full_batch_def by (subst (asm) if_not_P) simp_all
    have "ps_raw s = []" if "ps_count s = 0"
    proof -
      have "events_between es (scan_start s) (ps_expected s - 1) = []"
        using s that by (auto simp: scan_ok_def scan_start_def intro: events_between_empty)
      then show ?thesis using s by (simp add: scan_ok_def)
    qed
    moreover have "ps_count s \<le> DEFAULT_BATCH_EVENTS" "(0::nat) < DEFAULT_BATCH_EVENTS"
      using s by (simp_all add: scan_ok_def DEFAULT_BATCH_EVENTS_def)
    ultimately show ?thesis using s False k unfolding s' by (cases "ps_count s = 0") auto
  next
    case True
    then obtain b where close: "ps_count s > 0"
      "finish_plan L now (ps_first_seq s) (ps_last_seq s) (ps_count s) (ps_raw s) (ps_blobs s) (ps_previous s) = Inr b"
      "s' = s\<lparr>ps_previous := Some (pl_sha256 b), ps_batches := ps_batches s @ [b], ps_raw := [], ps_blobs := [], ps_count := 0\<rparr>"
      using ok unfolding close_full_batch_def by (subst (asm) if_P) (auto simp: and_then_eq_Inr)
    have e: "0 < ps_expected s" "ps_expected s \<le> Suc (length es)" using s close(1) by (auto simp: scan_ok_def)
    have st: "scan_start s' = ps_expected s" by (simp add: scan_start_def close(3))
    have "scan_ok L es first previous s'"
      unfolding scan_ok_def st using e finish_plan_faithful(1)[OF s close(1,2)]
      by (simp add: close(3) events_between_empty DEFAULT_BATCH_EVENTS_def)
    then show ?thesis using k by (simp add: close(3) DEFAULT_BATCH_EVENTS_def)
  qed
  then show "scan_ok L es first previous s'" "ps_expected s' = ps_expected s"
    "ps_count s' < DEFAULT_BATCH_EVENTS" "length (ps_raw s') + k \<le> DEFAULT_BATCH_BYTES" by simp_all
qed

lemma plan_event_ok:
  assumes s: "scan_ok L es first previous s" and ok: "plan_event L now s e = Inr s'"
    and e: "e = es ! (ps_expected s - 1)" "ps_expected s \<le> length es"
  shows "scan_ok L es first previous s'" "ps_expected s' = Suc (ps_expected s)"
proof -
  from ok obtain encoded s1 blobs where st: "sequence e = ps_expected s" "event_to_vec L e = Some encoded"
      "Suc (length encoded) \<le> DEFAULT_BATCH_BYTES" "close_full_batch L now (Suc (length encoded)) s = Inr s1"
      "add_blob_plan (ps_blobs s1) (raw e) = Inr blobs"
    and s': "s' = s1\<lparr>ps_expected := Suc (ps_expected s), ps_first_seq := (if ps_count s1 = 0 then sequence e else ps_first_seq s1),
       ps_last_seq := sequence e, ps_blobs := blobs, ps_raw := ps_raw s1 @ encoded @ [newline], ps_count := ps_count s1 + 1\<rparr>"
    by (auto simp: plan_event_def and_then_eq_Inr Let_def)
  note c = close_full_batch_ok[OF s st(4) st(3)]
  have start: "0 < scan_start s1" "scan_start s1 \<le> ps_expected s" using c by (auto simp: scan_ok_def)
  have st': "scan_start s' = scan_start s1" using c st(1) by (simp add: s' scan_start_def)
  have ev: "events_between es (scan_start s1) (ps_expected s) = events_between es (scan_start s1) (ps_expected s - 1) @ [e]"
    using events_between_Suc[OF start e(2)] e(1) by simp
  have "ndjson L (events_between es (scan_start s1) (ps_expected s - 1)) = Some (ps_raw s1)"
    "blobs_for (events_between es (scan_start s1) (ps_expected s - 1)) (ps_blobs s1)"
    using c(1,2) by (simp_all add: scan_ok_def)
  then have "ndjson L (events_between es (scan_start s1) (ps_expected s)) = Some (ps_raw s1 @ encoded @ [newline])"
    "blobs_for (events_between es (scan_start s1) (ps_expected s)) blobs"
    unfolding ev using st(2) by (simp_all add: ndjson_append add_blob_plan_for[OF _ st(5)])
  then have "scan_ok L es first previous s'"
    using c st(1) e(2) unfolding scan_ok_def st' by (simp add: s')
  then show "scan_ok L es first previous s'" "ps_expected s' = Suc (ps_expected s)" by (simp_all add: s')
qed

lemma plan_loop_skip:
  "consecutive n es \<Longrightarrow> n + length es \<le> first \<Longrightarrow>
   plan_loop L now first final s (map Inr es @ rest) = plan_loop L now first final s rest"
  by (induction n es rule: consecutive.induct) auto

lemma plan_loop_ok:
  assumes "scan_ok L es first previous s" "consecutive 1 es" "first \<le> ps_expected s" "ps_expected s \<le> Suc final"
    and "plan_loop L now first final s (map Inr (drop (ps_expected s - 1) es)) = Inr s'"
  shows "scan_ok L es first previous s' \<and> ps_expected s' = min (Suc final) (Suc (length es))"
  using assms
proof (induction "length es - (ps_expected s - 1)" arbitrary: s)
  case 0
  then have "ps_expected s = Suc (length es)" by (auto simp: scan_ok_def)
  then show ?case using 0 by auto
next
  case (Suc n)
  let ?i = "ps_expected s - 1"
  have pos: "0 < ps_expected s" using Suc.prems(1) by (auto simp: scan_ok_def)
  have i: "?i < length es" using Suc.hyps(2) by simp
  have seq: "sequence (es ! ?i) = ps_expected s" using consecutive_nth[OF Suc.prems(2) i] pos by simp
  have dr: "drop ?i es = es ! ?i # drop (ps_expected s) es" using Cons_nth_drop_Suc[OF i] pos by simp
  show ?case
  proof (cases "ps_expected s > final")
    case True
    then have "s' = s" using Suc.prems(3,5) dr seq by simp
    then show ?thesis using Suc.prems(1,4) True i by auto
  next
    case False
    then obtain s1 where s1: "plan_event L now s (es ! ?i) = Inr s1"
        "plan_loop L now first final s1 (map Inr (drop (ps_expected s) es)) = Inr s'"
      using Suc.prems(3,5) dr seq by (auto simp: and_then_eq_Inr)
    note p = plan_event_ok[OF Suc.prems(1) s1(1) refl]
    have "ps_expected s \<le> length es" using i pos by simp
    note p = p[OF this]
    have "n = length es - (ps_expected s1 - 1)" using Suc.hyps(2) p(2) pos by simp
    from Suc.hyps(1)[OF this p(1) Suc.prems(2)] show ?thesis using p(2) s1(2) False Suc.prems(3) by simp
  qed
qed

lemma build_batch_plans_chain:
  assumes es: "consecutive 1 es" "final < U64_MAX"
    and ok: "build_batch_plans_range L now (map Inr es) first final previous = Inr bs"
  shows "plan_chain L es first previous bs (Suc final)" "bs \<noteq> []" "0 < first" "first \<le> final" "final \<le> length es"
    "sum_list (map (\<lambda>b. length (pl_blobs b)) bs) \<le> MAX_BLOB_PLANS"
proof -
  define s0 where "s0 = \<lparr>ps_batches = [], ps_raw = [], ps_first_seq = 0, ps_last_seq = 0, ps_count = 0, ps_blobs = [],
        ps_previous = previous, ps_expected = first\<rparr>"
  from ok obtain s where range: "0 < first" "first \<le> final" and s: "plan_loop L now first final s0 (map Inr es) = Inr s"
    and bs: "if ps_count s > 0
             then \<exists>b. finish_plan L now (ps_first_seq s) (ps_last_seq s) (ps_count s) (ps_raw s) (ps_blobs s) (ps_previous s) = Inr b
                      \<and> bs = ps_batches s @ [b]
             else bs = ps_batches s" "bs \<noteq> []"
    and fin: "final = U64_MAX \<or> ps_expected s = saturating_add final 1"
      "sum_list (map (\<lambda>b. length (pl_blobs b)) bs) \<le> MAX_BLOB_PLANS"
    unfolding build_batch_plans_range_def s0_def by (auto simp: and_then_eq_Inr split: if_splits)
  have first_le: "first \<le> Suc (length es)"
  proof (rule ccontr)
    assume "\<not> first \<le> Suc (length es)"
    then have "s = s0" using s plan_loop_skip[OF es(1), of first L now final s0 "[]"] by simp
    then show False using bs by (simp add: s0_def)
  qed
  have "take (first - 1) es @ drop (first - 1) es = es" by simp
  then have "plan_loop L now first final s0 (map Inr (drop (first - 1) es)) = Inr s"
    using s plan_loop_skip[of 1 "take (first - 1) es" first L now final s0 "map Inr (drop (first - 1) es)"] es(1) range(1)
      consecutive_append[of 1 "take (first - 1) es" "drop (first - 1) es"]
    by (simp add: map_append[symmetric] del: map_append consecutive_append)
  moreover have "scan_ok L es first previous s0"
    using range(1) first_le by (simp add: s0_def scan_ok_def scan_start_def events_between_empty DEFAULT_BATCH_EVENTS_def)
  ultimately have s: "scan_ok L es first previous s" "ps_expected s = min (Suc final) (Suc (length es))"
    using plan_loop_ok[of L es first previous s0 final now s] es(1) range by (simp_all add: s0_def)
  have chain: "plan_chain L es first previous bs (ps_expected s)"
    using bs(1) finish_plan_faithful(1)[OF s(1)] s(1) by (auto simp: scan_ok_def scan_start_def split: if_splits)
  have "ps_expected s = Suc final" using fin(1) s(2) es(2) by (auto simp: saturating_add_def min_def split: if_splits)
  then show "plan_chain L es first previous bs (Suc final)" "final \<le> length es" using chain s(2) by simp_all
  show "bs \<noteq> []" "0 < first" "first \<le> final" "sum_list (map (\<lambda>b. length (pl_blobs b)) bs) \<le> MAX_BLOB_PLANS"
    by (fact bs(2) range fin(2))+
qed

section \<open>A concrete codec for witnesses\<close>

definition demo_body :: bytes where
  "demo_body = ''{1}'' @ newline # ''{2}'' @ [newline]"

definition demo_plan :: batch_plan where
  "demo_plan = \<lparr>pl_first_seq = 1, pl_last_seq = 2, pl_event_count = 2, pl_byte_length = length demo_body,
     pl_sha256 = hex_encode demo_crates (sha256 demo_crates demo_body), pl_prev_sha256 = None, pl_blobs = [],
     pl_created_at = 5\<rparr>"

text \<open>The states an upload of these two events goes through.\<close>

definition demo_state :: "uuid option \<Rightarrow> batch_plan list \<Rightarrow> nat \<Rightarrow> bool \<Rightarrow> upload_state" where
  "demo_state cid bs acked sealed =
     (new_upload_state 5 ''https://p'' ''r'' ''r#0000'' 0 1)\<lparr>us_collector_id := cid, us_batches := bs,
        us_acked_seq := acked, us_sealed := sealed\<rparr>"

definition demo_states :: "(upload_state \<times> bytes) list" where
  "demo_states = [(demo_state None [] 0 False, ''{s0}''), (demo_state (Some 3) [] 0 False, ''{s1}''),
     (demo_state (Some 3) [demo_plan] 0 False, ''{s2}''), (demo_state (Some 3) [demo_plan] 2 False, ''{s3}''),
     (demo_state (Some 3) [demo_plan] 2 True, ''{s4}'')]"

definition demo_upload :: upload_codecs where
  "demo_upload = run_codecs.extend demo_run (upload_codecs.fields
     (map_of demo_states)
     (\<lambda>bs. map_of (map (\<lambda>(st, code). (code, st)) demo_states) (strip_suffix_or newline bs))
     (map_of [(plan_header ''r#0000'' demo_plan, ''{H}'')]) Some
     (\<lambda>bs. map_of [(''{H}'', plan_header ''r#0000'' demo_plan)] (strip_suffix_or newline bs)) (\<lambda>_. ''{H}'')
     (\<lambda>bs n. if length bs \<le> n then Some bs else None)
     (map_of [(''{1}'', 1), (''{2}'', 2)]) (\<lambda>_. Some ''{C}'') (\<lambda>_. True))"

lemma demo_upload_fields:
  "sha256 demo_upload = sha256 demo_crates" "hex_encode demo_upload = hex_encode demo_crates"
  "hex_decode demo_upload = hex_decode demo_crates" "event_to_vec demo_upload = event_to_vec demo_codecs"
  "state_to_vec demo_upload = map_of demo_states"
  "state_from_slice demo_upload =
     (\<lambda>bs. map_of (map (\<lambda>(st, code). (code, st)) demo_states) (strip_suffix_or newline bs))"
  "header_to_vec demo_upload = map_of [(plan_header ''r#0000'' demo_plan, ''{H}'')]" "bulk_compress demo_upload = Some"
  "header_unmarshal demo_upload = (\<lambda>bs. map_of [(''{H}'', plan_header ''r#0000'' demo_plan)] (strip_suffix_or newline bs))"
  "header_marshal demo_upload = (\<lambda>_. ''{H}'')"
  "zstd_decode_all demo_upload = (\<lambda>bs n. if length bs \<le> n then Some bs else None)"
  "event_line_sequence demo_upload = (map_of [(''{1}'', 1), (''{2}'', 2)])"
  "config_to_vec demo_upload = (\<lambda>_. Some ''{C}'')" "header_value_ok demo_upload = (\<lambda>_. True)"
  by (simp_all add: demo_upload_def demo_run_def demo_log_def demo_codecs_def crates.defs json_codecs.defs
        log_codecs.defs run_codecs.defs upload_codecs.defs)

lemma demo_upload_laws [simp]: "hex_law demo_upload" "sha256_law demo_upload"
  using demo_laws unfolding hex_law_def sha256_law_def demo_upload_fields by blast+

lemma demo_events_consecutive: "consecutive 1 [demo_event 1, demo_event 2]"
  by simp

lemma demo_raw: "raw (demo_event n) = None"
  by (simp add: demo_event_def from_pending_def new_pending_event_def)

lemma demo_plan_built:
  "build_batch_plans_range demo_upload 5 (map Inr [demo_event 1, demo_event 2]) 1 2 None = Inr [demo_plan]"
  by (simp add: build_batch_plans_range_def plan_event_def close_full_batch_def add_blob_plan_def finish_plan_def
        demo_upload_fields demo_codecs_json demo_raw DEFAULT_BATCH_BYTES_def DEFAULT_BATCH_EVENTS_def MAX_BLOB_PLANS_def
        demo_plan_def demo_body_def checked_add_def saturating_add_def U64_MAX_def)

text \<open>
  C7: A plan for a range of the event log is exact. Its batches follow each other without gap or
  overlap from the first to the final sequence, and together they carry exactly the events of the
  range in order. Each batch has the length and the SHA-256 of the NDJSON of its events and the
  digest of its predecessor, and it references each ordinary blob its events use, once and with its
  size, and no sensitive one. Each keeps the limits on events, bytes and blobs.
\<close>

theorem batch_plans_partition:
  assumes "consecutive 1 es" "final < U64_MAX"
    and "build_batch_plans_range L now (map Inr es) first final previous = Inr bs"
  shows "plan_chain L es first previous bs (Suc final)
    \<and> concat (map (\<lambda>b. events_between es (pl_first_seq b) (pl_last_seq b)) bs) = events_between es first final
    \<and> length (events_between es first final) = Suc final - first
    \<and> sum_list (map (\<lambda>b. length (pl_blobs b)) bs) \<le> MAX_BLOB_PLANS"
  using build_batch_plans_chain[OF assms] plan_chain_events[of L es first previous bs "Suc final"]
    length_events_between[of first final es] by auto

theorem batch_plans_partition_witness:
  "plan_chain demo_upload [demo_event 1, demo_event 2] 1 None [demo_plan] (Suc 2)
   \<and> events_between [demo_event 1, demo_event 2] 1 2 = [demo_event 1, demo_event 2]"
  using batch_plans_partition[OF demo_events_consecutive _ demo_plan_built]
  by (simp add: U64_MAX_def demo_plan_def events_between_def)

end
