(* ===== verification/Platform_Ingest.thy ===== *)
theory Platform_Ingest
  imports Upload_Plan "HOL-Library.AList"
begin

text \<open>
  The receive path of the platform (\<open>iorec-platform/internal/ingest/ingest.go\<close>,
  \<open>protocol/codec.go\<close>, \<open>control/control.go\<close>, \<open>query/query.go\<close>): registration of collectors,
  creation of recordings, batches, blobs, sealing, lookup, and the sweep that seals idle
  recordings. The state is the catalogue (its tables by primary key) and the object store. A
  request is one transaction. Beside its result a handler gives the states that a failure inside
  it can leave behind: the object store is written before the transaction commits, and a blob
  upload commits its intent first. SHA-256 and base16 are the functions of the crate record, which
  their standards fix for both sides. The caller is an authenticated collector principal. The
  descriptive columns of runs and collectors, project settings, processing jobs, notifications
  and the contents of alerts are not part of the state.
\<close>

section \<open>Catalogue\<close>

record principal =
  pr_tenant :: uuid
  pr_project :: uuid
  pr_collector :: "uuid option"

record collector =
  co_project :: uuid
  co_status :: str
  co_last_heartbeat :: nat

record capture_run =
  cr_project :: uuid
  cr_collector :: "uuid option"
  cr_state :: str
  cr_ended_at :: "nat option"

record recording =
  rc_project :: uuid
  rc_run :: str
  rc_segment_no :: nat
  rc_sequence_base :: nat
  rc_schema_version :: nat
  rc_origin :: str
  rc_durable_seq :: nat
  rc_state :: str
  rc_final_seq :: "nat option"
  rc_manifest :: "bytes option"
  rc_manifest_sha256 :: "bytes option"
  rc_missing_blobs :: "str list"
  rc_integrity_alerts :: "str list"
  rc_updated_at :: nat

record batch_row =
  br_recording :: str
  br_batch_id :: str
  br_first_seq :: nat
  br_last_seq :: nat
  br_event_count :: nat
  br_byte_length :: nat
  br_sha256 :: bytes
  br_object_key :: str

record blob_row =
  bl_size :: nat
  bl_object_key :: str
  bl_ref_count :: nat
  bl_state :: str

record platform =
  pf_collectors :: "(uuid \<times> collector) list"
  pf_runs :: "(str \<times> capture_run) list"
  pf_recordings :: "(str \<times> recording) list"
  pf_batches :: "batch_row list"
  pf_blobs :: "((uuid \<times> bytes) \<times> blob_row) list"
  pf_refs :: "(str \<times> uuid \<times> bytes) list"
  pf_objects :: "(str \<times> bytes) list"

type_synonym api_error = "nat \<times> str"

datatype 'r response = Accepted nat 'r | Refused nat str

type_synonym 'r handler = "platform \<Rightarrow> ('r response \<times> platform) \<times> platform list"

text \<open>The configuration of the service: the text of UUIDs, the storage limit (zero for the default),
  the checks of JSON documents, and the effective collector configuration with its version.\<close>

record service =
  sv_uuid_text :: "uuid \<Rightarrow> str"
  sv_max_project_storage_bytes :: nat
  sv_is_object :: "bytes \<Rightarrow> bool"
  sv_capabilities_ok :: "bytes \<Rightarrow> bool"
  sv_effective_config :: "uuid \<Rightarrow> int \<times> json"

text \<open>A transaction: an error rolls back.\<close>

definition transaction :: "(platform \<Rightarrow> api_error + nat \<times> 'r \<times> platform) \<Rightarrow> 'r handler" where
  "transaction f = (\<lambda>p.
     (case f p of
        Inl (status, code) \<Rightarrow> ((Refused status code, p), [])
      | Inr (status, r, p') \<Rightarrow> ((Accepted status r, p'), [])))"

abbreviation require :: "bool \<Rightarrow> nat \<Rightarrow> str \<Rightarrow> api_error + unit" where
  "require b status code \<equiv> ensure b (status, code)"

definition DefaultMaxProjectStorageBytes :: nat where "DefaultMaxProjectStorageBytes = 100 * 2 ^ 30"

text \<open>A configured limit of zero selects the default.\<close>

definition checkProjectStorage :: "nat \<Rightarrow> platform \<Rightarrow> uuid \<Rightarrow> nat \<Rightarrow> api_error + unit" where
  "checkProjectStorage max_bytes p project additional =
     (let limit = (if max_bytes = 0 then DefaultMaxProjectStorageBytes else max_bytes);
          used = sum_list (map (\<lambda>((owner, _), b). if owner = project then bl_size b else 0) (pf_blobs p))
            + sum_list (map (\<lambda>b. case map_of (pf_recordings p) (br_recording b) of
                                 Some r \<Rightarrow> if rc_project r = project then br_byte_length b else 0
                               | None \<Rightarrow> 0) (pf_batches p)) in
      require (additional \<le> limit \<and> used \<le> limit - additional) 429 ''storage_quota_exceeded'')"

text \<open>\<open>Put\<close> of the object store: an existing object wins. Objects are found by the text of their key;
  that the file store cleans a key into a path, and the S3 store, are not modelled.\<close>

definition put_object :: "str \<Rightarrow> bytes \<Rightarrow> platform \<Rightarrow> platform" where
  "put_object key contents p =
     (case map_of (pf_objects p) key of
        Some _ \<Rightarrow> p
      | None \<Rightarrow> p\<lparr>pf_objects := AList.update key contents (pf_objects p)\<rparr>)"

section \<open>Object keys\<close>

text \<open>The keys name tenant and project by the text of their UUIDs, an argument; \<open>url.PathEscape\<close>
  keeps unreserved bytes and the path delimiters \<open>$&+:=@\<close> and writes others as \<open>%XX\<close>.\<close>

definition go_unreserved :: "char \<Rightarrow> bool" where
  "go_unreserved c \<longleftrightarrow> is_ascii_digit c \<or> in_byte_range 65 90 c \<or> in_byte_range 97 122 c \<or> c \<in> set ''-_.~$&+:=@''"

definition upper_hex_digit :: "nat \<Rightarrow> char" where
  "upper_hex_digit n = (if n < 10 then char_of (48 + n) else char_of (55 + n))"

definition path_escape :: "str \<Rightarrow> str" where
  "path_escape s = concat (map (\<lambda>c. if go_unreserved c then [c]
     else [CHR 0x25, upper_hex_digit (byte_val c div 16), upper_hex_digit (byte_val c mod 16)]) s)"

definition RecordingPrefix :: "(uuid \<Rightarrow> str) \<Rightarrow> uuid \<Rightarrow> uuid \<Rightarrow> str \<Rightarrow> str" where
  "RecordingPrefix uuid_text tenant project rec =
     uuid_text tenant @ ''/'' @ uuid_text project @ ''/recordings/'' @ path_escape rec @ ''/''"

definition BatchObjectKey :: "nat \<Rightarrow> nat \<Rightarrow> str" where
  "BatchObjectKey first final = ''batches/'' @ zero_padded 12 first @ ''-'' @ zero_padded 12 final @ ''.ndjson.zst''"

definition BlobKey :: "(uuid \<Rightarrow> str) \<Rightarrow> uuid \<Rightarrow> uuid \<Rightarrow> str \<Rightarrow> str" where
  "BlobKey uuid_text tenant project sha =
     uuid_text tenant @ ''/'' @ uuid_text project @ ''/blobs/sha256/'' @ take 2 sha @ ''/'' @ take 2 (drop 2 sha) @ ''/'' @ sha"

section \<open>Registration\<close>

record registration =
  rg_collector_id :: uuid
  rg_config_version :: int
  rg_config :: json

record register_request =
  rq_collector_id :: "uuid option"
  rq_name :: str
  rq_version :: str
  rq_hostname :: str
  rq_os :: str
  rq_capabilities :: bytes

definition has_line_or_nul :: "str \<Rightarrow> bool" where
  "has_line_or_nul s \<longleftrightarrow> list_ex (\<lambda>c. c = CHR 0x00 \<or> c = carriage_return \<or> c = newline) s"

text \<open>\<open>Register\<close>: \<open>fresh\<close> is the identifier \<open>uuid.New()\<close> returns. The session token of the response
  stands for the principal with the returned collector.\<close>

definition Register :: "service \<Rightarrow> nat \<Rightarrow> uuid \<Rightarrow> principal \<Rightarrow> register_request \<Rightarrow> registration handler" where
  "Register sv now fresh pr q = transaction (\<lambda>p.
     and_then (require
       (rq_name q \<noteq> [] \<and> length (rq_name q) \<le> 256 \<and> rq_version q \<noteq> [] \<and> length (rq_version q) \<le> 256
        \<and> rq_hostname q \<noteq> [] \<and> length (rq_hostname q) \<le> 1024 \<and> rq_os q \<noteq> [] \<and> length (rq_os q) \<le> 256
        \<and> \<not> has_line_or_nul (rq_name q) \<and> \<not> has_line_or_nul (rq_version q)
        \<and> \<not> has_line_or_nul (rq_hostname q) \<and> \<not> has_line_or_nul (rq_os q)) 400 ''malformed_request'') (\<lambda>_.
     and_then (require (rq_collector_id q = None \<or> pr_collector pr = None \<or> rq_collector_id q = pr_collector pr)
       403 ''forbidden'') (\<lambda>_.
     and_then (require (rq_capabilities q \<noteq> [] \<and> sv_capabilities_ok sv (rq_capabilities q)) 400 ''malformed_request'') (\<lambda>_.
     let cid = (case rq_collector_id q of
                  Some c \<Rightarrow> c | None \<Rightarrow> (case pr_collector pr of Some c \<Rightarrow> c | None \<Rightarrow> fresh));
         row = \<lparr>co_project = pr_project pr, co_status = ''online'', co_last_heartbeat = now\<rparr> in
     and_then (case map_of (pf_collectors p) cid of
                 None \<Rightarrow> Inr row
               | Some c \<Rightarrow> and_then (require (co_project c = pr_project pr) 403 ''forbidden'') (\<lambda>_. Inr row)) (\<lambda>row.
     Inr (200, \<lparr>rg_collector_id = cid, rg_config_version = fst (sv_effective_config sv cid),
               rg_config = snd (sv_effective_config sv cid)\<rparr>,
          p\<lparr>pf_collectors := AList.update cid row (pf_collectors p)\<rparr>))))))"

text \<open>The lag is in whole seconds, as the recorder sends it. The last error, the effective and the
  rejected configuration are only copied into descriptive columns.\<close>

record heartbeat_request =
  hb_status :: str
  hb_active_runs :: int
  hb_spool_bytes_used :: int
  hb_acked_lag_seconds :: int
  hb_config_version :: int
  hb_capabilities :: bytes

text \<open>\<open>Heartbeat\<close>: the update is not undone when the configuration cannot be read.\<close>

definition Heartbeat :: "service \<Rightarrow> nat \<Rightarrow> principal \<Rightarrow> uuid \<Rightarrow> heartbeat_request \<Rightarrow> unit handler" where
  "Heartbeat sv now pr cid q = (\<lambda>p.
     if pr_collector pr \<noteq> Some cid then ((Refused 403 ''forbidden'', p), [])
     else if \<not> (hb_status q = ''healthy'' \<or> hb_status q = ''degraded'' \<or> hb_status q = ''error'')
       \<or> hb_active_runs q < 0 \<or> hb_spool_bytes_used q < 0 \<or> hb_acked_lag_seconds q < 0 \<or> hb_config_version q < 0
     then ((Refused 400 ''malformed_request'', p), [])
     else if hb_capabilities q \<noteq> [] \<and> \<not> sv_capabilities_ok sv (hb_capabilities q)
     then ((Refused 400 ''malformed_request'', p), [])
     else
       (case map_of (pf_collectors p) cid of
          None \<Rightarrow> ((Refused 500 ''internal'', p), [])
        | Some c \<Rightarrow>
            let p' = p\<lparr>pf_collectors := AList.update cid (c\<lparr>co_status := ''online'', co_last_heartbeat := now\<rparr>)
                         (pf_collectors p)\<rparr> in
            ((if co_project c = pr_project pr then Accepted 200 () else Refused 500 ''internal'', p'), [p'])))"

section \<open>Recordings\<close>

record run_metadata =
  rm_command :: str
  rm_cwd :: str
  rm_agent_kind :: str
  rm_agent_version :: str
  rm_metadata :: bytes

record create_request =
  cq_recording_id :: str
  cq_capture_run_id :: str
  cq_segment_no :: nat
  cq_sequence_base :: nat
  cq_schema_version :: nat
  cq_run :: "run_metadata option"

definition has_nul :: "str \<Rightarrow> bool" where "has_nul s \<longleftrightarrow> CHR 0x00 \<in> set s"

definition valid_create_identity :: "create_request \<Rightarrow> bool" where
  "valid_create_identity q \<longleftrightarrow>
     cq_recording_id q \<noteq> [] \<and> cq_capture_run_id q \<noteq> []
     \<and> length (cq_recording_id q) \<le> 240 \<and> \<not> has_line_or_nul (cq_recording_id q)
     \<and> length (cq_capture_run_id q) \<le> 256 \<and> \<not> has_line_or_nul (cq_capture_run_id q)
     \<and> cq_segment_no q < 10000 \<and> \<not> (cq_segment_no q = 0 \<and> cq_sequence_base q \<noteq> 0)"

text \<open>\<open>is_object\<close> tells whether the metadata bytes are a JSON object.\<close>

definition valid_run_metadata :: "(bytes \<Rightarrow> bool) \<Rightarrow> run_metadata \<Rightarrow> bool" where
  "valid_run_metadata is_object m \<longleftrightarrow>
     length (rm_command m) \<le> 64 * 1024 \<and> length (rm_cwd m) \<le> 16 * 1024
     \<and> length (rm_agent_kind m) \<le> 1024 \<and> length (rm_agent_version m) \<le> 1024
     \<and> \<not> has_nul (rm_command m) \<and> \<not> has_nul (rm_cwd m) \<and> \<not> has_nul (rm_agent_kind m)
     \<and> \<not> has_nul (rm_agent_version m)
     \<and> (rm_metadata m = [] \<or> length (rm_metadata m) \<le> 256 * 1024 \<and> is_object (rm_metadata m))"

text \<open>The row of the capture run: inserted, or checked for its owner, its state and its collector.
  The flag tells that a run without collector is to be claimed.\<close>

definition upsert_capture_run :: "principal \<Rightarrow> str \<Rightarrow> platform \<Rightarrow> api_error + capture_run \<times> bool" where
  "upsert_capture_run pr rid p =
     (case map_of (pf_runs p) rid of
        None \<Rightarrow> Inr (\<lparr>cr_project = pr_project pr, cr_collector = pr_collector pr, cr_state = ''active'',
                     cr_ended_at = None\<rparr>, False)
      | Some r \<Rightarrow>
          and_then (require (cr_project r = pr_project pr) 403 ''forbidden'') (\<lambda>_.
          and_then (require (cr_state r = ''active'') 410 ''capture_run_deleted'') (\<lambda>_.
          and_then (require (cr_collector r = None \<or> pr_collector pr = None \<or> cr_collector r = pr_collector pr)
            409 ''capture_run_conflict'') (\<lambda>_.
          Inr (r, cr_collector r = None \<and> pr_collector pr \<noteq> None)))))"

definition find_segment :: "platform \<Rightarrow> str \<Rightarrow> nat \<Rightarrow> recording option" where
  "find_segment p rid segment =
     map_option snd (find (\<lambda>(_, r). rc_run r = rid \<and> rc_segment_no r = segment) (pf_recordings p))"

text \<open>The insertion of a recording that does not exist; the pair of run and segment is unique.\<close>

definition insert_recording :: "nat \<Rightarrow> principal \<Rightarrow> create_request \<Rightarrow> capture_run \<Rightarrow> platform \<Rightarrow> api_error + platform" where
  "insert_recording now pr q run p =
     and_then (require (cr_ended_at run = None) 409 ''capture_run_finalized'') (\<lambda>_.
     and_then
       (if cq_segment_no q > 0 then
          (case find (\<lambda>(_, r). rc_project r = pr_project pr \<and> rc_run r = cq_capture_run_id q
                              \<and> rc_segment_no r = cq_segment_no q - 1) (pf_recordings p) of
             None \<Rightarrow> Inl (409, ''segment_predecessor_missing'')
           | Some (_, predecessor) \<Rightarrow>
               require (rc_state predecessor = ''sealed'' \<and> rc_final_seq predecessor = Some (cq_sequence_base q))
                 409 ''segment_sequence_conflict'')
        else Inr ()) (\<lambda>_.
     and_then (require (find_segment p (cq_capture_run_id q) (cq_segment_no q) = None) 409 ''recording_conflict'') (\<lambda>_.
     Inr (p\<lparr>pf_recordings := AList.update (cq_recording_id q)
              \<lparr>rc_project = pr_project pr, rc_run = cq_capture_run_id q, rc_segment_no = cq_segment_no q,
               rc_sequence_base = cq_sequence_base q, rc_schema_version = 1, rc_origin = ''upload'',
               rc_durable_seq = cq_sequence_base q, rc_state = ''open'', rc_final_seq = None, rc_manifest = None,
               rc_manifest_sha256 = None, rc_missing_blobs = [], rc_integrity_alerts = [], rc_updated_at = now\<rparr>
              (pf_recordings p)\<rparr>))))"

text \<open>The recording of the request exists afterwards, with the same identity.\<close>

definition ensure_recording :: "nat \<Rightarrow> principal \<Rightarrow> create_request \<Rightarrow> capture_run \<Rightarrow> platform \<Rightarrow> api_error + platform" where
  "ensure_recording now pr q run p =
     (case map_of (pf_recordings p) (cq_recording_id q) of
        None \<Rightarrow> insert_recording now pr q run p
      | Some r \<Rightarrow>
          and_then (require (rc_project r = pr_project pr) 403 ''forbidden'') (\<lambda>_.
          and_then (require (rc_run r = cq_capture_run_id q \<and> rc_segment_no r = cq_segment_no q
                             \<and> rc_sequence_base r = cq_sequence_base q \<and> rc_schema_version r = 1)
            409 ''recording_conflict'') (\<lambda>_. Inr p)))"

definition claim_run :: "principal \<Rightarrow> str \<Rightarrow> capture_run \<Rightarrow> platform \<Rightarrow> api_error + platform" where
  "claim_run pr rid run p =
     and_then (require (\<not> list_ex (\<lambda>(_, r). rc_run r = rid \<and> rc_origin r \<noteq> ''upload'') (pf_recordings p))
       409 ''capture_run_conflict'') (\<lambda>_.
     Inr (p\<lparr>pf_runs := AList.update rid (run\<lparr>cr_collector := pr_collector pr\<rparr>) (pf_runs p)\<rparr>))"

definition CreateRecording :: "(bytes \<Rightarrow> bool) \<Rightarrow> nat \<Rightarrow> principal \<Rightarrow> create_request \<Rightarrow> unit handler" where
  "CreateRecording is_object now pr q = transaction (\<lambda>p.
     and_then (require (valid_create_identity q) 400 ''malformed_request'') (\<lambda>_.
     and_then (require (cq_schema_version q = 0 \<or> cq_schema_version q = 1) 415 ''unsupported_schema'') (\<lambda>_.
     and_then (require (case cq_run q of None \<Rightarrow> True | Some m \<Rightarrow> valid_run_metadata is_object m)
       400 ''malformed_request'') (\<lambda>_.
     and_then (upsert_capture_run pr (cq_capture_run_id q) p) (\<lambda>(run, claim_collector).
     and_then (ensure_recording now pr q run
                 (p\<lparr>pf_runs := AList.update (cq_capture_run_id q) run (pf_runs p)\<rparr>)) (\<lambda>p'.
     and_then (if claim_collector then claim_run pr (cq_capture_run_id q) run p' else Inr p') (\<lambda>p''.
     Inr (201, (), p''))))))))"

text \<open>\<open>GetRecording\<close> for a collector principal: the recordings of its own runs.\<close>

definition GetRecording :: "principal \<Rightarrow> str \<Rightarrow> remote_recording handler" where
  "GetRecording pr rec = transaction (\<lambda>p.
     (case map_of (pf_recordings p) rec of
        None \<Rightarrow> Inl (404, ''not_found'')
      | Some r \<Rightarrow>
          (case map_of (pf_runs p) (rc_run r) of
             None \<Rightarrow> Inl (404, ''not_found'')
           | Some run \<Rightarrow>
               and_then (require (rc_project r = pr_project pr \<and> cr_collector run = pr_collector pr) 404 ''not_found'') (\<lambda>_.
               Inr (200, \<lparr>rr_state = rc_state r, rr_segment_no = rc_segment_no r, rr_sequence_base = rc_sequence_base r,
                          rr_durable_seq = rc_durable_seq r, rr_final_seq = rc_final_seq r\<rparr>, p)))))"

section \<open>Batches on the wire\<close>

definition MaxBatchBytes :: nat where "MaxBatchBytes = 16 * 2 ^ 20"
definition MaxBatchHeaderBytes :: nat where "MaxBatchHeaderBytes = 2 ^ 20"
definition MaxBatchDecodedBytes :: nat where "MaxBatchDecodedBytes = 64 * 2 ^ 20"
definition MaxEventBytes :: nat where "MaxEventBytes = 16 * 2 ^ 20"
definition MaxBatchEvents :: nat where "MaxBatchEvents = 10000"
definition MaxBatchBlobRefs :: nat where "MaxBatchBlobRefs = 10000"

text \<open>A \<open>DecodeError\<close> is its code.\<close>

definition ValidateHeaderRange :: "batch_header \<Rightarrow> str + unit" where
  "ValidateHeaderRange h =
     and_then (ensure (bh_recording_id h \<noteq> [] \<and> length (bh_recording_id h) \<le> 240
                       \<and> bh_batch_id h \<noteq> [] \<and> length (bh_batch_id h) \<le> 512) ''malformed_batch'') (\<lambda>_.
     and_then (ensure (0 < bh_event_count h \<and> bh_event_count h \<le> MaxBatchEvents) ''payload_too_large'') (\<lambda>_.
     and_then (ensure (length (bh_blobs h) \<le> MaxBatchBlobRefs) ''payload_too_large'') (\<lambda>_.
     and_then (ensure (0 < bh_byte_length h \<and> bh_byte_length h \<le> MaxBatchDecodedBytes) ''payload_too_large'') (\<lambda>_.
     and_then (ensure (bh_first_seq h \<le> bh_last_seq h) ''malformed_batch'') (\<lambda>_.
     and_then (ensure (bh_event_count h = bh_last_seq h - bh_first_seq h + 1) ''malformed_batch'') (\<lambda>_.
     ensure (bh_batch_id h = batch_id (bh_recording_id h) (bh_first_seq h) (bh_last_seq h)) ''malformed_batch''))))))"

definition decodeBatchHeader :: "('x) upload_codecs_scheme \<Rightarrow> bytes \<Rightarrow> str + batch_header" where
  "decodeBatchHeader L line =
     and_then (ok_or (header_unmarshal L line) ''malformed_batch'') (\<lambda>h.
     and_then (ValidateHeaderRange h) (\<lambda>_. Inr h))"

text \<open>\<open>ReadBatchBody\<close>: the header, the compressed payload and its expansion. \<open>ReadBytes\<close> fails when
  the input ends before a line break.\<close>

definition ReadBatchBody :: "('x) upload_codecs_scheme \<Rightarrow> bytes \<Rightarrow> str + batch_header \<times> bytes \<times> bytes" where
  "ReadBatchBody L body =
     (let limited = take (MaxBatchBytes + 1) body;
          line = takeWhile (\<lambda>c. c \<noteq> newline) limited;
          rest = dropWhile (\<lambda>c. c \<noteq> newline) limited in
      and_then (ensure (rest \<noteq> [])
        (if length line > MaxBatchHeaderBytes then ''payload_too_large'' else ''malformed_batch'')) (\<lambda>_.
      let line = line @ [newline]; compressed = tl rest in
      and_then (ensure (length line \<le> MaxBatchHeaderBytes) ''payload_too_large'') (\<lambda>_.
      and_then (decodeBatchHeader L line) (\<lambda>h.
      and_then (ensure (length line + length compressed \<le> MaxBatchBytes) ''payload_too_large'') (\<lambda>_.
      and_then
        (if bh_encoding h = ''ndjson+zstd'' then ok_or (zstd_decode_all L compressed (bh_byte_length h)) ''payload_too_large''
         else if bh_encoding h = ''ndjson'' then Inr compressed
         else Inl ''malformed_batch'') (\<lambda>expanded.
      and_then (ensure (length expanded = bh_byte_length h) ''malformed_batch'') (\<lambda>_.
      and_then (ensure (hex_encode L (sha256 L expanded) = bh_sha256 h) ''hash_mismatch'') (\<lambda>_.
      Inr (h, compressed, expanded)))))))))"

text \<open>\<open>bufio.ScanLines\<close>: lines without their break and a carriage return before it; the last line
  needs no break. The scanner's buffer bounds a line with what it holds of the break.\<close>

fun scan_lines :: "bytes \<Rightarrow> bytes \<Rightarrow> bytes list" where
  "scan_lines acc [] = (if acc = [] then [] else [rev acc])"
| "scan_lines acc (c # cs) = (if c = newline then rev acc # scan_lines [] cs else scan_lines (c # acc) cs)"

definition drop_carriage_return :: "bytes \<Rightarrow> bytes" where
  "drop_carriage_return line = (if line \<noteq> [] \<and> last line = carriage_return then butlast line else line)"

text \<open>\<open>bytes.TrimSpace\<close> leaves nothing: the line consists of Unicode white space in UTF-8.\<close>

fun all_space :: "bytes \<Rightarrow> bool" where
  "all_space [] = True"
| "all_space (c # cs) =
     (if in_byte_range 9 13 c \<or> c = CHR 0x20 then all_space cs
      else
        (case cs of
           [] \<Rightarrow> False
         | d # ds \<Rightarrow>
             if c = CHR 0xC2 \<and> (d = CHR 0x85 \<or> d = CHR 0xA0) then all_space ds
             else
               (case ds of
                  [] \<Rightarrow> False
                | f # fs \<Rightarrow>
                    (c = CHR 0xE1 \<and> d = CHR 0x9A \<and> f = CHR 0x80
                     \<or> c = CHR 0xE2 \<and> d = CHR 0x80
                        \<and> (in_byte_range 128 138 f \<or> f = CHR 0xA8 \<or> f = CHR 0xA9 \<or> f = CHR 0xAF)
                     \<or> c = CHR 0xE2 \<and> d = CHR 0x81 \<and> f = CHR 0x9F
                     \<or> c = CHR 0xE3 \<and> d = CHR 0x80 \<and> f = CHR 0x80) \<and> all_space fs)))"

text \<open>The loop of \<open>ParseEvents\<close> with the number of events and the expected sequence.\<close>

fun parse_event_lines :: "('x) upload_codecs_scheme \<Rightarrow> nat \<Rightarrow> nat \<Rightarrow> bytes list \<Rightarrow> str + nat \<times> nat" where
  "parse_event_lines L count expect [] = Inr (count, expect)"
| "parse_event_lines L count expect (scanned # ls) =
     (let line = drop_carriage_return scanned in
      if length scanned > MaxEventBytes then Inl ''payload_too_large''
      else if all_space line then parse_event_lines L count expect ls
      else
        and_then (ensure (count < MaxBatchEvents) ''payload_too_large'') (\<lambda>_.
        and_then (ok_or (event_line_sequence L line) ''malformed_batch'') (\<lambda>n.
        and_then (ensure (n = expect) ''seq_discontinuity'') (\<lambda>_.
        parse_event_lines L (count + 1) (expect + 1) ls))))"

definition ParseEvents :: "('x) upload_codecs_scheme \<Rightarrow> batch_header \<Rightarrow> bytes \<Rightarrow> str + unit" where
  "ParseEvents L h expanded =
     and_then (ensure (length expanded \<le> MaxBatchDecodedBytes) ''payload_too_large'') (\<lambda>_.
     and_then (parse_event_lines L 0 (bh_first_seq h) (scan_lines [] expanded)) (\<lambda>(count, expect).
     ensure (count = bh_event_count h \<and> expect - 1 = bh_last_seq h) ''malformed_batch''))"

definition WriteBatchBody :: "('x) upload_codecs_scheme \<Rightarrow> batch_header \<Rightarrow> bytes \<Rightarrow> bytes" where
  "WriteBatchBody L h compressed = header_marshal L h @ [newline] @ compressed"

definition mapDecodeErr :: "str \<Rightarrow> api_error" where
  "mapDecodeErr code = (if code = ''payload_too_large'' then 413 else 400, code)"

section \<open>Registration of a batch\<close>

definition batch_object_key :: "service \<Rightarrow> principal \<Rightarrow> batch_header \<Rightarrow> str" where
  "batch_object_key sv pr h =
     RecordingPrefix (sv_uuid_text sv) (pr_tenant pr) (pr_project pr) (bh_recording_id h)
     @ BatchObjectKey (bh_first_seq h) (bh_last_seq h)"

text \<open>An object that cannot be read is an internal error, one with other evidence a conflict.\<close>

definition verifyBatchObject :: "('x) upload_codecs_scheme \<Rightarrow> platform \<Rightarrow> str \<Rightarrow> batch_header \<Rightarrow> api_error + unit" where
  "verifyBatchObject L p key offered =
     (case map_of (pf_objects p) key of
        None \<Rightarrow> Inl (500, ''internal'')
      | Some contents \<Rightarrow>
          (case ReadBatchBody L contents of
             Inl _ \<Rightarrow> Inl (500, ''internal'')
           | Inr (stored, _, _) \<Rightarrow>
               require (bh_batch_id stored = bh_batch_id offered \<and> bh_recording_id stored = bh_recording_id offered
                 \<and> bh_first_seq stored = bh_first_seq offered \<and> bh_last_seq stored = bh_last_seq offered
                 \<and> bh_sha256 stored = bh_sha256 offered) 409 ''object_conflict''))"

text \<open>The reference of a recording to a blob, with the count of references the blob row keeps.\<close>

definition count_refs :: "(str \<times> uuid \<times> bytes) list \<Rightarrow> uuid \<Rightarrow> bytes \<Rightarrow> nat" where
  "count_refs refs project digest = length (filter (\<lambda>(_, owner, d). owner = project \<and> d = digest) refs)"

definition add_ref :: "str \<Rightarrow> uuid \<Rightarrow> bytes \<Rightarrow> platform \<Rightarrow> platform" where
  "add_ref rec project digest p =
     (let refs = (if list_ex (\<lambda>(r, _, d). r = rec \<and> d = digest) (pf_refs p) then pf_refs p
                  else pf_refs p @ [(rec, project, digest)]) in
      p\<lparr>pf_refs := refs,
        pf_blobs := map (\<lambda>((owner, d), b). ((owner, d), if owner = project \<and> d = digest
                                                then b\<lparr>bl_ref_count := count_refs refs project digest\<rparr> else b))
          (pf_blobs p)\<rparr>)"

fun registerBlobRefs :: "('x) crates_scheme \<Rightarrow> str \<Rightarrow> uuid \<Rightarrow> str list \<Rightarrow> str list \<Rightarrow> platform \<Rightarrow> api_error + platform" where
  "registerBlobRefs L rec project seen [] p = Inr p"
| "registerBlobRefs L rec project seen (sha # shas) p =
     (if sha \<in> set seen then registerBlobRefs L rec project seen shas p
      else
        (case hex_decode L sha of
           None \<Rightarrow> Inl (400, ''malformed_batch'')
         | Some digest \<Rightarrow>
             and_then (require (length digest = 32) 400 ''malformed_batch'') (\<lambda>_.
             registerBlobRefs L rec project (sha # seen) shas (add_ref rec project digest p))))"

text \<open>The loop that advances the durable sequence over contiguous batches.\<close>

fun advance_durable :: "nat \<Rightarrow> str \<Rightarrow> batch_row list \<Rightarrow> nat \<Rightarrow> nat" where
  "advance_durable 0 rec rows durable = durable"
| "advance_durable (Suc i) rec rows durable =
     (case find (\<lambda>r. br_recording r = rec \<and> br_first_seq r = durable + 1) rows of
        None \<Rightarrow> durable
      | Some r \<Rightarrow> advance_durable i rec rows (br_last_seq r))"

definition missing_blobs :: "('x) crates_scheme \<Rightarrow> platform \<Rightarrow> uuid \<Rightarrow> batch_header \<Rightarrow> str list" where
  "missing_blobs L p project h =
     filter (\<lambda>sha. case hex_decode L sha of
                     None \<Rightarrow> False
                   | Some digest \<Rightarrow> (case map_of (pf_blobs p) (project, digest) of
                                      Some b \<Rightarrow> bl_state b \<noteq> ''active'' | None \<Rightarrow> True))
       (map fst (bh_blobs h))"

text \<open>What the transaction of \<open>UploadBatch\<close> does after its checks of the recording: the object is
  published, then the batch recorded. The first result is the state after the object write.\<close>

definition record_duplicate ::
  "('x) upload_codecs_scheme \<Rightarrow> batch_header \<Rightarrow> str \<Rightarrow> recording \<Rightarrow> platform \<Rightarrow> api_error + nat \<times> batch_ack \<times> platform" where
  "record_duplicate L h key r stored =
     and_then (verifyBatchObject L stored key h) (\<lambda>_.
     and_then (registerBlobRefs L (bh_recording_id h) (rc_project r) [] (map fst (bh_blobs h)) stored) (\<lambda>p.
     Inr (200, \<lparr>ba_recording_id = bh_recording_id h, ba_durable_seq = rc_durable_seq r, ba_state = rc_state r,
               ba_missing_blobs = []\<rparr>, p)))"

definition record_new_batch ::
  "('x) upload_codecs_scheme \<Rightarrow> nat \<Rightarrow> batch_header \<Rightarrow> str \<Rightarrow> bytes \<Rightarrow> recording \<Rightarrow> platform
   \<Rightarrow> api_error + nat \<times> batch_ack \<times> platform" where
  "record_new_batch L now h key digest r stored =
     and_then (verifyBatchObject L stored key h) (\<lambda>_.
     let rec = bh_recording_id h;
         row = \<lparr>br_recording = rec, br_batch_id = bh_batch_id h, br_first_seq = bh_first_seq h,
                br_last_seq = bh_last_seq h, br_event_count = bh_event_count h, br_byte_length = bh_byte_length h,
                br_sha256 = digest, br_object_key = key\<rparr> in
     and_then (registerBlobRefs L rec (rc_project r) [] (map fst (bh_blobs h))
                 (stored\<lparr>pf_batches := pf_batches stored @ [row]\<rparr>)) (\<lambda>p.
     let durable = advance_durable 100000 rec (pf_batches p) (rc_durable_seq r);
         missing = missing_blobs L p (rc_project r) h;
         r' = r\<lparr>rc_durable_seq := durable, rc_updated_at := now,
                rc_missing_blobs := (if missing = [] then rc_missing_blobs r else remdups (rc_missing_blobs r @ missing))\<rparr> in
     Inr (200, \<lparr>ba_recording_id = rec, ba_durable_seq = durable, ba_state = rc_state r, ba_missing_blobs = missing\<rparr>,
          p\<lparr>pf_recordings := AList.update rec r' (pf_recordings p)\<rparr>)))"

text \<open>A transaction over a published object: an error, like a failure before the commit, leaves
  the object behind.\<close>

definition after_object :: "platform \<Rightarrow> (platform \<Rightarrow> api_error + nat \<times> 'r \<times> platform)
   \<Rightarrow> ('r response \<times> platform) \<times> platform list" where
  "after_object stored f =
     (case f stored of
        Inl (status, code) \<Rightarrow> ((Refused status code, stored), [stored])
      | Inr (status, r, p') \<Rightarrow> ((Accepted status r, p'), [stored]))"

definition register_batch ::
  "('x) upload_codecs_scheme \<Rightarrow> service \<Rightarrow> nat \<Rightarrow> principal \<Rightarrow> batch_header \<Rightarrow> bytes \<Rightarrow> recording \<Rightarrow> batch_ack handler" where
  "register_batch L sv now pr h compressed r = (\<lambda>p.
     let rec = bh_recording_id h;
         digest = (case hex_decode L (bh_sha256 h) of None \<Rightarrow> [] | Some d \<Rightarrow> d);
         key = batch_object_key sv pr h;
         stored = put_object key (WriteBatchBody L h compressed) p in
     (case find (\<lambda>b. br_recording b = rec \<and> br_batch_id b = bh_batch_id h) (pf_batches p) of
        Some existing \<Rightarrow>
          if br_sha256 existing = digest then after_object stored (record_duplicate L h key r)
          else ((Refused 409 ''batch_conflict'',
                 p\<lparr>pf_recordings := AList.update rec
                      (r\<lparr>rc_integrity_alerts := rc_integrity_alerts r @ [''batch_conflict'']\<rparr>) (pf_recordings p)\<rparr>), [])
      | None \<Rightarrow>
          if list_ex (\<lambda>b. br_recording b = rec \<and> br_first_seq b \<le> bh_last_seq h
                         \<and> br_last_seq b \<ge> bh_first_seq h) (pf_batches p)
          then ((Refused 409 ''batch_overlap'', p), [])
          else
            (case checkProjectStorage (sv_max_project_storage_bytes sv) p (rc_project r) (bh_byte_length h) of
               Inl (status, code) \<Rightarrow> ((Refused status code, p), [])
             | Inr _ \<Rightarrow> after_object stored (record_new_batch L now h key digest r))))"

text \<open>The checks of \<open>UploadBatch\<close> before the object is written. The recording is read again under its lock
  with the same checks; a request is a step, so the second reading finds the same row.\<close>

definition admit_batch ::
  "('x) upload_codecs_scheme \<Rightarrow> principal \<Rightarrow> str \<Rightarrow> bytes \<Rightarrow> platform \<Rightarrow> api_error + batch_header \<times> bytes \<times> recording" where
  "admit_batch L pr rec body p =
     and_then (map_err mapDecodeErr (ReadBatchBody L body)) (\<lambda>(h, compressed, expanded).
     and_then (require (bh_recording_id h = rec) 400 ''malformed_batch'') (\<lambda>_.
     and_then (map_err mapDecodeErr (ValidateHeaderRange h)) (\<lambda>_.
     and_then (map_err mapDecodeErr (ParseEvents L h expanded)) (\<lambda>_.
     and_then (ok_or (map_of (pf_recordings p) rec) (404, ''recording_not_found'')) (\<lambda>r.
     and_then (require (rc_project r = pr_project pr) 403 ''forbidden'') (\<lambda>_.
     and_then (require (rc_state r = ''open'' \<or> rc_state r = ''sealed'') 409 ''recording_sealed'') (\<lambda>_.
     and_then (require (bh_first_seq h > rc_sequence_base r) 400 ''malformed_batch'') (\<lambda>_.
     and_then (require (\<not> (rc_state r = ''sealed''
         \<and> (case rc_final_seq r of None \<Rightarrow> True | Some final \<Rightarrow> bh_last_seq h > final))) 409 ''final_seq_conflict'') (\<lambda>_.
     Inr (h, compressed, r))))))))))"

definition UploadBatch ::
  "('x) upload_codecs_scheme \<Rightarrow> service \<Rightarrow> nat \<Rightarrow> principal \<Rightarrow> str \<Rightarrow> bytes \<Rightarrow> batch_ack handler" where
  "UploadBatch L sv now pr rec body = (\<lambda>p.
     (case admit_batch L pr rec body p of
        Inl (status, code) \<Rightarrow> ((Refused status code, p), [])
      | Inr (h, compressed, r) \<Rightarrow> register_batch L sv now pr h compressed r p))"

section \<open>Blobs\<close>

definition MaxBlobBytes :: nat where "MaxBlobBytes = 256 * 2 ^ 20"

definition BlobExists :: "('x) crates_scheme \<Rightarrow> principal \<Rightarrow> str \<Rightarrow> nat handler" where
  "BlobExists L pr sha = transaction (\<lambda>p.
     and_then (ok_or (hex_decode L sha) (400, ''malformed_request'')) (\<lambda>digest.
     (case map_of (pf_blobs p) (pr_project pr, digest) of
        Some b \<Rightarrow> if bl_state b = ''active'' then Inr (200, bl_size b, p) else Inl (404, ''not_found'')
      | None \<Rightarrow> Inl (404, ''not_found''))))"

definition verifyBlobObject :: "('x) crates_scheme \<Rightarrow> platform \<Rightarrow> str \<Rightarrow> str \<Rightarrow> nat \<Rightarrow> api_error + unit" where
  "verifyBlobObject L p key sha n =
     (case map_of (pf_objects p) key of
        None \<Rightarrow> Inl (500, ''internal'')
      | Some contents \<Rightarrow>
          let read = take (MaxBlobBytes + 1) contents in
          require (length read = n \<and> hex_encode L (sha256 L read) = sha) 409 ''object_conflict'')"

text \<open>The first transaction of \<open>PutBlob\<close>: the intent, and whether it is to be activated.\<close>

definition blob_intent :: "nat \<Rightarrow> uuid \<Rightarrow> bytes \<Rightarrow> str \<Rightarrow> nat \<Rightarrow> platform \<Rightarrow> api_error + bool \<times> platform" where
  "blob_intent max_bytes project digest key n p =
     (case map_of (pf_blobs p) (project, digest) of
        Some b \<Rightarrow>
          and_then (require (bl_state b \<noteq> ''deleting'') 503 ''blob_deleting'') (\<lambda>_.
          and_then (require (bl_state b = ''active'' \<or> bl_state b = ''uploading'') 500 ''internal'') (\<lambda>_.
          and_then (require (bl_size b = n) 409 ''blob_conflict'') (\<lambda>_.
          Inr (bl_state b = ''uploading'', p))))
      | None \<Rightarrow>
          and_then (checkProjectStorage max_bytes p project n) (\<lambda>_.
          Inr (True, p\<lparr>pf_blobs := AList.update (project, digest)
                        \<lparr>bl_size = n, bl_object_key = key, bl_ref_count = count_refs (pf_refs p) project digest,
                         bl_state = ''uploading''\<rparr> (pf_blobs p)\<rparr>)))"

text \<open>The last transaction: the blob becomes active and is no longer missing anywhere.\<close>

definition activate_blob :: "uuid \<Rightarrow> bytes \<Rightarrow> str \<Rightarrow> platform \<Rightarrow> platform" where
  "activate_blob project digest sha p =
     p\<lparr>pf_blobs := map (\<lambda>((owner, d), b). ((owner, d), if owner = project \<and> d = digest \<and> bl_state b = ''uploading''
                                                       then b\<lparr>bl_state := ''active''\<rparr> else b)) (pf_blobs p),
       pf_recordings := map (\<lambda>(rec, r). (rec, if rc_project r = project
                                          then r\<lparr>rc_missing_blobs := filter (\<lambda>m. m \<noteq> sha) (rc_missing_blobs r)\<rparr> else r))
         (pf_recordings p)\<rparr>"

definition PutBlob :: "('x) crates_scheme \<Rightarrow> service \<Rightarrow> principal \<Rightarrow> str \<Rightarrow> bytes \<Rightarrow> bool handler" where
  "PutBlob L sv pr sha body = (\<lambda>p.
     let key = BlobKey (sv_uuid_text sv) (pr_tenant pr) (pr_project pr) sha in
     (case
        and_then (require (length sha = 64) 400 ''malformed_request'') (\<lambda>_.
        and_then (ok_or (hex_decode L sha) (400, ''malformed_request'')) (\<lambda>digest.
        and_then (require (length body \<le> MaxBlobBytes) 413 ''payload_too_large'') (\<lambda>_.
        and_then (require (hex_encode L (sha256 L body) = sha) 422 ''hash_mismatch'') (\<lambda>_.
        and_then (blob_intent (sv_max_project_storage_bytes sv) (pr_project pr) digest key (length body) p) (\<lambda>(created, p).
        Inr (digest, created, p)))))) of
        Inl (status, code) \<Rightarrow> ((Refused status code, p), [])
      | Inr (digest, created, intent) \<Rightarrow>
          let stored = put_object key body intent in
          (case verifyBlobObject L stored key sha (length body) of
             Inl (status, code) \<Rightarrow> ((Refused status code, stored), [intent, stored])
           | Inr _ \<Rightarrow>
               ((Accepted (if created then 201 else 200) created,
                 if created then activate_blob (pr_project pr) digest sha stored else stored), [intent, stored]))))"

section \<open>Sealing\<close>

record seal_request =
  sq_final_seq :: nat
  sq_manifest :: bytes
  sq_manifest_sha256 :: str
  sq_run_final :: "bool option"

text \<open>The digest of the manifest, \<open>None\<close> without one; a declared digest must be that of the bytes.\<close>

definition manifest_digest :: "('x) crates_scheme \<Rightarrow> seal_request \<Rightarrow> api_error + bytes option" where
  "manifest_digest L q =
     (if sq_manifest q \<noteq> [] then
        let digest = sha256 L (sq_manifest q) in
        if sq_manifest_sha256 q \<noteq> [] then
          and_then (require (length (sq_manifest_sha256 q) = 64
                             \<and> list_all (\<lambda>c. \<not> in_byte_range 65 90 c) (sq_manifest_sha256 q)) 400 ''malformed_request'') (\<lambda>_.
          and_then (require (hex_decode L (sq_manifest_sha256 q) = Some digest) 422 ''hash_mismatch'') (\<lambda>_.
          Inr (Some digest)))
        else Inr (Some digest)
      else and_then (require (sq_manifest_sha256 q = []) 400 ''malformed_request'') (\<lambda>_. Inr None))"

definition end_run :: "nat \<Rightarrow> str \<Rightarrow> platform \<Rightarrow> platform" where
  "end_run now rid p =
     (case map_of (pf_runs p) rid of
        None \<Rightarrow> p
      | Some run \<Rightarrow>
          if cr_ended_at run = None then p\<lparr>pf_runs := AList.update rid (run\<lparr>cr_ended_at := Some now\<rparr>) (pf_runs p)\<rparr>
          else p)"

text \<open>The row of a recording that is sealed again or for the first time.\<close>

definition seal_row :: "nat \<Rightarrow> seal_request \<Rightarrow> bytes option \<Rightarrow> recording \<Rightarrow> api_error + recording" where
  "seal_row now q digest r =
     (if rc_state r = ''sealed'' then
        and_then (require (rc_final_seq r = Some (sq_final_seq q)) 409 ''final_seq_conflict'') (\<lambda>_.
        and_then (require (rc_manifest_sha256 r = None \<or> digest = None \<or> rc_manifest_sha256 r = digest)
          409 ''manifest_conflict'') (\<lambda>_.
        Inr (if rc_manifest_sha256 r = None \<and> digest \<noteq> None
             then r\<lparr>rc_manifest := Some (sq_manifest q), rc_manifest_sha256 := digest, rc_updated_at := now\<rparr> else r)))
      else
        Inr (r\<lparr>rc_state := ''sealed'', rc_final_seq := Some (sq_final_seq q),
               rc_manifest := (if sq_manifest q = [] then rc_manifest r else Some (sq_manifest q)),
               rc_manifest_sha256 := (if digest = None then rc_manifest_sha256 r else digest),
               rc_updated_at := now\<rparr>))"

definition Seal :: "('x) crates_scheme \<Rightarrow> nat \<Rightarrow> principal \<Rightarrow> str \<Rightarrow> seal_request \<Rightarrow> unit handler" where
  "Seal L now pr rec q = transaction (\<lambda>p.
     let final = sq_final_seq q; run_final = (sq_run_final q = None \<or> sq_run_final q = Some True) in
     and_then (require (final > 0) 400 ''malformed_request'') (\<lambda>_.
     and_then (manifest_digest L q) (\<lambda>digest.
     and_then (ok_or (map_of (pf_recordings p) rec) (404, ''recording_not_found'')) (\<lambda>r.
     and_then (require (rc_project r = pr_project pr) 403 ''forbidden'') (\<lambda>_.
     and_then (require (rc_state r = ''open'' \<or> rc_state r = ''sealed'') 409 ''recording_sealed'') (\<lambda>_.
     and_then (require (final \<ge> rc_durable_seq r \<and> final > rc_sequence_base r) 409 ''final_seq_conflict'') (\<lambda>_.
     and_then (require (\<not> (run_final \<and> list_ex (\<lambda>(_, s). rc_run s = rc_run r \<and> rc_segment_no s > rc_segment_no r)
                                       (pf_recordings p))) 409 ''final_segment_conflict'') (\<lambda>_.
     and_then (seal_row now q digest r) (\<lambda>r'.
     let p' = p\<lparr>pf_recordings := AList.update rec r' (pf_recordings p)\<rparr> in
     Inr (200, (), if run_final then end_run now (rc_run r) p' else p'))))))))))"

section \<open>The sweep\<close>

definition StaleAfter :: nat where "StaleAfter = 90"
definition OfflineAfter :: nat where "OfflineAfter = 600"

text \<open>\<open>SweepStatus\<close>, in seconds: the open recordings that have been idle for long are sealed, without
  a final sequence.\<close>

definition SweepStatus :: "nat \<Rightarrow> nat \<Rightarrow> platform \<Rightarrow> platform" where
  "SweepStatus now auto_seal_after p =
     p\<lparr>pf_collectors := map (\<lambda>(cid, c). (cid,
           if co_status c = ''revoked'' then c
           else c\<lparr>co_status := (if co_last_heartbeat c + OfflineAfter < now then ''offline''
                               else if co_last_heartbeat c + StaleAfter < now then ''stale'' else ''online'')\<rparr>)) (pf_collectors p),
       pf_recordings := map (\<lambda>(rec, r). (rec,
           if rc_state r = ''open'' \<and> rc_updated_at r + auto_seal_after < now
           then r\<lparr>rc_state := ''sealed'', rc_integrity_alerts := rc_integrity_alerts r @ [''auto_sealed_incomplete''],
                  rc_updated_at := now\<rparr> else r)) (pf_recordings p)\<rparr>"

end
