(* ===== verification/Platform_Catalogue.thy ===== *)
theory Platform_Catalogue
  imports Platform_Ingest
begin

text \<open>
  The platform as a state machine: the requests of collectors and the sweep as steps, each handler
  by its effect, and what holds of the catalogue and the object store in every state that
  requests, failures inside them and sweeps can reach. The catalogue names only batches whose
  object holds their payload, batches of a recording do not overlap, and its durable sequence is
  covered by them. A request stays inside its project.
\<close>

section \<open>Requests\<close>

datatype api_request =
  Register_request register_request
| Heartbeat_request uuid heartbeat_request
| Create_request create_request
| Get_request str
| Batch_request str bytes
| Head_request str
| Put_request str bytes
| Seal_request str seal_request

definition outcomes :: "'r handler \<Rightarrow> platform \<Rightarrow> platform list" where
  "outcomes h p = snd (fst (h p)) # snd (h p)"

text \<open>The states a request can leave the platform in, failures inside the handler included.\<close>

definition serve ::
  "('x) upload_codecs_scheme \<Rightarrow> service \<Rightarrow> nat \<Rightarrow> uuid \<Rightarrow> principal \<Rightarrow> api_request \<Rightarrow> platform \<Rightarrow> platform list" where
  "serve L sv now fresh pr rq =
     (case rq of
        Register_request q \<Rightarrow> outcomes (Register sv now fresh pr q)
      | Heartbeat_request cid q \<Rightarrow> outcomes (Heartbeat sv now pr cid q)
      | Create_request q \<Rightarrow> outcomes (CreateRecording (sv_is_object sv) now pr q)
      | Get_request rec \<Rightarrow> outcomes (GetRecording pr rec)
      | Batch_request rec body \<Rightarrow> outcomes (UploadBatch L sv now pr rec body)
      | Head_request sha \<Rightarrow> outcomes (BlobExists L pr sha)
      | Put_request sha body \<Rightarrow> outcomes (PutBlob L sv pr sha body)
      | Seal_request rec q \<Rightarrow> outcomes (Seal L now pr rec q))"

section \<open>Handlers by their effects\<close>

lemma transaction_cases:
  assumes "p' \<in> set (outcomes (transaction f) p)"
  shows "p' = p \<or> (\<exists>status r. f p = Inr (status, r, p'))"
  using assms by (auto simp: outcomes_def transaction_def split: sum.splits prod.splits)

lemma map_of_update [simp]: "map_of (AList.update k v m) = (map_of m)(k \<mapsto> v)"
  by (rule update_conv')

lemma put_object_effect:
  "pf_recordings (put_object k c p) = pf_recordings p" "pf_runs (put_object k c p) = pf_runs p"
  "pf_collectors (put_object k c p) = pf_collectors p" "pf_batches (put_object k c p) = pf_batches p"
  "pf_blobs (put_object k c p) = pf_blobs p" "pf_refs (put_object k c p) = pf_refs p"
  "map_of (pf_objects (put_object k c p)) =
     (map_of (pf_objects p))(k \<mapsto> case map_of (pf_objects p) k of Some d \<Rightarrow> d | None \<Rightarrow> c)"
  by (auto simp: put_object_def split: option.splits)

lemma add_ref_effect [simp]:
  "pf_recordings (add_ref rec pj d p) = pf_recordings p" "pf_runs (add_ref rec pj d p) = pf_runs p"
  "pf_collectors (add_ref rec pj d p) = pf_collectors p" "pf_batches (add_ref rec pj d p) = pf_batches p"
  "pf_objects (add_ref rec pj d p) = pf_objects p"
  by (simp_all add: add_ref_def Let_def)

lemma registerBlobRefs_effect:
  "registerBlobRefs L rec pj seen shas p = Inr p' \<Longrightarrow>
   pf_recordings p' = pf_recordings p \<and> pf_runs p' = pf_runs p \<and> pf_collectors p' = pf_collectors p
   \<and> pf_batches p' = pf_batches p \<and> pf_objects p' = pf_objects p"
proof (induction shas arbitrary: seen p)
  case (Cons sha shas)
  show ?case
  proof (cases "sha \<in> set seen")
    case True
    then show ?thesis using Cons by simp
  next
    case False
    then obtain d where "registerBlobRefs L rec pj (sha # seen) shas (add_ref rec pj d p) = Inr p'"
      using Cons.prems by (auto simp: and_then_eq_Inr split: option.splits)
    from Cons.IH[OF this] show ?thesis by simp
  qed
qed simp

lemma register_effect:
  assumes "p' \<in> set (outcomes (Register sv now fresh pr q) p)"
  shows "p' = p \<or> (\<exists>cid. p' = p\<lparr>pf_collectors := AList.update cid
           \<lparr>co_project = pr_project pr, co_status = ''online'', co_last_heartbeat = now\<rparr> (pf_collectors p)\<rparr>
         \<and> (\<forall>c. map_of (pf_collectors p) cid = Some c \<longrightarrow> co_project c = pr_project pr))"
  using transaction_cases[OF assms[unfolded Register_def]]
  by (fastforce simp: and_then_eq_Inr Let_def split: option.splits)

lemma heartbeat_effect:
  assumes "p' \<in> set (outcomes (Heartbeat sv now pr cid q) p)"
  shows "p' = p \<or> (\<exists>c. pr_collector pr = Some cid \<and> map_of (pf_collectors p) cid = Some c
     \<and> p' = p\<lparr>pf_collectors := AList.update cid (c\<lparr>co_status := ''online'', co_last_heartbeat := now\<rparr>) (pf_collectors p)\<rparr>)"
  using assms by (auto simp: outcomes_def Heartbeat_def Let_def split: if_splits option.splits)

definition new_recording :: "nat \<Rightarrow> principal \<Rightarrow> create_request \<Rightarrow> recording" where
  "new_recording now pr q =
     \<lparr>rc_project = pr_project pr, rc_run = cq_capture_run_id q, rc_segment_no = cq_segment_no q,
      rc_sequence_base = cq_sequence_base q, rc_schema_version = 1, rc_origin = ''upload'',
      rc_durable_seq = cq_sequence_base q, rc_state = ''open'', rc_final_seq = None, rc_manifest = None,
      rc_manifest_sha256 = None, rc_missing_blobs = [], rc_integrity_alerts = [], rc_updated_at = now\<rparr>"

lemma find_SomeD: "find P xs = Some x \<Longrightarrow> x \<in> set xs \<and> P x"
  by (auto simp: find_Some_iff)

lemma find_segment_None:
  "find_segment p rid i = None \<longleftrightarrow> (\<forall>(rec, r)\<in>set (pf_recordings p). \<not> (rc_run r = rid \<and> rc_segment_no r = i))"
  by (auto simp: find_segment_def find_None_iff)

text \<open>The predecessor a segment after the first continues.\<close>

definition continues :: "principal \<Rightarrow> create_request \<Rightarrow> platform \<Rightarrow> bool" where
  "continues pr q p \<longleftrightarrow>
     cq_segment_no q = 0
     \<or> (\<exists>(_, r)\<in>set (pf_recordings p). rc_project r = pr_project pr \<and> rc_run r = cq_capture_run_id q
          \<and> rc_segment_no r = cq_segment_no q - 1 \<and> rc_state r = ''sealed'' \<and> rc_final_seq r = Some (cq_sequence_base q))"

lemma insert_recording_ok:
  "insert_recording now pr q run p = Inr p' \<Longrightarrow>
   p' = p\<lparr>pf_recordings := AList.update (cq_recording_id q) (new_recording now pr q) (pf_recordings p)\<rparr>
   \<and> cr_ended_at run = None \<and> continues pr q p \<and> find_segment p (cq_capture_run_id q) (cq_segment_no q) = None"
  unfolding insert_recording_def continues_def new_recording_def
  by (auto simp: and_then_eq_Inr split: if_splits option.splits dest!: find_SomeD)

lemma create_effect:
  assumes "p' \<in> set (outcomes (CreateRecording is_object now pr q) p)"
  shows "p' = p \<or> (\<exists>run. cr_project run = pr_project pr
     \<and> (\<forall>r. map_of (pf_runs p) (cq_capture_run_id q) = Some r \<longrightarrow> cr_project r = pr_project pr)
     \<and> map_of (pf_runs p') = (map_of (pf_runs p))(cq_capture_run_id q \<mapsto> run)
     \<and> pf_collectors p' = pf_collectors p \<and> pf_batches p' = pf_batches p \<and> pf_blobs p' = pf_blobs p
     \<and> pf_refs p' = pf_refs p \<and> pf_objects p' = pf_objects p
     \<and> (pf_recordings p' = pf_recordings p
        \<or> map_of (pf_recordings p) (cq_recording_id q) = None
          \<and> pf_recordings p' = AList.update (cq_recording_id q) (new_recording now pr q) (pf_recordings p)
          \<and> continues pr q p \<and> find_segment p (cq_capture_run_id q) (cq_segment_no q) = None))"
proof (cases "p' = p")
  case False
  let ?rid = "cq_capture_run_id q"
  define p1 where "p1 run = p\<lparr>pf_runs := AList.update ?rid run (pf_runs p)\<rparr>" for run
  obtain run claim p2 where up: "upsert_capture_run pr ?rid p = Inr (run, claim)"
    and p2: "ensure_recording now pr q run (p1 run) = Inr p2"
    and p': "(if claim then claim_run pr ?rid run p2 else Inr p2) = Inr p'"
    using transaction_cases[OF assms[unfolded CreateRecording_def]] False
    unfolding p1_def by (auto simp: and_then_eq_Inr)
  have run: "cr_project run = pr_project pr"
      "\<forall>r. map_of (pf_runs p) ?rid = Some r \<longrightarrow> cr_project r = pr_project pr"
    using up by (auto simp: upsert_capture_run_def and_then_eq_Inr split: option.splits)
  have claim: "\<exists>run'. cr_project run' = pr_project pr \<and> map_of (pf_runs p') = (map_of (pf_runs p2))(?rid \<mapsto> run')
      \<and> pf_collectors p' = pf_collectors p2 \<and> pf_batches p' = pf_batches p2 \<and> pf_blobs p' = pf_blobs p2
      \<and> pf_refs p' = pf_refs p2 \<and> pf_objects p' = pf_objects p2 \<and> pf_recordings p' = pf_recordings p2" if "map_of (pf_runs p2) ?rid = Some run"
    using p' run that
    by (intro exI[of _ "if claim then run\<lparr>cr_collector := pr_collector pr\<rparr> else run"])
      (auto simp: claim_run_def and_then_eq_Inr fun_upd_idem split: if_splits)
  show ?thesis
  proof (cases "map_of (pf_recordings p) (cq_recording_id q)")
    case None
    then have "insert_recording now pr q run (p1 run) = Inr p2"
      using p2 by (simp add: ensure_recording_def p1_def)
    note i = insert_recording_ok[OF this]
    then have "continues pr q p" "find_segment p ?rid (cq_segment_no q) = None"
      by (simp_all add: continues_def find_segment_def p1_def)
    moreover have "map_of (pf_runs p2) ?rid = Some run" using i by (simp add: p1_def)
    note claim[OF this]
    ultimately show ?thesis using i run None unfolding p1_def by (auto simp del: fun_upd_apply)
  next
    case (Some r)
    then have "p2 = p1 run" using p2 by (auto simp: ensure_recording_def p1_def and_then_eq_Inr)
    moreover from this have "map_of (pf_runs p2) ?rid = Some run" by (simp add: p1_def)
    note claim[OF this]
    ultimately show ?thesis using run unfolding p1_def by (auto simp del: fun_upd_apply)
  qed
qed simp

lemma get_effect: "p' \<in> set (outcomes (GetRecording pr rec) p) \<Longrightarrow> p' = p"
  unfolding GetRecording_def
  by (drule transaction_cases) (auto simp: and_then_eq_Inr split: option.splits)

lemma head_effect: "p' \<in> set (outcomes (BlobExists L pr sha) p) \<Longrightarrow> p' = p"
  unfolding BlobExists_def
  by (drule transaction_cases) (auto simp: and_then_eq_Inr split: option.splits if_splits)

lemma end_run_effect:
  "pf_recordings (end_run now rid p) = pf_recordings p" "pf_batches (end_run now rid p) = pf_batches p"
  "pf_collectors (end_run now rid p) = pf_collectors p" "pf_blobs (end_run now rid p) = pf_blobs p"
  "pf_refs (end_run now rid p) = pf_refs p" "pf_objects (end_run now rid p) = pf_objects p"
  by (auto simp: end_run_def split: option.splits)

lemma end_run_runs:
  "map_of (pf_runs (end_run now rid p)) k = map_of (pf_runs p) k
   \<or> k = rid \<and> (\<exists>run. map_of (pf_runs p) k = Some run
       \<and> map_of (pf_runs (end_run now rid p)) k = Some (run\<lparr>cr_ended_at := Some now\<rparr>))"
proof (cases "map_of (pf_runs p) rid")
  case (Some run)
  then show ?thesis by (cases "cr_ended_at run = None") (auto simp: end_run_def)
qed (simp add: end_run_def)

lemma seal_row_ok:
  assumes "seal_row now q digest r = Inr r'"
  shows "rc_project r' = rc_project r" "rc_run r' = rc_run r" "rc_segment_no r' = rc_segment_no r"
    "rc_sequence_base r' = rc_sequence_base r" "rc_durable_seq r' = rc_durable_seq r" "rc_origin r' = rc_origin r"
    "rc_state r' = ''sealed''" "rc_final_seq r' = Some (sq_final_seq q)"
    "rc_state r = ''sealed'' \<Longrightarrow> rc_final_seq r = Some (sq_final_seq q)"
proof -
  have "(rc_state r = ''sealed'' \<and> rc_final_seq r = Some (sq_final_seq q)
      \<and> (r' = r \<or> r' = r\<lparr>rc_manifest := Some (sq_manifest q), rc_manifest_sha256 := digest, rc_updated_at := now\<rparr>))
    \<or> (rc_state r \<noteq> ''sealed'' \<and> (\<exists>m d. r' = r\<lparr>rc_state := ''sealed'', rc_final_seq := Some (sq_final_seq q),
               rc_manifest := m, rc_manifest_sha256 := d, rc_updated_at := now\<rparr>))"
  proof (cases "rc_state r = ''sealed''")
    case True
    then show ?thesis using assms unfolding seal_row_def by (auto simp: and_then_eq_Inr)
  next
    case False
    then show ?thesis using assms unfolding seal_row_def by (simp only: if_False) blast
  qed
  then show "rc_project r' = rc_project r" "rc_run r' = rc_run r" "rc_segment_no r' = rc_segment_no r"
    "rc_sequence_base r' = rc_sequence_base r" "rc_durable_seq r' = rc_durable_seq r" "rc_origin r' = rc_origin r"
    "rc_state r' = ''sealed''" "rc_final_seq r' = Some (sq_final_seq q)"
    "rc_state r = ''sealed'' \<Longrightarrow> rc_final_seq r = Some (sq_final_seq q)"
    by (elim disjE conjE exE; simp)+
qed

lemma seal_effect:
  assumes "p' \<in> set (outcomes (Seal L now pr rec q) p)"
  obtains (none) "p' = p"
  | (sealed) digest r r' where "map_of (pf_recordings p) rec = Some r" "rc_project r = pr_project pr"
      "rc_state r = ''open'' \<or> rc_state r = ''sealed''" "rc_durable_seq r \<le> sq_final_seq q"
      "seal_row now q digest r = Inr r'" "pf_recordings p' = AList.update rec r' (pf_recordings p)"
      "\<forall>k. map_of (pf_runs p') k = map_of (pf_runs p) k
           \<or> k = rc_run r \<and> (\<exists>run. map_of (pf_runs p) k = Some run \<and> map_of (pf_runs p') k = Some (run\<lparr>cr_ended_at := Some now\<rparr>))"
      "pf_batches p' = pf_batches p" "pf_collectors p' = pf_collectors p" "pf_blobs p' = pf_blobs p"
      "pf_refs p' = pf_refs p" "pf_objects p' = pf_objects p"
proof (cases "p' = p")
  case False
  let ?run_final = "sq_run_final q = None \<or> sq_run_final q = Some True"
  let ?p1 = "\<lambda>r'. p\<lparr>pf_recordings := AList.update rec r' (pf_recordings p)\<rparr>"
  obtain digest r r' where r: "map_of (pf_recordings p) rec = Some r" "rc_project r = pr_project pr"
      "rc_state r = ''open'' \<or> rc_state r = ''sealed''" "rc_durable_seq r \<le> sq_final_seq q"
      "seal_row now q digest r = Inr r'"
    and p': "p' = (if ?run_final then end_run now (rc_run r) (?p1 r') else ?p1 r')"
    using transaction_cases[OF assms[unfolded Seal_def]] False
    by (auto simp: Let_def and_then_eq_Inr)
  show thesis
  proof (rule sealed[OF r])
    show "\<forall>k. map_of (pf_runs p') k = map_of (pf_runs p) k
           \<or> k = rc_run r \<and> (\<exists>run. map_of (pf_runs p) k = Some run \<and> map_of (pf_runs p') k = Some (run\<lparr>cr_ended_at := Some now\<rparr>))"
      using end_run_runs[of now "rc_run r" "?p1 r'"] unfolding p' by simp
  qed (simp_all add: p' end_run_effect)
qed (rule none)

text \<open>What a batch request can do to the platform. A new batch is disjoint from the others.\<close>

definition disjoint_rows :: "batch_row \<Rightarrow> batch_row \<Rightarrow> bool" where
  "disjoint_rows a b \<longleftrightarrow> br_recording a = br_recording b \<longrightarrow> br_last_seq a < br_first_seq b \<or> br_last_seq b < br_first_seq a"

text \<open>The object under a key holds the evidence of a row.\<close>

definition object_holds :: "('x) upload_codecs_scheme \<Rightarrow> platform \<Rightarrow> batch_row \<Rightarrow> bool" where
  "object_holds L p row \<longleftrightarrow>
     (\<exists>contents h c d. map_of (pf_objects p) (br_object_key row) = Some contents
        \<and> ReadBatchBody L contents = Inr (h, c, d) \<and> bh_recording_id h = br_recording row
        \<and> bh_batch_id h = br_batch_id row \<and> bh_first_seq h = br_first_seq row \<and> bh_last_seq h = br_last_seq row
        \<and> bh_sha256 h = hex_encode L (br_sha256 row) \<and> sha256 L d = br_sha256 row)"

lemma ReadBatchBody_ok:
  assumes "ReadBatchBody L body = Inr (h, c, d)"
  shows "ValidateHeaderRange h = Inr ()" "length d = bh_byte_length h" "bh_sha256 h = hex_encode L (sha256 L d)"
  using assms by (auto simp: ReadBatchBody_def decodeBatchHeader_def Let_def and_then_eq_Inr)

lemma admit_batch_ok:
  assumes "admit_batch L pr rec body p = Inr (h, compressed, r)"
  shows "bh_recording_id h = rec" "map_of (pf_recordings p) rec = Some r" "rc_project r = pr_project pr"
    "rc_state r = ''open'' \<or> rc_state r = ''sealed'' \<and> (\<exists>final. rc_final_seq r = Some final \<and> bh_last_seq h \<le> final)"
    "rc_sequence_base r < bh_first_seq h" "ValidateHeaderRange h = Inr ()" "\<exists>d. bh_sha256 h = hex_encode L (sha256 L d)"
  using assms by (auto simp: admit_batch_def and_then_eq_Inr split: option.splits dest: ReadBatchBody_ok)

lemma verifyBatchObject_holds:
  assumes "hex_law L" "verifyBatchObject L p key h = Inr ()" "hex_decode L (bh_sha256 h) = Some digest"
    "br_object_key row = key" "br_recording row = bh_recording_id h" "br_batch_id row = bh_batch_id h"
    "br_first_seq row = bh_first_seq h" "br_last_seq row = bh_last_seq h" "br_sha256 row = digest"
  shows "object_holds L p row"
proof -
  obtain contents stored c d where o: "map_of (pf_objects p) key = Some contents" "ReadBatchBody L contents = Inr (stored, c, d)"
      "bh_batch_id stored = bh_batch_id h" "bh_recording_id stored = bh_recording_id h" "bh_first_seq stored = bh_first_seq h"
      "bh_last_seq stored = bh_last_seq h" "bh_sha256 stored = bh_sha256 h"
    using assms(2) by (auto simp: verifyBatchObject_def split: option.splits sum.splits prod.splits)
  have "bh_sha256 h = hex_encode L (sha256 L d)" using ReadBatchBody_ok(3)[OF o(2)] o(7) by simp
  then have "digest = sha256 L d" using assms(1,3) by (simp add: hex_roundtrip)
  then show ?thesis using o assms \<open>bh_sha256 h = hex_encode L (sha256 L d)\<close> by (auto simp: object_holds_def)
qed

lemma object_holds_mono:
  "object_holds L p row \<Longrightarrow> \<forall>k c. map_of (pf_objects p) k = Some c \<longrightarrow> map_of (pf_objects p') k = Some c \<Longrightarrow> object_holds L p' row"
  unfolding object_holds_def by blast

text \<open>The objects of a request are its own: others stay as they are, and none is replaced.\<close>

definition objects_added :: "(str \<Rightarrow> bool) \<Rightarrow> platform \<Rightarrow> platform \<Rightarrow> bool" where
  "objects_added own p p' \<longleftrightarrow>
     (\<forall>k. \<not> own k \<longrightarrow> map_of (pf_objects p') k = map_of (pf_objects p) k)
     \<and> (\<forall>k c. map_of (pf_objects p) k = Some c \<longrightarrow> map_of (pf_objects p') k = Some c)"

lemma objects_added_refl [simp]: "pf_objects p' = pf_objects p \<Longrightarrow> objects_added own p p'"
  by (simp add: objects_added_def)

lemma objects_added_put: "own k \<Longrightarrow> pf_objects p' = pf_objects (put_object k c p) \<Longrightarrow> objects_added own p p'"
  by (auto simp: objects_added_def put_object_effect)

text \<open>The blobs and references of other projects.\<close>

definition others_kept :: "uuid \<Rightarrow> platform \<Rightarrow> platform \<Rightarrow> bool" where
  "others_kept pj p p' \<longleftrightarrow>
     (\<forall>owner d. owner \<noteq> pj \<longrightarrow> map_of (pf_blobs p') (owner, d) = map_of (pf_blobs p) (owner, d))
     \<and> filter (\<lambda>(_, owner, _). owner \<noteq> pj) (pf_refs p') = filter (\<lambda>(_, owner, _). owner \<noteq> pj) (pf_refs p)"

lemma others_kept_refl [simp]: "pf_blobs p' = pf_blobs p \<Longrightarrow> pf_refs p' = pf_refs p \<Longrightarrow> others_kept pj p p'"
  by (simp add: others_kept_def)

lemma map_of_map_pair:
  "map_of (map (\<lambda>((a, d), v). ((a, d), f a d v)) m) (a, d) = map_option (f a d) (map_of m (a, d))"
  by (induction m) auto

lemma add_ref_others: "others_kept pj p (add_ref rec pj d p)"
  by (auto simp: others_kept_def add_ref_def Let_def map_of_map_pair option.map_ident)

lemma registerBlobRefs_others: "registerBlobRefs L rec pj seen shas p = Inr p' \<Longrightarrow> others_kept pj p p'"
proof (induction shas arbitrary: seen p)
  case (Cons sha shas)
  show ?case
  proof (cases "sha \<in> set seen")
    case True
    then show ?thesis using Cons by simp
  next
    case False
    then obtain d where "registerBlobRefs L rec pj (sha # seen) shas (add_ref rec pj d p) = Inr p'"
      using Cons.prems by (auto simp: and_then_eq_Inr split: option.splits)
    from Cons.IH[OF this] show ?thesis using add_ref_others[of pj p rec d] by (simp add: others_kept_def)
  qed
qed simp

text \<open>What a batch request can do to the platform.\<close>

lemma batch_effect:
  assumes hex: "hex_law L" and p': "p' \<in> set (outcomes (UploadBatch L sv now pr rec body) p)"
  obtains (none) "p' = p"
  | (touched) r h compressed where "map_of (pf_recordings p) rec = Some r" "rc_project r = pr_project pr"
      "pf_batches p' = pf_batches p" "pf_runs p' = pf_runs p" "pf_collectors p' = pf_collectors p"
      "pf_recordings p' = pf_recordings p \<or>
       pf_recordings p' = AList.update rec (r\<lparr>rc_integrity_alerts := rc_integrity_alerts r @ [''batch_conflict'']\<rparr>) (pf_recordings p)"
      "bh_recording_id h = rec" "objects_added (\<lambda>k. k = batch_object_key sv pr h) p p'" "others_kept (pr_project pr) p p'"
      "admit_batch L pr rec body p = Inr (h, compressed, r)"
      "pf_objects p' = pf_objects p
       \<or> pf_objects p' = pf_objects (put_object (batch_object_key sv pr h) (WriteBatchBody L h compressed) p)"
  | (recorded) r h row missing compressed where "map_of (pf_recordings p) rec = Some r" "rc_project r = pr_project pr"
      "pf_batches p' = pf_batches p @ [row]" "pf_runs p' = pf_runs p" "pf_collectors p' = pf_collectors p"
      "br_recording row = rec" "rc_sequence_base r < br_first_seq row" "br_first_seq row \<le> br_last_seq row"
      "\<forall>b\<in>set (pf_batches p). disjoint_rows b row" "object_holds L p' row"
      "rc_state r = ''open'' \<or> rc_state r = ''sealed'' \<and> (\<exists>final. rc_final_seq r = Some final \<and> br_last_seq row \<le> final)"
      "pf_recordings p' = AList.update rec
         (r\<lparr>rc_durable_seq := advance_durable 100000 rec (pf_batches p @ [row]) (rc_durable_seq r),
            rc_updated_at := now, rc_missing_blobs := missing\<rparr>) (pf_recordings p)"
      "bh_recording_id h = rec" "objects_added (\<lambda>k. k = batch_object_key sv pr h) p p'" "others_kept (pr_project pr) p p'"
      "admit_batch L pr rec body p = Inr (h, compressed, r)"
      "pf_objects p' = pf_objects (put_object (batch_object_key sv pr h) (WriteBatchBody L h compressed) p)"
      "br_first_seq row = bh_first_seq h" "br_last_seq row = bh_last_seq h" "br_object_key row = batch_object_key sv pr h"
proof (cases "admit_batch L pr rec body p")
  case (Inl e)
  then show thesis using p' none by (cases e) (simp add: outcomes_def UploadBatch_def)
next
  case (Inr x)
  obtain h compressed r where x: "x = (h, compressed, r)" by (cases x)
  note a = admit_batch_ok[OF Inr[unfolded x]]
  let ?key = "batch_object_key sv pr h"
  define stored where "stored = put_object ?key (WriteBatchBody L h compressed) p"
  obtain digest where digest: "hex_decode L (bh_sha256 h) = Some digest" using a(7) hex by (auto simp: hex_roundtrip)
  have reg: "p' \<in> set (outcomes (register_batch L sv now pr h compressed r) p)"
    using p' Inr x by (simp add: outcomes_def UploadBatch_def)
  have own: "objects_added (\<lambda>k. k = ?key) p q" if "pf_objects q = pf_objects stored" for q
    using that unfolding stored_def by (intro objects_added_put[where k = ?key]) simp_all
  have touch: thesis if "others_kept (pr_project pr) p p'" "pf_objects p' = pf_objects p \<or> pf_objects p' = pf_objects stored" "pf_batches p' = pf_batches p"
      "pf_runs p' = pf_runs p" "pf_collectors p' = pf_collectors p"
      "pf_recordings p' = pf_recordings p \<or>
       pf_recordings p' = AList.update rec (r\<lparr>rc_integrity_alerts := rc_integrity_alerts r @ [''batch_conflict'']\<rparr>) (pf_recordings p)"
    using that a(1,2,3) own[of p'] Inr x unfolding stored_def by (intro touched[of r h compressed]) auto
  show thesis
  proof (cases "find (\<lambda>b. br_recording b = bh_recording_id h \<and> br_batch_id b = bh_batch_id h) (pf_batches p)")
    case (Some existing)
    show thesis
    proof (cases "br_sha256 existing = digest")
      case True
      then have "p' = stored \<or> (\<exists>status ack. record_duplicate L h ?key r stored = Inr (status, ack, p'))"
        using reg Some digest unfolding stored_def
        by (auto simp: outcomes_def register_batch_def Let_def after_object_def split: sum.splits prod.splits)
      then have "p' = stored \<or> (\<exists>shas. registerBlobRefs L rec (rc_project r) [] shas stored = Inr p')"
        using a(1) by (auto simp: record_duplicate_def and_then_eq_Inr)
      then have "pf_objects p' = pf_objects stored \<and> pf_batches p' = pf_batches stored \<and> pf_runs p' = pf_runs stored
          \<and> pf_collectors p' = pf_collectors stored \<and> pf_recordings p' = pf_recordings stored
          \<and> others_kept (pr_project pr) stored p'"
        using registerBlobRefs_effect[of L rec "rc_project r" "[]" _ stored p']
          registerBlobRefs_others[of L rec "rc_project r" "[]" _ stored p'] a(3) by auto
      then show thesis using touch unfolding stored_def by (simp add: put_object_effect others_kept_def)
    next
      case False
      then have "p' = p\<lparr>pf_recordings := AList.update rec
          (r\<lparr>rc_integrity_alerts := rc_integrity_alerts r @ [''batch_conflict'']\<rparr>) (pf_recordings p)\<rparr>"
        using reg Some digest a(1) by (simp add: outcomes_def register_batch_def Let_def)
      then show thesis using touch by simp
    qed
  next
    case None
    let ?row = "\<lparr>br_recording = rec, br_batch_id = bh_batch_id h, br_first_seq = bh_first_seq h,
                br_last_seq = bh_last_seq h, br_event_count = bh_event_count h, br_byte_length = bh_byte_length h,
                br_sha256 = digest, br_object_key = ?key\<rparr>"
    show thesis
    proof (cases "p' = p \<or> p' = stored")
      case True
      then show thesis using touch none unfolding stored_def by (auto simp: put_object_effect)
    next
      case False
      then have dis: "\<not> list_ex (\<lambda>b. br_recording b = bh_recording_id h \<and> br_first_seq b \<le> bh_last_seq h
                         \<and> br_last_seq b \<ge> bh_first_seq h) (pf_batches p)"
        and "\<exists>status ack. record_new_batch L now h ?key digest r stored = Inr (status, ack, p')"
        using reg None digest unfolding stored_def
        by (auto simp: outcomes_def register_batch_def Let_def after_object_def split: sum.splits prod.splits if_splits)
      then obtain q missing where ver: "verifyBatchObject L stored ?key h = Inr ()"
        and q: "registerBlobRefs L rec (rc_project r) [] (map fst (bh_blobs h)) (stored\<lparr>pf_batches := pf_batches stored @ [?row]\<rparr>) = Inr q"
        and p'q: "p' = q\<lparr>pf_recordings := AList.update rec (r\<lparr>rc_durable_seq := advance_durable 100000 rec (pf_batches q) (rc_durable_seq r),
            rc_updated_at := now, rc_missing_blobs := missing\<rparr>) (pf_recordings q)\<rparr>"
        using a(1) by (auto simp: record_new_batch_def and_then_eq_Inr Let_def)
      note e = registerBlobRefs_effect[OF q]
      have obj: "pf_objects p' = pf_objects stored" using e by (simp add: p'q)
      have "object_holds L stored ?row" using verifyBatchObject_holds[OF hex ver digest] a(1) by simp
      then have holds: "object_holds L p' ?row" by (rule object_holds_mono) (simp add: obj)
      show thesis
      proof (rule recorded[of r ?row missing h compressed])
        show "map_of (pf_recordings p) rec = Some r" "rc_project r = pr_project pr" "bh_recording_id h = rec" by (fact a(2) a(3) a(1))+
        show "pf_batches p' = pf_batches p @ [?row]" "pf_runs p' = pf_runs p" "pf_collectors p' = pf_collectors p"
          using e by (simp_all add: p'q stored_def put_object_effect)
        show "pf_recordings p' = AList.update rec
           (r\<lparr>rc_durable_seq := advance_durable 100000 rec (pf_batches p @ [?row]) (rc_durable_seq r),
              rc_updated_at := now, rc_missing_blobs := missing\<rparr>) (pf_recordings p)"
          using e by (simp add: p'q stored_def put_object_effect)
        show "objects_added (\<lambda>k. k = ?key) p p'" by (rule own[OF obj])
        show "others_kept (pr_project pr) p p'"
          using registerBlobRefs_others[OF q] a(3) by (simp add: others_kept_def p'q stored_def put_object_effect)
        show "\<forall>b\<in>set (pf_batches p). disjoint_rows b ?row"
          using dis a(1) by (auto simp: list_ex_iff disjoint_rows_def not_le)
        show "br_first_seq ?row \<le> br_last_seq ?row" using a(6) by (simp add: ValidateHeaderRange_def and_then_eq_Inr)
        show "object_holds L p' ?row" by (fact holds)
      qed (use a(4,5) obj Inr x in \<open>simp_all add: stored_def\<close>)
    qed
  qed
qed

text \<open>A blob request touches the recordings only in what they miss, and the blobs of its project.\<close>

definition same_but_missing :: "recording \<Rightarrow> recording \<Rightarrow> bool" where
  "same_but_missing r r' \<longleftrightarrow> (\<exists>m. r' = r\<lparr>rc_missing_blobs := m\<rparr>)"

lemma same_but_missing_refl [simp]: "same_but_missing r r"
  unfolding same_but_missing_def by (rule exI[of _ "rc_missing_blobs r"]) simp

lemma map_of_map_value: "map_of (map (\<lambda>(k, v). (k, f k v)) m) k = map_option (f k) (map_of m k)"
  by (induction m) auto

lemma blob_intent_effect:
  assumes "blob_intent max_bytes pj digest key n p = Inr (created, p')"
  shows "pf_recordings p' = pf_recordings p" "pf_runs p' = pf_runs p" "pf_collectors p' = pf_collectors p"
    "pf_batches p' = pf_batches p" "pf_refs p' = pf_refs p" "pf_objects p' = pf_objects p"
    "\<forall>owner d. owner \<noteq> pj \<longrightarrow> map_of (pf_blobs p') (owner, d) = map_of (pf_blobs p) (owner, d)"
  using assms by (auto simp: blob_intent_def and_then_eq_Inr split: option.splits)

lemma activate_blob_effect:
  "pf_runs (activate_blob pj digest sha p) = pf_runs p" "pf_collectors (activate_blob pj digest sha p) = pf_collectors p"
  "pf_batches (activate_blob pj digest sha p) = pf_batches p" "pf_refs (activate_blob pj digest sha p) = pf_refs p"
  "pf_objects (activate_blob pj digest sha p) = pf_objects p"
  "map fst (pf_recordings (activate_blob pj digest sha p)) = map fst (pf_recordings p)"
  "map_of (pf_recordings (activate_blob pj digest sha p)) rec =
     map_option (\<lambda>r. if rc_project r = pj then r\<lparr>rc_missing_blobs := filter (\<lambda>m. m \<noteq> sha) (rc_missing_blobs r)\<rparr> else r)
       (map_of (pf_recordings p) rec)"
  "owner \<noteq> pj \<Longrightarrow> map_of (pf_blobs (activate_blob pj digest sha p)) (owner, d) = map_of (pf_blobs p) (owner, d)"
  unfolding activate_blob_def
  by (simp_all add: map_of_map_value map_of_map_pair comp_def case_prod_beta option.map_ident)

lemma put_effect:
  assumes "p' \<in> set (outcomes (PutBlob L sv pr sha body) p)"
  shows "pf_runs p' = pf_runs p" "pf_collectors p' = pf_collectors p" "pf_batches p' = pf_batches p"
    "pf_refs p' = pf_refs p" "map fst (pf_recordings p') = map fst (pf_recordings p)"
    "objects_added (\<lambda>k. k = BlobKey (sv_uuid_text sv) (pr_tenant pr) (pr_project pr) sha) p p'"
    "\<forall>rec. rel_option same_but_missing (map_of (pf_recordings p) rec) (map_of (pf_recordings p') rec)"
    "\<forall>rec r. map_of (pf_recordings p) rec = Some r \<and> rc_project r \<noteq> pr_project pr \<longrightarrow> map_of (pf_recordings p') rec = Some r"
    "\<forall>owner d. owner \<noteq> pr_project pr \<longrightarrow> map_of (pf_blobs p') (owner, d) = map_of (pf_blobs p) (owner, d)"
proof -
  let ?key = "BlobKey (sv_uuid_text sv) (pr_tenant pr) (pr_project pr) sha"
  have rel: "rel_option same_but_missing x x" for x by (rule option.rel_refl) simp
  have "p' = p \<or> (\<exists>digest created intent.
      blob_intent (sv_max_project_storage_bytes sv) (pr_project pr) digest ?key (length body) p = Inr (created, intent)
      \<and> (p' = intent \<or> p' = put_object ?key body intent
         \<or> p' = activate_blob (pr_project pr) digest sha (put_object ?key body intent)))"
    using assms unfolding outcomes_def PutBlob_def Let_def
    by (auto simp: and_then_eq_Inr and_then_eq_Inl split: sum.splits prod.splits if_splits)
  then consider (none) "p' = p"
    | (some) digest created intent where
        "blob_intent (sv_max_project_storage_bytes sv) (pr_project pr) digest ?key (length body) p = Inr (created, intent)"
        "p' = intent \<or> p' = put_object ?key body intent
         \<or> p' = activate_blob (pr_project pr) digest sha (put_object ?key body intent)"
    by blast
  then have "pf_runs p' = pf_runs p \<and> pf_collectors p' = pf_collectors p \<and> pf_batches p' = pf_batches p
    \<and> pf_refs p' = pf_refs p \<and> map fst (pf_recordings p') = map fst (pf_recordings p)
    \<and> objects_added (\<lambda>k. k = ?key) p p'
    \<and> (\<forall>rec. rel_option same_but_missing (map_of (pf_recordings p) rec) (map_of (pf_recordings p') rec))
    \<and> (\<forall>rec r. map_of (pf_recordings p) rec = Some r \<and> rc_project r \<noteq> pr_project pr \<longrightarrow> map_of (pf_recordings p') rec = Some r)
    \<and> (\<forall>owner d. owner \<noteq> pr_project pr \<longrightarrow> map_of (pf_blobs p') (owner, d) = map_of (pf_blobs p) (owner, d))"
  proof cases
    case none
    then show ?thesis by (simp add: rel)
  next
    case some
    note i = blob_intent_effect[OF some(1)]
    have obj: "objects_added (\<lambda>k. k = ?key) p q" if "pf_objects q = pf_objects (put_object ?key body intent)" for q
      using that i(6) by (auto simp: objects_added_def put_object_effect)
    have filt: "rel_option same_but_missing x
        (map_option (\<lambda>r. if rc_project r = pr_project pr then r\<lparr>rc_missing_blobs := filter (\<lambda>m. m \<noteq> sha) (rc_missing_blobs r)\<rparr> else r) x)" for x
      by (cases x) (auto simp: same_but_missing_def, metis same_but_missing_def same_but_missing_refl)
    from some(2) show ?thesis
    proof (elim disjE)
      assume "p' = intent"
      then show ?thesis using i by (simp add: rel)
    next
      assume "p' = put_object ?key body intent"
      then show ?thesis using i obj[of p'] by (simp add: rel put_object_effect)
    next
      assume p': "p' = activate_blob (pr_project pr) digest sha (put_object ?key body intent)"
      have "objects_added (\<lambda>k. k = ?key) p p'" by (rule obj) (simp add: p' activate_blob_effect)
      then show ?thesis using i by (simp add: p' activate_blob_effect put_object_effect filt)
    qed
  qed
  then show "pf_runs p' = pf_runs p" "pf_collectors p' = pf_collectors p" "pf_batches p' = pf_batches p"
    "pf_refs p' = pf_refs p" "map fst (pf_recordings p') = map fst (pf_recordings p)"
    "objects_added (\<lambda>k. k = ?key) p p'"
    "\<forall>rec. rel_option same_but_missing (map_of (pf_recordings p) rec) (map_of (pf_recordings p') rec)"
    "\<forall>rec r. map_of (pf_recordings p) rec = Some r \<and> rc_project r \<noteq> pr_project pr \<longrightarrow> map_of (pf_recordings p') rec = Some r"
    "\<forall>owner d. owner \<noteq> pr_project pr \<longrightarrow> map_of (pf_blobs p') (owner, d) = map_of (pf_blobs p) (owner, d)"
    by blast+
qed

section \<open>The catalogue stays consistent\<close>

definition rows_of :: "platform \<Rightarrow> str \<Rightarrow> batch_row list" where
  "rows_of p rec = filter (\<lambda>b. br_recording b = rec) (pf_batches p)"

text \<open>The durable sequence of a recording: every event up to it is in a batch.\<close>

definition durable_covered :: "recording \<Rightarrow> batch_row list \<Rightarrow> bool" where
  "durable_covered r rows \<longleftrightarrow>
     rc_sequence_base r \<le> rc_durable_seq r
     \<and> (\<forall>n. rc_sequence_base r < n \<and> n \<le> rc_durable_seq r \<longrightarrow> (\<exists>b\<in>set rows. br_first_seq b \<le> n \<and> n \<le> br_last_seq b))
     \<and> (\<forall>b\<in>set rows. rc_sequence_base r < br_first_seq b \<and> br_first_seq b \<le> br_last_seq b)"

definition catalogue_ok :: "('x) upload_codecs_scheme \<Rightarrow> platform \<Rightarrow> bool" where
  "catalogue_ok L p \<longleftrightarrow>
     distinct (map fst (pf_recordings p))
     \<and> (\<forall>rec r. map_of (pf_recordings p) rec = Some r \<longrightarrow>
          (\<exists>run. map_of (pf_runs p) (rc_run r) = Some run \<and> cr_project run = rc_project r)
          \<and> durable_covered r (rows_of p rec))
     \<and> (\<forall>rec r rec' r'. map_of (pf_recordings p) rec = Some r \<and> map_of (pf_recordings p) rec' = Some r'
          \<and> rc_run r = rc_run r' \<and> rc_segment_no r = rc_segment_no r' \<longrightarrow> rec = rec')
     \<and> sorted_wrt disjoint_rows (pf_batches p)
     \<and> (\<forall>b\<in>set (pf_batches p). map_of (pf_recordings p) (br_recording b) \<noteq> None \<and> object_holds L p b)"

lemma catalogue_okI:
  assumes "distinct (map fst (pf_recordings p))"
    and "\<And>rec r. map_of (pf_recordings p) rec = Some r \<Longrightarrow>
          (\<exists>run. map_of (pf_runs p) (rc_run r) = Some run \<and> cr_project run = rc_project r) \<and> durable_covered r (rows_of p rec)"
    and "\<And>rec r rec' r'. map_of (pf_recordings p) rec = Some r \<Longrightarrow> map_of (pf_recordings p) rec' = Some r' \<Longrightarrow>
          rc_run r = rc_run r' \<Longrightarrow> rc_segment_no r = rc_segment_no r' \<Longrightarrow> rec = rec'"
    and "sorted_wrt disjoint_rows (pf_batches p)"
    and "\<And>b. b \<in> set (pf_batches p) \<Longrightarrow> map_of (pf_recordings p) (br_recording b) \<noteq> None \<and> object_holds L p b"
  shows "catalogue_ok L p"
  using assms unfolding catalogue_ok_def by blast

text \<open>Changes that leave the identity and the batches of every recording alone keep it consistent.\<close>

definition same_identity :: "recording \<Rightarrow> recording \<Rightarrow> bool" where
  "same_identity r r' \<longleftrightarrow> rc_project r' = rc_project r \<and> rc_run r' = rc_run r \<and> rc_segment_no r' = rc_segment_no r
     \<and> rc_sequence_base r' = rc_sequence_base r \<and> rc_durable_seq r' = rc_durable_seq r"

lemma same_identity_refl [simp]: "same_identity r r"
  by (simp add: same_identity_def)

lemma durable_covered_identity: "same_identity r r' \<Longrightarrow> durable_covered r rows \<Longrightarrow> durable_covered r' rows"
  by (simp add: same_identity_def durable_covered_def)

lemma catalogue_ok_same:
  assumes ok: "catalogue_ok L p" and keys: "map fst (pf_recordings p') = map fst (pf_recordings p)"
    and recs: "\<And>rec. rel_option same_identity (map_of (pf_recordings p) rec) (map_of (pf_recordings p') rec)"
    and runs: "\<And>k run. map_of (pf_runs p) k = Some run \<Longrightarrow> \<exists>run'. map_of (pf_runs p') k = Some run' \<and> cr_project run' = cr_project run"
    and batches: "pf_batches p' = pf_batches p"
    and objects: "\<forall>k c. map_of (pf_objects p) k = Some c \<longrightarrow> map_of (pf_objects p') k = Some c"
  shows "catalogue_ok L p'"
proof (rule catalogue_okI)
  have older: "\<exists>r. map_of (pf_recordings p) rec = Some r \<and> same_identity r r'" if "map_of (pf_recordings p') rec = Some r'" for rec r'
    using recs[of rec] that by (auto elim: option.rel_cases)
  show "distinct (map fst (pf_recordings p'))" using ok keys by (simp add: catalogue_ok_def)
  show "(\<exists>run. map_of (pf_runs p') (rc_run r') = Some run \<and> cr_project run = rc_project r') \<and> durable_covered r' (rows_of p' rec)"
    if r': "map_of (pf_recordings p') rec = Some r'" for rec r'
  proof -
    obtain r where r: "map_of (pf_recordings p) rec = Some r" "same_identity r r'" using older[OF r'] by blast
    then obtain run where "map_of (pf_runs p) (rc_run r) = Some run" "cr_project run = rc_project r" "durable_covered r (rows_of p rec)"
      using ok unfolding catalogue_ok_def by blast
    then show ?thesis using runs[of "rc_run r" run] r(2) durable_covered_identity[OF r(2)] batches
      by (auto simp: same_identity_def rows_of_def)
  qed
  show "rec = rec'" if "map_of (pf_recordings p') rec = Some r" "map_of (pf_recordings p') rec' = Some r'"
      "rc_run r = rc_run r'" "rc_segment_no r = rc_segment_no r'" for rec r rec' r'
    using ok older[OF that(1)] older[OF that(2)] that(3,4) unfolding catalogue_ok_def same_identity_def by metis
  show "sorted_wrt disjoint_rows (pf_batches p')" using ok batches by (simp add: catalogue_ok_def)
  show "map_of (pf_recordings p') (br_recording b) \<noteq> None \<and> object_holds L p' b" if "b \<in> set (pf_batches p')" for b
  proof -
    have "map_of (pf_recordings p) (br_recording b) \<noteq> None" "object_holds L p b"
      using ok that unfolding batches catalogue_ok_def by blast+
    then show ?thesis using recs[of "br_recording b"] object_holds_mono[OF _ objects, of L b] by (auto elim: option.rel_cases)
  qed
qed

lemma rel_option_update:
  assumes "map_of m k = Some v" "R v v'" "\<And>x. R x x"
  shows "rel_option R (map_of m j) (map_of (AList.update k v' m) j)"
  using assms by (auto simp: option.rel_refl)

lemma keys_update: "map_of m k = Some v \<Longrightarrow> map fst (AList.update k v' m) = map fst m"
  by (induction m) auto

text \<open>The loop of the durable sequence covers what it passes.\<close>

lemma advance_durable_covers:
  assumes "\<forall>b\<in>set rows. br_recording b = rec \<longrightarrow> br_first_seq b \<le> br_last_seq b"
  shows "d \<le> advance_durable i rec rows d
    \<and> (\<forall>n. d < n \<and> n \<le> advance_durable i rec rows d \<longrightarrow>
         (\<exists>b\<in>set rows. br_recording b = rec \<and> br_first_seq b \<le> n \<and> n \<le> br_last_seq b))"
proof (induction i arbitrary: d)
  case (Suc i)
  show ?case
  proof (cases "find (\<lambda>r. br_recording r = rec \<and> br_first_seq r = d + 1) rows")
    case (Some b)
    then have b: "b \<in> set rows" "br_recording b = rec" "br_first_seq b = d + 1" by (auto dest: find_SomeD)
    moreover have "d < br_last_seq b" using assms b by fastforce
    ultimately show ?thesis using Some Suc.IH[of "br_last_seq b"]
      by (auto simp: not_le) (metis Suc_leI leI)
  qed auto
qed auto

lemma catalogue_ok_recorded:
  assumes ok: "catalogue_ok L p" and r: "map_of (pf_recordings p) rec = Some r"
    and batches: "pf_batches p' = pf_batches p @ [row]" and runs: "pf_runs p' = pf_runs p"
    and row: "br_recording row = rec" "rc_sequence_base r < br_first_seq row" "br_first_seq row \<le> br_last_seq row"
      "\<forall>b\<in>set (pf_batches p). disjoint_rows b row" "object_holds L p' row"
    and recs: "pf_recordings p' = AList.update rec r' (pf_recordings p)"
    and r': "rc_project r' = rc_project r" "rc_run r' = rc_run r" "rc_segment_no r' = rc_segment_no r"
      "rc_sequence_base r' = rc_sequence_base r"
      "rc_durable_seq r' = advance_durable i rec (pf_batches p @ [row]) (rc_durable_seq r)"
    and objects: "\<forall>k c. map_of (pf_objects p) k = Some c \<longrightarrow> map_of (pf_objects p') k = Some c"
  shows "catalogue_ok L p'"
proof (rule catalogue_okI)
  have cov: "durable_covered r (rows_of p rec)" using ok r by (auto simp: catalogue_ok_def)
  have older: "\<exists>q. map_of (pf_recordings p) k = Some q \<and> rc_run q = rc_run q' \<and> rc_segment_no q = rc_segment_no q' \<and> rc_project q = rc_project q'"
    if "map_of (pf_recordings p') k = Some q'" for k q'
    using that r r' by (auto simp: recs split: if_splits)
  show "distinct (map fst (pf_recordings p'))" using ok recs keys_update[OF r] by (simp add: catalogue_ok_def)
  show "sorted_wrt disjoint_rows (pf_batches p')" using ok row(4) by (simp add: batches catalogue_ok_def sorted_wrt_append)
  show "k = k'" if "map_of (pf_recordings p') k = Some q" "map_of (pf_recordings p') k' = Some q'"
      "rc_run q = rc_run q'" "rc_segment_no q = rc_segment_no q'" for k q k' q'
    using ok older[OF that(1)] older[OF that(2)] that(3,4) unfolding catalogue_ok_def by metis
  show "map_of (pf_recordings p') (br_recording b) \<noteq> None \<and> object_holds L p' b" if "b \<in> set (pf_batches p')" for b
    using that ok row(1,5) r object_holds_mono[OF _ objects, of L b] by (auto simp: batches recs catalogue_ok_def)
  have first: "\<forall>b\<in>set (pf_batches p @ [row]). br_recording b = rec \<longrightarrow> br_first_seq b \<le> br_last_seq b"
    using cov row(3) by (auto simp: durable_covered_def rows_of_def)
  note adv = advance_durable_covers[OF first, of "rc_durable_seq r" i]
  have rows: "rows_of p' rec = rows_of p rec @ [row]" using row(1) by (simp add: rows_of_def batches)
  have "durable_covered r' (rows_of p' rec)"
    unfolding durable_covered_def r' rows
  proof (intro conjI allI impI ballI)
    show "rc_sequence_base r \<le> advance_durable i rec (pf_batches p @ [row]) (rc_durable_seq r)"
      using adv cov by (auto simp: durable_covered_def)
    fix n assume n: "rc_sequence_base r < n \<and> n \<le> advance_durable i rec (pf_batches p @ [row]) (rc_durable_seq r)"
    show "\<exists>b\<in>set (rows_of p rec @ [row]). br_first_seq b \<le> n \<and> n \<le> br_last_seq b"
    proof (cases "n \<le> rc_durable_seq r")
      case True
      then show ?thesis using n cov by (auto simp: durable_covered_def)
    next
      case False
      then show ?thesis using n adv by (force simp: rows_of_def not_le)
    qed
  next
    fix b assume "b \<in> set (rows_of p rec @ [row])"
    then show "rc_sequence_base r < br_first_seq b" "br_first_seq b \<le> br_last_seq b"
      using cov row(2,3) by (auto simp: durable_covered_def)
  qed
  moreover have "rows_of p' k = rows_of p k" if "k \<noteq> rec" for k using that row(1) by (simp add: rows_of_def batches)
  ultimately show "(\<exists>run. map_of (pf_runs p') (rc_run q) = Some run \<and> cr_project run = rc_project q) \<and> durable_covered q (rows_of p' k)"
    if "map_of (pf_recordings p') k = Some q" for k q
    using that ok r r' runs by (cases "k = rec") (auto simp: recs catalogue_ok_def)
qed

lemma catalogue_ok_created:
  assumes ok: "catalogue_ok L p" and new: "map_of (pf_recordings p) (cq_recording_id q) = None"
    and recs: "pf_recordings p' = AList.update (cq_recording_id q) (new_recording now pr q) (pf_recordings p)"
    and run: "cr_project run = pr_project pr" "map_of (pf_runs p') = (map_of (pf_runs p))(cq_capture_run_id q \<mapsto> run)"
      "\<forall>r. map_of (pf_runs p) (cq_capture_run_id q) = Some r \<longrightarrow> cr_project r = pr_project pr"
    and seg: "find_segment p (cq_capture_run_id q) (cq_segment_no q) = None"
    and same: "pf_batches p' = pf_batches p" "pf_objects p' = pf_objects p"
  shows "catalogue_ok L p'"
proof (rule catalogue_okI)
  let ?rec = "cq_recording_id q"
  have rows: "rows_of p' k = rows_of p k" for k by (simp add: rows_of_def same)
  have "rows_of p ?rec = []" using ok new by (auto simp: rows_of_def catalogue_ok_def filter_empty_conv)
  then have new_ok: "durable_covered (new_recording now pr q) (rows_of p' ?rec)"
    by (simp add: rows durable_covered_def new_recording_def)
  have fresh: "\<not> (rc_run r = cq_capture_run_id q \<and> rc_segment_no r = cq_segment_no q)" if "map_of (pf_recordings p) k = Some r" for k r
    using seg map_of_SomeD[OF that] by (auto simp: find_segment_None)
  show "distinct (map fst (pf_recordings p'))" using ok by (simp add: recs catalogue_ok_def distinct_update)
  show "(\<exists>run. map_of (pf_runs p') (rc_run r) = Some run \<and> cr_project run = rc_project r) \<and> durable_covered r (rows_of p' k)"
    if "map_of (pf_recordings p') k = Some r" for k r
  proof (cases "k = ?rec")
    case True
    then show ?thesis using that new_ok run by (auto simp: recs new_recording_def)
  next
    case False
    then have "map_of (pf_recordings p) k = Some r" using that by (simp add: recs)
    then obtain old where old: "map_of (pf_runs p) (rc_run r) = Some old" "cr_project old = rc_project r" "durable_covered r (rows_of p k)"
      using ok unfolding catalogue_ok_def by blast
    then have "\<exists>run. map_of (pf_runs p') (rc_run r) = Some run \<and> cr_project run = rc_project r"
      using run by (cases "rc_run r = cq_capture_run_id q") auto
    then show ?thesis using old(3) by (simp add: rows)
  qed
  show "k = k'" if "map_of (pf_recordings p') k = Some r" "map_of (pf_recordings p') k' = Some r'"
      "rc_run r = rc_run r'" "rc_segment_no r = rc_segment_no r'" for k r k' r'
  proof (cases "k = ?rec \<or> k' = ?rec")
    case True
    then show ?thesis using that fresh[of k r] fresh[of k' r'] by (auto simp: recs new_recording_def split: if_splits)
  next
    case False
    then have "map_of (pf_recordings p) k = Some r" "map_of (pf_recordings p) k' = Some r'" using that by (simp_all add: recs)
    then show ?thesis using ok that(3,4) unfolding catalogue_ok_def by blast
  qed
  show "sorted_wrt disjoint_rows (pf_batches p')" using ok by (simp add: same catalogue_ok_def)
  show "map_of (pf_recordings p') (br_recording b) \<noteq> None \<and> object_holds L p' b" if "b \<in> set (pf_batches p')" for b
    using that ok by (auto simp: same recs catalogue_ok_def object_holds_def)
qed

lemma serve_keeps_catalogue:
  assumes hex: "hex_law L" and ok: "catalogue_ok L p" and p': "p' \<in> set (serve L sv now fresh pr rq p)"
  shows "catalogue_ok L p'"
proof -
  have rel: "rel_option same_identity x x" for x by (rule option.rel_refl) simp
  have trivial: "catalogue_ok L x" if "pf_recordings x = pf_recordings p" "pf_runs x = pf_runs p" "pf_batches x = pf_batches p"
      "pf_objects x = pf_objects p" for x
    by (rule catalogue_ok_same[OF ok]) (simp_all add: that rel)
  show ?thesis
  proof (cases rq)
    case (Register_request q)
    then show ?thesis using p' register_effect[of p' sv now fresh pr q p] by (auto simp: serve_def ok intro: trivial)
  next
    case (Heartbeat_request cid q)
    then show ?thesis using p' heartbeat_effect[of p' sv now pr cid q p] by (auto simp: serve_def ok intro: trivial)
  next
    case (Create_request q)
    then have "p' \<in> set (outcomes (CreateRecording (sv_is_object sv) now pr q) p)" using p' by (simp add: serve_def)
    from create_effect[OF this] show ?thesis
    proof (elim disjE exE conjE)
      assume "p' = p" then show ?thesis using ok by simp
    next
      fix run assume run: "cr_project run = pr_project pr"
          "\<forall>r. map_of (pf_runs p) (cq_capture_run_id q) = Some r \<longrightarrow> cr_project r = pr_project pr"
          "map_of (pf_runs p') = (map_of (pf_runs p))(cq_capture_run_id q \<mapsto> run)"
        and same: "pf_batches p' = pf_batches p" "pf_objects p' = pf_objects p" "pf_recordings p' = pf_recordings p"
      show ?thesis
      proof (rule catalogue_ok_same[OF ok])
        show "\<exists>run'. map_of (pf_runs p') k = Some run' \<and> cr_project run' = cr_project old" if "map_of (pf_runs p) k = Some old" for k old
          using that run by (cases "k = cq_capture_run_id q") auto
      qed (simp_all add: same rel)
    next
      fix run assume "cr_project run = pr_project pr"
          "\<forall>r. map_of (pf_runs p) (cq_capture_run_id q) = Some r \<longrightarrow> cr_project r = pr_project pr"
          "map_of (pf_runs p') = (map_of (pf_runs p))(cq_capture_run_id q \<mapsto> run)"
        and "pf_batches p' = pf_batches p" "pf_objects p' = pf_objects p"
          "map_of (pf_recordings p) (cq_recording_id q) = None"
          "pf_recordings p' = AList.update (cq_recording_id q) (new_recording now pr q) (pf_recordings p)"
          "find_segment p (cq_capture_run_id q) (cq_segment_no q) = None"
      then show ?thesis using catalogue_ok_created[OF ok] by blast
    qed
  next
    case (Get_request rec)
    then show ?thesis using p' get_effect[of p' pr rec p] ok by (auto simp: serve_def)
  next
    case (Head_request sha)
    then show ?thesis using p' head_effect[of p' L pr sha p] ok by (auto simp: serve_def)
  next
    case (Batch_request rec body)
    then have "p' \<in> set (outcomes (UploadBatch L sv now pr rec body) p)" using p' by (simp add: serve_def)
    then show ?thesis
    proof (cases rule: batch_effect[OF hex, consumes 1, case_names none touched recorded])
      case none then show ?thesis using ok by simp
    next
      case (touched r h compressed)
      have obj: "\<forall>k c. map_of (pf_objects p) k = Some c \<longrightarrow> map_of (pf_objects p') k = Some c"
        using touched(8) by (simp add: objects_added_def)
      let ?r = "r\<lparr>rc_integrity_alerts := rc_integrity_alerts r @ [''batch_conflict'']\<rparr>"
      have "same_identity r ?r" by (simp add: same_identity_def)
      then have "rel_option same_identity (map_of (pf_recordings p) k) (map_of (pf_recordings p') k)" for k
        using touched(6) rel_option_update[OF touched(1), of same_identity ?r k] rel by auto
      moreover have "map fst (pf_recordings p') = map fst (pf_recordings p)"
        using touched(6) keys_update[OF touched(1)] by auto
      ultimately show ?thesis by (intro catalogue_ok_same[OF ok _ _ _ touched(3) obj]) (simp_all add: touched(4))
    next
      case (recorded r h row missing compressed)
      then show ?thesis
        by (intro catalogue_ok_recorded[OF ok recorded(1,3,4,6,7,8,9,10,12)]) (simp_all add: objects_added_def)
    qed
  next
    case (Put_request sha body)
    then have "p' \<in> set (outcomes (PutBlob L sv pr sha body) p)" using p' by (simp add: serve_def)
    note e = put_effect[OF this]
    have "rel_option same_identity (map_of (pf_recordings p) k) (map_of (pf_recordings p') k)" for k
      by (rule option.rel_mono_strong[OF e(7)[rule_format, of k]]) (auto simp: same_but_missing_def same_identity_def)
    then show ?thesis
      using e(6) by (intro catalogue_ok_same[OF ok e(5) _ _ e(3)]) (simp_all add: e(1) objects_added_def)
  next
    case (Seal_request rec q)
    then have "p' \<in> set (outcomes (Seal L now pr rec q) p)" using p' by (simp add: serve_def)
    then show ?thesis
    proof (cases rule: seal_effect[consumes 1, case_names none sealed])
      case none then show ?thesis using ok by simp
    next
      case (sealed digest r r')
      have "same_identity r r'" using seal_row_ok[OF sealed(5)] by (simp add: same_identity_def)
      then have "rel_option same_identity (map_of (pf_recordings p) k) (map_of (pf_recordings p') k)" for k
        using rel_option_update[OF sealed(1), of same_identity r' k] by (simp add: sealed(6))
      moreover have "\<exists>run'. map_of (pf_runs p') k = Some run' \<and> cr_project run' = cr_project run"
        if "map_of (pf_runs p) k = Some run" for k run
        using sealed(7)[rule_format, of k] that by auto
      ultimately show ?thesis
        by (intro catalogue_ok_same[OF ok _ _ _ sealed(8)]) (simp_all add: sealed(6,12) keys_update[OF sealed(1)])
    qed
  qed
qed

lemma sweep_keeps_catalogue: "catalogue_ok L p \<Longrightarrow> catalogue_ok L (SweepStatus now after p)"
proof (rule catalogue_ok_same)
  show "rel_option same_identity (map_of (pf_recordings p) rec) (map_of (pf_recordings (SweepStatus now after p)) rec)" for rec
    by (cases "map_of (pf_recordings p) rec") (simp_all add: SweepStatus_def map_of_map_value same_identity_def)
qed (auto simp: SweepStatus_def)

section \<open>Histories\<close>

definition empty_platform :: platform where
  "empty_platform = \<lparr>pf_collectors = [], pf_runs = [], pf_recordings = [], pf_batches = [], pf_blobs = [], pf_refs = [],
     pf_objects = []\<rparr>"

text \<open>The states reached by the requests of collectors and by the sweep. The requests of users, the
  processing jobs and the deletions of the platform's own retention are not steps here.\<close>

inductive platform_reachable :: "('x) upload_codecs_scheme \<Rightarrow> service \<Rightarrow> platform \<Rightarrow> bool"
  for L sv where
  reach_empty: "platform_reachable L sv empty_platform"
| reach_served: "platform_reachable L sv p \<Longrightarrow> p' \<in> set (serve L sv now fresh pr rq p) \<Longrightarrow> platform_reachable L sv p'"
| reach_swept: "platform_reachable L sv p \<Longrightarrow> platform_reachable L sv (SweepStatus now after p)"

lemma reachable_catalogue_ok:
  assumes "platform_reachable L sv p" "hex_law L"
  shows "catalogue_ok L p"
  using assms
proof (induction rule: platform_reachable.induct)
  case reach_empty
  then show ?case by (simp add: catalogue_ok_def empty_platform_def)
next
  case (reach_served p p' now fresh pr rq)
  then show ?case using serve_keeps_catalogue by blast
next
  case (reach_swept p now after)
  then show ?case using sweep_keeps_catalogue by blast
qed

lemma disjoint_rows_unique:
  assumes "sorted_wrt disjoint_rows bs" "b \<in> set bs" "b' \<in> set bs" "br_recording b = br_recording b'"
    "br_first_seq b \<le> n" "n \<le> br_last_seq b" "br_first_seq b' \<le> n" "n \<le> br_last_seq b'"
  shows "b = b'"
proof -
  have overlap: "\<not> disjoint_rows x y" if "br_recording x = br_recording y"
      "br_first_seq x \<le> n" "n \<le> br_last_seq x" "br_first_seq y \<le> n" "n \<le> br_last_seq y" for x y
    using that by (auto simp: disjoint_rows_def)
  obtain i j where ij: "i < length bs" "b = bs ! i" "j < length bs" "b' = bs ! j"
    using assms(2,3) by (auto simp: in_set_conv_nth)
  have "i = j"
  proof (rule ccontr)
    assume "i \<noteq> j"
    then have "disjoint_rows b b' \<or> disjoint_rows b' b"
      using assms(1) ij by (auto simp: sorted_wrt_iff_nth_less nat_neq_iff)
    then show False using overlap[of b b'] overlap[of b' b] assms(4-8) by metis
  qed
  then show ?thesis using ij by simp
qed

text \<open>
  C5: In every state that requests and sweeps can bring the platform to, failures inside a
  request included, each event up to the durable sequence of a recording lies in exactly one
  batch of the recording, and the object of that batch decodes to a payload with the SHA-256
  the catalogue has for it.
\<close>

theorem durable_events_have_evidence:
  assumes "platform_reachable L sv p" "hex_law L" "map_of (pf_recordings p) rec = Some r"
    "rc_sequence_base r < n" "n \<le> rc_durable_seq r"
  shows "\<exists>!b. b \<in> set (pf_batches p) \<and> br_recording b = rec \<and> br_first_seq b \<le> n \<and> n \<le> br_last_seq b
           \<and> object_holds L p b"
proof -
  note ok = reachable_catalogue_ok[OF assms(1,2), unfolded catalogue_ok_def]
  have "durable_covered r (rows_of p rec)" using ok assms(3) by blast
  then obtain b where b: "b \<in> set (pf_batches p)" "br_recording b = rec" "br_first_seq b \<le> n" "n \<le> br_last_seq b"
    using assms(4,5) by (auto simp: durable_covered_def rows_of_def)
  have dis: "sorted_wrt disjoint_rows (pf_batches p)" and holds: "object_holds L p b" using ok b(1) by blast+
  show ?thesis
  proof (rule ex1I[of _ b])
    show "b \<in> set (pf_batches p) \<and> br_recording b = rec \<and> br_first_seq b \<le> n \<and> n \<le> br_last_seq b \<and> object_holds L p b"
      using b holds by blast
    show "b' = b" if "b' \<in> set (pf_batches p) \<and> br_recording b' = rec \<and> br_first_seq b' \<le> n \<and> n \<le> br_last_seq b'
        \<and> object_holds L p b'" for b'
      using disjoint_rows_unique[OF dis, of b' b n] that b by simp
  qed
qed

section \<open>Projects do not reach each other\<close>

definition batches_of :: "uuid \<Rightarrow> platform \<Rightarrow> batch_row list" where
  "batches_of pj p = filter (\<lambda>b. case map_of (pf_recordings p) (br_recording b) of
                                   Some r \<Rightarrow> rc_project r = pj | None \<Rightarrow> False) (pf_batches p)"

definition project_kept :: "uuid \<Rightarrow> platform \<Rightarrow> platform \<Rightarrow> bool" where
  "project_kept pj p p' \<longleftrightarrow>
     (\<forall>k c. co_project c = pj \<longrightarrow> (map_of (pf_collectors p') k = Some c \<longleftrightarrow> map_of (pf_collectors p) k = Some c))
     \<and> (\<forall>k r. cr_project r = pj \<longrightarrow> (map_of (pf_runs p') k = Some r \<longleftrightarrow> map_of (pf_runs p) k = Some r))
     \<and> (\<forall>k r. rc_project r = pj \<longrightarrow> (map_of (pf_recordings p') k = Some r \<longleftrightarrow> map_of (pf_recordings p) k = Some r))
     \<and> batches_of pj p' = batches_of pj p
     \<and> (\<forall>d. map_of (pf_blobs p') (pj, d) = map_of (pf_blobs p) (pj, d))
     \<and> filter (\<lambda>(_, owner, _). owner = pj) (pf_refs p') = filter (\<lambda>(_, owner, _). owner = pj) (pf_refs p)"

text \<open>A principal as authentication gives it: its collector is one of its project.\<close>

definition authenticated :: "principal \<Rightarrow> platform \<Rightarrow> bool" where
  "authenticated pr p \<longleftrightarrow>
     (\<forall>cid. pr_collector pr = Some cid \<longrightarrow> (\<exists>c. map_of (pf_collectors p) cid = Some c \<and> co_project c = pr_project pr))"

definition project_prefix :: "service \<Rightarrow> principal \<Rightarrow> str" where
  "project_prefix sv pr = sv_uuid_text sv (pr_tenant pr) @ ''/'' @ sv_uuid_text sv (pr_project pr) @ ''/''"

lemma own_keys:
  "starts_with (batch_object_key sv pr h) (project_prefix sv pr)"
  "starts_with (BlobKey (sv_uuid_text sv) (pr_tenant pr) (pr_project pr) sha) (project_prefix sv pr)"
  by (simp_all add: batch_object_key_def RecordingPrefix_def BlobKey_def project_prefix_def starts_with_iff)

lemma batches_of_same:
  assumes "\<forall>k r. rc_project r = pj \<longrightarrow> (map_of (pf_recordings p') k = Some r \<longleftrightarrow> map_of (pf_recordings p) k = Some r)"
    "pf_batches p' = pf_batches p"
  shows "batches_of pj p' = batches_of pj p"
proof -
  have "(case map_of (pf_recordings p') k of Some r \<Rightarrow> rc_project r = pj | None \<Rightarrow> False)
      = (case map_of (pf_recordings p) k of Some r \<Rightarrow> rc_project r = pj | None \<Rightarrow> False)" for k
    using assms(1)[rule_format, of _ k] by (cases "map_of (pf_recordings p) k"; cases "map_of (pf_recordings p') k") fastforce+
  then show ?thesis by (simp add: batches_of_def assms(2))
qed

lemma project_keptI:
  assumes "\<And>k c. co_project c = pj \<Longrightarrow> map_of (pf_collectors p') k = Some c \<longleftrightarrow> map_of (pf_collectors p) k = Some c"
    "\<And>k r. cr_project r = pj \<Longrightarrow> map_of (pf_runs p') k = Some r \<longleftrightarrow> map_of (pf_runs p) k = Some r"
    "\<And>k r. rc_project r = pj \<Longrightarrow> map_of (pf_recordings p') k = Some r \<longleftrightarrow> map_of (pf_recordings p) k = Some r"
    "pf_batches p' = pf_batches p \<or> (\<exists>row r. pf_batches p' = pf_batches p @ [row]
       \<and> map_of (pf_recordings p') (br_recording row) = Some r \<and> rc_project r \<noteq> pj)"
    "others_kept own p p'" "own \<noteq> pj"
  shows "project_kept pj p p'"
proof -
  have "batches_of pj p' = batches_of pj p"
    using assms(4)
  proof (elim disjE exE conjE)
    assume "pf_batches p' = pf_batches p"
    then show ?thesis using assms(3) batches_of_same[of pj p' p] by blast
  next
    fix row r assume r: "pf_batches p' = pf_batches p @ [row]" "map_of (pf_recordings p') (br_recording row) = Some r" "rc_project r \<noteq> pj"
    have "batches_of pj (p'\<lparr>pf_batches := pf_batches p\<rparr>) = batches_of pj p"
      using assms(3) by (intro batches_of_same) auto
    then show ?thesis using r by (simp add: batches_of_def)
  qed
  moreover have only: "filter (\<lambda>(_, owner, _). owner = pj) refs
      = filter (\<lambda>(_, owner, _). owner = pj) (filter (\<lambda>(_, owner, _). owner \<noteq> own) refs)" for refs :: "(str \<times> uuid \<times> bytes) list"
    using assms(6) by (induction refs) auto
  have "filter (\<lambda>(_, owner, _). owner = pj) (pf_refs p') = filter (\<lambda>(_, owner, _). owner = pj) (pf_refs p)"
    using assms(5) only[of "pf_refs p"] only[of "pf_refs p'"] by (simp add: others_kept_def)
  moreover have "\<forall>d. map_of (pf_blobs p') (pj, d) = map_of (pf_blobs p) (pj, d)"
    using assms(5,6) by (auto simp: others_kept_def)
  ultimately show ?thesis unfolding project_kept_def using assms(1-3) by blast
qed

text \<open>What a request of a project may do to another one and to the objects.\<close>

definition stays_in_project :: "service \<Rightarrow> principal \<Rightarrow> uuid \<Rightarrow> platform \<Rightarrow> platform \<Rightarrow> bool" where
  "stays_in_project sv pr pj p p' \<longleftrightarrow>
     project_kept pj p p' \<and> objects_added (\<lambda>k. starts_with k (project_prefix sv pr)) p p'"

lemma stays_refl [simp]: "stays_in_project sv pr pj p p"
  by (simp add: stays_in_project_def project_kept_def)

lemma staysI:
  assumes "project_kept pj p p'" "objects_added (\<lambda>k. k = key) p p'" "starts_with key (project_prefix sv pr)"
  shows "stays_in_project sv pr pj p p'"
  using assms unfolding stays_in_project_def objects_added_def by metis

lemma staysI_same: "project_kept pj p p' \<Longrightarrow> pf_objects p' = pf_objects p \<Longrightarrow> stays_in_project sv pr pj p p'"
  by (simp add: stays_in_project_def)

lemmas kept_by_other = project_keptI[where own = "pr_project pr" for pr]

lemma register_stays:
  assumes "p' \<in> set (outcomes (Register sv now fresh pr q) p)" "pj \<noteq> pr_project pr"
  shows "stays_in_project sv pr pj p p'"
  using register_effect[OF assms(1)]
proof (elim disjE exE conjE)
  fix cid assume c: "p' = p\<lparr>pf_collectors := AList.update cid
       \<lparr>co_project = pr_project pr, co_status = ''online'', co_last_heartbeat = now\<rparr> (pf_collectors p)\<rparr>"
     "\<forall>c. map_of (pf_collectors p) cid = Some c \<longrightarrow> co_project c = pr_project pr"
  have "project_kept pj p p'" by (rule kept_by_other[where pr = pr]) (use c assms(2) in \<open>auto split: if_splits\<close>)
  then show ?thesis by (rule staysI_same) (simp add: c(1))
qed simp

lemma heartbeat_stays:
  assumes "p' \<in> set (outcomes (Heartbeat sv now pr cid q) p)" "authenticated pr p" "pj \<noteq> pr_project pr"
  shows "stays_in_project sv pr pj p p'"
  using heartbeat_effect[OF assms(1)]
proof (elim disjE exE conjE)
  fix c assume c: "pr_collector pr = Some cid" "map_of (pf_collectors p) cid = Some c"
    "p' = p\<lparr>pf_collectors := AList.update cid (c\<lparr>co_status := ''online'', co_last_heartbeat := now\<rparr>) (pf_collectors p)\<rparr>"
  then have "co_project c = pr_project pr" using assms(2) by (auto simp: authenticated_def)
  then have "project_kept pj p p'"
    by (intro kept_by_other[where pr = pr]) (use c assms(3) in \<open>auto split: if_splits\<close>)
  then show ?thesis by (rule staysI_same) (simp add: c(3))
qed simp

lemma create_stays:
  assumes "p' \<in> set (outcomes (CreateRecording is_object now pr q) p)" "pj \<noteq> pr_project pr"
  shows "stays_in_project sv pr pj p p'"
  using create_effect[OF assms(1)]
proof (elim disjE exE conjE)
  fix run assume run: "cr_project run = pr_project pr" "map_of (pf_runs p') = (map_of (pf_runs p))(cq_capture_run_id q \<mapsto> run)"
      "\<forall>r. map_of (pf_runs p) (cq_capture_run_id q) = Some r \<longrightarrow> cr_project r = pr_project pr"
    and same: "pf_collectors p' = pf_collectors p" "pf_batches p' = pf_batches p" "pf_blobs p' = pf_blobs p"
      "pf_refs p' = pf_refs p" "pf_objects p' = pf_objects p" "pf_recordings p' = pf_recordings p"
  have "project_kept pj p p'"
    by (rule kept_by_other[where pr = pr]) (use run assms(2) in \<open>auto simp: same split: if_splits\<close>)
  then show ?thesis by (rule staysI_same) (simp add: same)
next
  fix run assume run: "cr_project run = pr_project pr" "map_of (pf_runs p') = (map_of (pf_runs p))(cq_capture_run_id q \<mapsto> run)"
      "\<forall>r. map_of (pf_runs p) (cq_capture_run_id q) = Some r \<longrightarrow> cr_project r = pr_project pr"
    and same: "pf_collectors p' = pf_collectors p" "pf_batches p' = pf_batches p" "pf_blobs p' = pf_blobs p"
      "pf_refs p' = pf_refs p" "pf_objects p' = pf_objects p"
    and new: "map_of (pf_recordings p) (cq_recording_id q) = None"
      "pf_recordings p' = AList.update (cq_recording_id q) (new_recording now pr q) (pf_recordings p)"
  have "rc_project (new_recording now pr q) \<noteq> pj" using assms(2) by (simp add: new_recording_def)
  then have "project_kept pj p p'"
    by (intro kept_by_other[where pr = pr]) (use run assms(2) new in \<open>auto simp: same split: if_splits\<close>)
  then show ?thesis by (rule staysI_same) (simp add: same)
qed simp

lemma get_stays: "p' \<in> set (outcomes (GetRecording pr rec) p) \<Longrightarrow> stays_in_project sv pr pj p p'"
  by (drule get_effect) simp

lemma head_stays: "p' \<in> set (outcomes (BlobExists L pr sha) p) \<Longrightarrow> stays_in_project sv pr pj p p'"
  by (drule head_effect) simp

lemma batch_stays:
  assumes "p' \<in> set (outcomes (UploadBatch L sv now pr rec body) p)" "hex_law L" "pj \<noteq> pr_project pr"
  shows "stays_in_project sv pr pj p p'"
  using assms(1)
proof (cases rule: batch_effect[OF assms(2), consumes 1, case_names none touched recorded])
  case (touched r h compressed)
  then have "project_kept pj p p'" using assms(3) by (intro kept_by_other[where pr = pr]) (auto split: if_splits)
  then show ?thesis using touched(8) own_keys(1) by (rule staysI)
next
  case (recorded r h row missing compressed)
  then have "project_kept pj p p'" using assms(3) by (intro kept_by_other[where pr = pr]) (auto split: if_splits)
  then show ?thesis using recorded(14) own_keys(1) by (rule staysI)
qed simp

lemma put_stays:
  assumes "p' \<in> set (outcomes (PutBlob L sv pr sha body) p)" and other: "pj \<noteq> pr_project pr"
  shows "stays_in_project sv pr pj p p'"
proof -
  note e = put_effect[OF assms(1)]
  have recs: "map_of (pf_recordings p') k = Some r \<longleftrightarrow> map_of (pf_recordings p) k = Some r" if "rc_project r = pj" for k r
  proof
    assume r: "map_of (pf_recordings p') k = Some r"
    then obtain r0 where "map_of (pf_recordings p) k = Some r0" "same_but_missing r0 r"
      using e(7)[rule_format, of k] by (auto elim: option.rel_cases)
    moreover from this have "rc_project r0 = pj" using that by (auto simp: same_but_missing_def)
    ultimately show "map_of (pf_recordings p) k = Some r" using e(8) other r by auto
  qed (use e(8) that other in auto)
  have "others_kept (pr_project pr) p p'" using e(4,9) by (simp add: others_kept_def)
  then have "project_kept pj p p'"
    using recs by (intro kept_by_other[where pr = pr, OF _ _ _ _ _ other[symmetric]]) (simp_all add: e(1,2,3))
  then show ?thesis using e(6) own_keys(2) by (rule staysI)
qed

lemma seal_stays:
  assumes "p' \<in> set (outcomes (Seal L now pr rec q) p)" and ok: "catalogue_ok L' p" and other: "pj \<noteq> pr_project pr"
  shows "stays_in_project sv pr pj p p'"
  using assms(1)
proof (cases rule: seal_effect[consumes 1, case_names none sealed])
  case (sealed digest r r')
  have r': "rc_project r' = pr_project pr" using seal_row_ok(1)[OF sealed(5)] sealed(2) by simp
  obtain run where run: "map_of (pf_runs p) (rc_run r) = Some run" "cr_project run = pr_project pr"
    using ok sealed(1,2) unfolding catalogue_ok_def by metis
  have "map_of (pf_runs p') k = Some x \<longleftrightarrow> map_of (pf_runs p) k = Some x" if "cr_project x = pj" for k x
    using sealed(7)[rule_format, of k] run that other by auto
  then have "project_kept pj p p'" using sealed r' other by (intro kept_by_other[where pr = pr]) auto
  then show ?thesis by (rule staysI_same) (simp add: sealed(12))
qed simp

text \<open>
  C6: A request of one project, whatever its outcome, leaves every collector, run, recording,
  batch, blob and blob reference of any other project as it was, replaces no object, and adds
  objects only under the prefix of the caller's tenant and project.
\<close>

theorem requests_stay_in_project:
  assumes "hex_law L" "catalogue_ok L p" "authenticated pr p" "pj \<noteq> pr_project pr"
    and "p' \<in> set (serve L sv now fresh pr rq p)"
  shows "project_kept pj p p' \<and> objects_added (\<lambda>k. starts_with k (project_prefix sv pr)) p p'"
proof -
  have "stays_in_project sv pr pj p p'"
    using assms register_stays heartbeat_stays create_stays batch_stays put_stays seal_stays get_stays head_stays
    by (cases rq) (auto simp: serve_def)
  then show ?thesis by (simp add: stays_in_project_def)
qed

section \<open>A concrete platform for witnesses\<close>

definition demo_service :: service where
  "demo_service = \<lparr>sv_uuid_text = decimal, sv_max_project_storage_bytes = 0, sv_is_object = (\<lambda>_. True),
     sv_capabilities_ok = (\<lambda>_. True), sv_effective_config = (\<lambda>_. (0, JObject []))\<rparr>"

definition demo_principal :: principal where
  "demo_principal = \<lparr>pr_tenant = 4, pr_project = 2, pr_collector = Some 3\<rparr>"

definition demo_create :: create_request where
  "demo_create = \<lparr>cq_recording_id = ''r#0000'', cq_capture_run_id = ''r'', cq_segment_no = 0, cq_sequence_base = 0,
     cq_schema_version = 1, cq_run = None\<rparr>"

definition demo_wire :: bytes where
  "demo_wire = ''{H}'' @ newline # demo_body"

definition demo_collectors :: platform where
  "demo_collectors = empty_platform\<lparr>pf_collectors := [(3, \<lparr>co_project = 2, co_status = ''online'', co_last_heartbeat = 6\<rparr>)]\<rparr>"

definition demo_open :: platform where
  "demo_open = demo_collectors\<lparr>
     pf_runs := [(''r'', \<lparr>cr_project = 2, cr_collector = Some 3, cr_state = ''active'', cr_ended_at = None\<rparr>)],
     pf_recordings := [(''r#0000'', new_recording 6 demo_principal demo_create)]\<rparr>"

definition demo_received :: platform where
  "demo_received = demo_open\<lparr>
     pf_recordings := [(''r#0000'', (new_recording 6 demo_principal demo_create)\<lparr>rc_durable_seq := 2\<rparr>)],
     pf_batches := [\<lparr>br_recording = ''r#0000'', br_batch_id = batch_id ''r#0000'' 1 2, br_first_seq = 1, br_last_seq = 2,
       br_event_count = 2, br_byte_length = length demo_body, br_sha256 = sha256 demo_crates demo_body,
       br_object_key = batch_object_key demo_service demo_principal (plan_header ''r#0000'' demo_plan)\<rparr>],
     pf_objects := [(batch_object_key demo_service demo_principal (plan_header ''r#0000'' demo_plan), demo_wire)]\<rparr>"

lemma demo_registered:
  "Register demo_service 6 3 (demo_principal\<lparr>pr_collector := None\<rparr>)
     \<lparr>rq_collector_id = None, rq_name = ''iorec'', rq_version = ''iorec/1'', rq_hostname = ''redacted'', rq_os = ''linux'',
      rq_capabilities = ''{}''\<rparr> empty_platform
   = ((Accepted 200 \<lparr>rg_collector_id = 3, rg_config_version = 0, rg_config = JObject []\<rparr>, demo_collectors), [])"
  by (simp add: Register_def transaction_def demo_service_def demo_principal_def empty_platform_def demo_collectors_def
        has_line_or_nul_def)

lemma demo_created:
  "CreateRecording (sv_is_object demo_service) 6 demo_principal demo_create demo_collectors = ((Accepted 201 (), demo_open), [])"
  by (simp add: CreateRecording_def transaction_def demo_create_def valid_create_identity_def has_line_or_nul_def
        upsert_capture_run_def ensure_recording_def insert_recording_def find_segment_def demo_principal_def
        demo_open_def demo_collectors_def empty_platform_def new_recording_def)

lemma demo_batch_id: "length (batch_id ''r#0000'' 1 2) = 32"
  by code_simp

lemma demo_decoded: "ReadBatchBody demo_upload demo_wire = Inr (plan_header ''r#0000'' demo_plan, demo_body, demo_body)"
proof -
  have "ValidateHeaderRange (plan_header ''r#0000'' demo_plan) = Inr ()"
    using demo_batch_id
    by (simp add: ValidateHeaderRange_def plan_header_def demo_plan_def demo_body_def batch_id_def MaxBatchEvents_def
          MaxBatchDecodedBytes_def MaxBatchBlobRefs_def)
  then have "decodeBatchHeader demo_upload (''{H}'' @ [newline]) = Inr (plan_header ''r#0000'' demo_plan)"
    by (simp add: decodeBatchHeader_def demo_upload_fields strip_suffix_or_def)
  moreover have "newline \<notin> set ''{H}''" by simp
  ultimately show ?thesis
    by (simp add: ReadBatchBody_def Let_def demo_wire_def demo_upload_fields MaxBatchBytes_def MaxBatchHeaderBytes_def
          plan_header_def demo_plan_def) (simp add: demo_body_def)
qed

lemma demo_parsed: "ParseEvents demo_upload (plan_header ''r#0000'' demo_plan) demo_body = Inr ()"
  by (simp add: ParseEvents_def MaxBatchDecodedBytes_def demo_body_def demo_upload_fields plan_header_def demo_plan_def Let_def
        drop_carriage_return_def MaxEventBytes_def MaxBatchEvents_def in_byte_range_def byte_val_def)

lemma advance_durable_once:
  "advance_durable (Suc (Suc n)) rec [b] (br_first_seq b - 1) = br_last_seq b"
  if "br_recording b = rec" "0 < br_first_seq b" "br_first_seq b \<le> br_last_seq b"
  using that by simp

lemma demo_uploaded:
  "UploadBatch demo_upload demo_service 6 demo_principal ''r#0000'' demo_wire demo_open
   = ((Accepted 200 \<lparr>ba_recording_id = ''r#0000'', ba_durable_seq = 2, ba_state = ''open'', ba_missing_blobs = []\<rparr>, demo_received),
      [put_object (batch_object_key demo_service demo_principal (plan_header ''r#0000'' demo_plan)) demo_wire demo_open])"
proof -
  let ?h = "plan_header ''r#0000'' demo_plan" and ?r = "new_recording 6 demo_principal demo_create"
  let ?key = "batch_object_key demo_service demo_principal ?h"
  let ?stored = "put_object ?key demo_wire demo_open"
  have h: "bh_recording_id ?h = ''r#0000''" "bh_first_seq ?h = 1" "bh_last_seq ?h = 2" "bh_blobs ?h = []"
      "bh_sha256 ?h = hex_encode demo_upload (sha256 demo_upload demo_body)" "bh_byte_length ?h = length demo_body"
      "bh_batch_id ?h = batch_id ''r#0000'' 1 2" "bh_event_count ?h = 2"
    by (simp_all add: plan_header_def demo_plan_def demo_upload_fields)
  have valid: "ValidateHeaderRange ?h = Inr ()"
    using demo_decoded by (auto simp: ReadBatchBody_def Let_def decodeBatchHeader_def and_then_eq_Inr)
  have "admit_batch demo_upload demo_principal ''r#0000'' demo_wire demo_open = Inr (?h, demo_body, ?r)"
    by (simp add: admit_batch_def demo_decoded demo_parsed valid h demo_open_def)
      (simp add: new_recording_def demo_principal_def demo_create_def)
  moreover have "hex_decode demo_upload (bh_sha256 ?h) = Some (sha256 demo_upload demo_body)"
    using demo_upload_laws(1) by (simp add: h hex_law_def)
  moreover have "verifyBatchObject demo_upload ?stored ?key ?h = Inr ()"
    by (simp add: verifyBatchObject_def put_object_def demo_open_def demo_collectors_def empty_platform_def demo_decoded)
  moreover have "advance_durable 100000 ''r#0000'' [b] 0 = 2" if "br_recording b = ''r#0000''" "br_first_seq b = 1" "br_last_seq b = 2" for b
    using advance_durable_once[of b "''r#0000''" 99998] that by simp
  moreover have "WriteBatchBody demo_upload ?h demo_body = demo_wire"
    by (simp add: WriteBatchBody_def demo_upload_fields demo_wire_def)
  moreover have "checkProjectStorage 0 demo_open 2 (length demo_body) = Inr ()"
    by (simp add: checkProjectStorage_def demo_open_def demo_collectors_def empty_platform_def demo_body_def DefaultMaxProjectStorageBytes_def)
  moreover have o: "pf_batches demo_open = []" "rc_project ?r = 2" "rc_durable_seq ?r = 0" "rc_state ?r = ''open''"
      "rc_missing_blobs ?r = []" "sv_max_project_storage_bytes demo_service = 0"
    by (simp_all add: demo_open_def demo_collectors_def empty_platform_def new_recording_def demo_service_def
          demo_principal_def demo_create_def)
  moreover have "?stored\<lparr>pf_batches := [\<lparr>br_recording = ''r#0000'', br_batch_id = batch_id ''r#0000'' 1 2, br_first_seq = 1,
       br_last_seq = 2, br_event_count = 2, br_byte_length = length demo_body, br_sha256 = sha256 demo_upload demo_body,
       br_object_key = ?key\<rparr>], pf_recordings := AList.update ''r#0000'' (?r\<lparr>rc_durable_seq := 2, rc_updated_at := 6, rc_missing_blobs := []\<rparr>) (pf_recordings ?stored)\<rparr>
     = demo_received"
    by (simp add: demo_received_def demo_open_def put_object_def demo_collectors_def empty_platform_def new_recording_def demo_upload_fields)
  ultimately show ?thesis
    by (simp add: UploadBatch_def register_batch_def after_object_def record_new_batch_def Let_def h missing_blobs_def put_object_effect)
qed

lemma demo_reachable:
  "platform_reachable demo_upload demo_service demo_open" "platform_reachable demo_upload demo_service demo_received"
proof -
  note e = reach_empty[of demo_upload demo_service]
  have "demo_collectors \<in> set (serve demo_upload demo_service 6 3 (demo_principal\<lparr>pr_collector := None\<rparr>)
    (Register_request \<lparr>rq_collector_id = None, rq_name = ''iorec'', rq_version = ''iorec/1'', rq_hostname = ''redacted'', rq_os = ''linux'',
      rq_capabilities = ''{}''\<rparr>) empty_platform)"
    by (simp add: serve_def outcomes_def demo_registered)
  note c = reach_served[OF e this]
  have "demo_open \<in> set (serve demo_upload demo_service 6 3 demo_principal (Create_request demo_create) demo_collectors)"
    by (simp add: serve_def outcomes_def demo_created)
  note o = reach_served[OF c this]
  have "demo_received \<in> set (serve demo_upload demo_service 6 3 demo_principal (Batch_request ''r#0000'' demo_wire) demo_open)"
    by (simp add: serve_def outcomes_def demo_uploaded)
  from o reach_served[OF o this] show "platform_reachable demo_upload demo_service demo_open"
    "platform_reachable demo_upload demo_service demo_received" by blast+
qed

theorem durable_events_have_evidence_witness:
  "\<exists>!b. b \<in> set (pf_batches demo_received) \<and> br_recording b = ''r#0000'' \<and> br_first_seq b \<le> 2 \<and> 2 \<le> br_last_seq b
     \<and> object_holds demo_upload demo_received b"
  using durable_events_have_evidence[OF demo_reachable(2) demo_upload_laws(1),
      of "''r#0000''" "(new_recording 6 demo_principal demo_create)\<lparr>rc_durable_seq := 2\<rparr>" 2]
  by (simp add: demo_received_def new_recording_def demo_create_def)

theorem requests_stay_in_project_witness:
  "project_kept 9 demo_open demo_received
   \<and> objects_added (\<lambda>k. starts_with k (project_prefix demo_service demo_principal)) demo_open demo_received
   \<and> pf_objects demo_received \<noteq> pf_objects demo_open"
proof -
  have "catalogue_ok demo_upload demo_open" by (rule reachable_catalogue_ok[OF demo_reachable(1)]) simp
  moreover have "authenticated demo_principal demo_open"
    by (simp add: authenticated_def demo_open_def demo_principal_def demo_collectors_def)
  moreover have "demo_received \<in> set (serve demo_upload demo_service 6 3 demo_principal (Batch_request ''r#0000'' demo_wire) demo_open)"
    by (simp add: serve_def outcomes_def demo_uploaded)
  ultimately show ?thesis using requests_stay_in_project[of demo_upload demo_open demo_principal 9 demo_received demo_service 6 3
        "Batch_request ''r#0000'' demo_wire"]
    by (simp add: demo_received_def demo_open_def demo_collectors_def empty_platform_def) (simp add: demo_principal_def)
qed

end
