(* ===== verification/Upload_Client.thy ===== *)
theory Upload_Client
  imports Platform_Ingest Blob_Store
begin

text \<open>
  The networked side of \<open>src/upload.rs\<close>: the HTTP client with its retry loop, the upload of a
  finished run, flush and seal of an active one, and the backfill of a range. A client operation
  is a function on a world: the platform, the spool directory, and scripts that say what happens
  to each request and to each write of a state file. A request or its response can be lost, a
  server failure can leave a handler half done, an intermediary can turn the request away, and
  the process can be killed before or after a request or a write; with the scripts used up,
  everything is delivered and written. The spool lock serializes the operations. They start with
  an accepted API URL and token and an authenticated manifest. The finished run and the active one
  share the steps below; the few messages in which the source words them differently are those of
  the finished run.
\<close>

section \<open>World\<close>

datatype delivery =
  Delivered | Request_lost | Response_lost | Response_cut | Server_failed nat
| Turned_away nat "nat option" | Killed_before | Killed_after

record attempt =
  at_delivery :: delivery
  at_took :: nat
  at_fresh_uuid :: uuid

datatype write_outcome = Written | Not_written | Not_synced

record world =
  wd_platform :: platform
  wd_spool :: "(str \<times> bytes) list"
  wd_net :: "attempt list"
  wd_disk :: "write_outcome list"
  wd_heartbeat_due :: "bool list"

type_synonym 'a client = "world \<Rightarrow> (upload_error + 'a) \<times> world"

definition cbind :: "'a client \<Rightarrow> ('a \<Rightarrow> 'b client) \<Rightarrow> 'b client" where
  "cbind m f = (\<lambda>w. case m w of (Inl e, w') \<Rightarrow> (Inl e, w') | (Inr a, w') \<Rightarrow> f a w')"

definition lift :: "upload_error + 'a \<Rightarrow> 'a client" where
  "lift r = (\<lambda>w. (r, w))"

abbreviation cguard :: "bool \<Rightarrow> str \<Rightarrow> unit client" where
  "cguard b message \<equiv> lift (check b message)"

abbreviation creturn :: "'a \<Rightarrow> 'a client" where
  "creturn a \<equiv> lift (Inr a)"

text \<open>The environment of an invocation: the clocks, what the manifest and the clock give the heartbeat
  (bytes on disk, seconds since the run finished), the service and its caller, and the options.\<close>

record invocation =
  iv_now :: int
  iv_platform_now :: nat
  iv_spool_bytes :: nat
  iv_lag_seconds :: nat
  iv_service :: service
  iv_principal :: principal
  iv_api_origin :: str
  iv_retry_for :: nat
  iv_max_batches :: "nat option"
  iv_collector_id :: "uuid option"

text \<open>What the operations read of the run: manifest, inspection, events, blobs.\<close>

record run_source =
  so_run_id :: str
  so_status :: str
  so_manifest :: bytes
  so_capabilities :: bytes
  so_metadata :: run_metadata
  so_recorder :: str
  so_os :: str
  so_valid_events :: nat
  so_discarded_tail_bytes :: nat
  so_missing_blobs :: "str list"
  so_corrupt_blobs :: "str list"
  so_reader :: "(storage_error + event_envelope) list"
  so_run_dir :: run_dir
  so_key :: "encryption_key option"

section \<open>Target and token\<close>

text \<open>A parsed URL by what \<open>Url\<close> tells of it.\<close>

record api_url =
  au_scheme :: str
  au_host :: "str option"
  au_username :: str
  au_password :: "str option"
  au_path :: str
  au_query :: "str option"
  au_fragment :: "str option"

definition validate_api :: "api_url \<Rightarrow> bool \<Rightarrow> upload_error + unit" where
  "validate_api api allow_http =
     and_then (check (au_host api \<noteq> None) ''platform API URL must have a host'') (\<lambda>_.
     and_then (check (au_username api = [] \<and> au_password api = None)
       ''platform API URL must not contain user information'') (\<lambda>_.
     and_then (check (au_query api = None \<and> au_fragment api = None)
       ''platform API URL must not contain a query or fragment'') (\<lambda>_.
     and_then (check (au_path api = [] \<or> au_path api = ''/'') ''platform API URL must not contain a path'') (\<lambda>_.
     if au_scheme api = ''https'' then Inr ()
     else if au_scheme api = ''http''
     then check allow_http ''plain HTTP requires the explicit --allow-http option''
     else Inl (UMessage ''platform API URL must use https'')))))"

definition MAX_TOKEN_BYTES :: nat where "MAX_TOKEN_BYTES = 2048"

text \<open>\<open>read_token\<close> on the mode bits and the contents of the opened file.\<close>

definition read_token :: "nat \<Rightarrow> bytes \<Rightarrow> upload_error + str" where
  "read_token mode contents =
     and_then (check (mode mod 64 = 0) ''platform token file must not be accessible by group or other users'') (\<lambda>_.
     and_then (check (length contents \<le> MAX_TOKEN_BYTES) ''platform token exceeds the safety limit'') (\<lambda>_.
     and_then (check (utf8_valid contents) ''platform token is not UTF-8'') (\<lambda>_.
     let token = rev (dropWhile (\<lambda>c. c = carriage_return \<or> c = newline) (rev contents)) in
     and_then (check (token \<noteq> []) ''platform token file is empty'') (\<lambda>_.
     and_then (check (list_all (in_byte_range 33 126) token) ''platform token contains whitespace or control bytes'') (\<lambda>_.
     Inr token)))))"

section \<open>Requests\<close>

definition response_status :: "'r response \<Rightarrow> nat" where
  "response_status r = (case r of Accepted s _ \<Rightarrow> s | Refused s _ \<Rightarrow> s)"

definition retryable_status :: "nat \<Rightarrow> bool" where
  "retryable_status s \<longleftrightarrow> s \<in> {408, 425, 429, 500, 502, 503, 504}"

text \<open>The \<open>Retry-After\<close> header in milliseconds: the platform sends five seconds with 429 and 503.\<close>

definition retry_after :: "delivery \<Rightarrow> 'r response \<Rightarrow> nat option" where
  "retry_after d r =
     (case d of
        Turned_away _ after \<Rightarrow> map_option (\<lambda>s. 1000 * s) after
      | _ \<Rightarrow> if response_status r = 429 \<or> response_status r = 503 then Some 5000 else None)"

text \<open>In milliseconds; the attempt counter is a \<open>u32\<close>.\<close>

definition retry_delay :: "nat \<Rightarrow> nat \<Rightarrow> nat \<Rightarrow> nat option \<Rightarrow> nat option" where
  "retry_delay retry_for elapsed attempt after =
     (if retry_for = 0 then None
      else
        let exponential = 250 * 2 ^ min attempt 7;
            jitter = ((attempt * 73) mod 2 ^ 32 + 41) mod 251;
            delay = min (case after of Some d \<Rightarrow> d | None \<Rightarrow> exponential + jitter) 30000 in
        if elapsed + delay \<le> retry_for then Some delay else None)"

text \<open>One attempt: the response if one arrives, and the platform afterwards.\<close>

datatype 'r arrival = Arrived "'r response" | Lost | Cut | Dead

definition deliver :: "delivery \<Rightarrow> 'r handler \<Rightarrow> platform \<Rightarrow> 'r arrival \<times> platform" where
  "deliver d h p =
     (let ((response, p'), partial) = h p in
      case d of
        Delivered \<Rightarrow> (Arrived response, p')
      | Request_lost \<Rightarrow> (Lost, p)
      | Response_lost \<Rightarrow> (Lost, p')
      | Response_cut \<Rightarrow> (Cut, p')
      | Server_failed i \<Rightarrow> (Arrived (Refused 500 ''internal''), if i < length partial then partial ! i else p)
      | Turned_away status _ \<Rightarrow> (Arrived (Refused status ''unclassified''), p)
      | Killed_before \<Rightarrow> (Dead, p)
      | Killed_after \<Rightarrow> (Dead, p'))"

definition quiet :: attempt where
  "quiet = \<lparr>at_delivery = Delivered, at_took = 0, at_fresh_uuid = 3\<rparr>"

definition next_attempt :: "world \<Rightarrow> attempt" where
  "next_attempt w = (case wd_net w of [] \<Rightarrow> quiet | a # _ \<Rightarrow> a)"

lemma retry_delay_bound: "retry_delay retry_for elapsed attempt after = Some d \<Longrightarrow> elapsed + d \<le> retry_for"
  by (auto simp: retry_delay_def Let_def split: if_splits)

lemma retry_delay_pos: "retry_delay retry_for elapsed attempt after = Some d \<Longrightarrow> after \<noteq> Some 0 \<Longrightarrow> 0 < d"
  by (auto simp: retry_delay_def Let_def split: if_splits option.splits)

lemma retry_after_delivered: "retry_after Delivered r \<noteq> Some 0"
  by (simp add: retry_after_def)

lemma retry_decreases:
  assumes "retry_delay retry_for (elapsed + at_took (next_attempt w)) attempt after = Some d"
    and "wd_net w = [] \<Longrightarrow> after \<noteq> Some 0"
  shows "((retry_for, h, attempt', elapsed + at_took (next_attempt w) + d, w\<lparr>wd_platform := p, wd_net := tl (wd_net w)\<rparr>),
          (retry_for, h, attempt, elapsed, w))
         \<in> measures [\<lambda>(_, _, _, _, w). length (wd_net w), \<lambda>(retry_for, _, _, elapsed, _). retry_for - elapsed]"
  using retry_delay_bound[OF assms(1)] retry_delay_pos[OF assms(1)] assms(2) by (cases "wd_net w") auto

text \<open>The loop of \<open>request\<close>, with the attempt counter and the elapsed time. A handler may draw the
  fresh identifier of the attempt.\<close>

function request_loop :: "nat \<Rightarrow> (uuid \<Rightarrow> 'r handler) \<Rightarrow> nat \<Rightarrow> nat \<Rightarrow> world \<Rightarrow> (upload_error + 'r response) \<times> world" where
  "request_loop retry_for h attempt elapsed w =
     (let a = next_attempt w;
          (arrival, p) = deliver (at_delivery a) (h (at_fresh_uuid a)) (wd_platform w);
          w' = w\<lparr>wd_platform := p, wd_net := tl (wd_net w)\<rparr>;
          elapsed' = elapsed + at_took a in
      case arrival of
        Dead \<Rightarrow> (Inl UKilled, w')
      | Cut \<Rightarrow> (Inl UNoResponse, w')
      | Lost \<Rightarrow>
          (case retry_delay retry_for elapsed' attempt None of
             Some delay \<Rightarrow> request_loop retry_for h (min (attempt + 1) (2 ^ 32 - 1)) (elapsed' + delay) w'
           | None \<Rightarrow> (Inl UNoResponse, w'))
      | Arrived response \<Rightarrow>
          if \<not> retryable_status (response_status response) then (Inr response, w')
          else
            (case retry_delay retry_for elapsed' attempt (retry_after (at_delivery a) response) of
               Some delay \<Rightarrow> request_loop retry_for h (min (attempt + 1) (2 ^ 32 - 1)) (elapsed' + delay) w'
             | None \<Rightarrow> (Inr response, w')))"
  by pat_completeness auto

termination
  by (relation "measures [\<lambda>(_, _, _, _, w). length (wd_net w), \<lambda>(retry_for, _, _, elapsed, _). retry_for - elapsed]")
    (simp, (simp only: prod.inject,
      rule retry_decreases, assumption,
      simp add: next_attempt_def quiet_def retry_after_delivered)+)

declare request_loop.simps [simp del]

definition request :: "invocation \<Rightarrow> (uuid \<Rightarrow> 'r handler) \<Rightarrow> 'r response client" where
  "request iv h = request_loop (iv_retry_for iv) h 0 0"

text \<open>\<open>require_status\<close> with the decoded body; the statuses a handler accepts with are those the client
  accepts.\<close>

definition require_status :: "nat list \<Rightarrow> 'r response \<Rightarrow> upload_error + 'r" where
  "require_status accepted r =
     (case r of
        Accepted s body \<Rightarrow> if s \<in> set accepted then Inr body else Inl (UHttp s ''unclassified'')
      | Refused s code \<Rightarrow> Inl (UHttp s code))"

definition call :: "invocation \<Rightarrow> nat list \<Rightarrow> (uuid \<Rightarrow> 'r handler) \<Rightarrow> 'r client" where
  "call iv accepted h = cbind (request iv h) (\<lambda>r. lift (require_status accepted r))"

section \<open>The platform client\<close>

definition session :: "invocation \<Rightarrow> uuid \<Rightarrow> principal" where
  "session iv cid = (iv_principal iv)\<lparr>pr_collector := Some cid\<rparr>"

definition client_register :: "invocation \<Rightarrow> run_source \<Rightarrow> uuid option \<Rightarrow> registration client" where
  "client_register iv src collector =
     cbind (call iv [200] (\<lambda>fresh. Register (iv_service iv) (iv_platform_now iv) fresh (iv_principal iv)
       \<lparr>rq_collector_id = collector, rq_name = ''iorec'', rq_version = ''iorec/'' @ so_recorder src,
        rq_hostname = ''redacted'', rq_os = so_os src, rq_capabilities = so_capabilities src\<rparr>)) (\<lambda>reg.
     cbind (cguard (rg_collector_id reg \<noteq> 0) ''platform returned a nil collector ID'') (\<lambda>_.
     cbind (cguard (rg_config_version reg \<ge> 0) ''platform returned an invalid config version'') (\<lambda>_.
     cbind (cguard (case rg_config reg of JObject _ \<Rightarrow> True | _ \<Rightarrow> False)
       ''platform returned a non-object collector configuration'') (\<lambda>_.
     creturn reg))))"

definition client_heartbeat :: "invocation \<Rightarrow> uuid \<Rightarrow> upload_state \<Rightarrow> unit client" where
  "client_heartbeat iv cid st =
     call iv [200] (\<lambda>_. Heartbeat (iv_service iv) (iv_platform_now iv) (session iv cid) cid
       \<lparr>hb_status = ''healthy'', hb_active_runs = 0, hb_spool_bytes_used = int (iv_spool_bytes iv),
        hb_acked_lag_seconds = int (iv_lag_seconds iv), hb_config_version = us_config_version st, hb_capabilities = []\<rparr>)"

definition client_create_recording :: "invocation \<Rightarrow> run_source \<Rightarrow> uuid \<Rightarrow> str \<Rightarrow> nat \<Rightarrow> nat \<Rightarrow> unit client" where
  "client_create_recording iv src cid rec segment base =
     call iv [201, 200] (\<lambda>_. CreateRecording (sv_is_object (iv_service iv)) (iv_platform_now iv) (session iv cid)
       \<lparr>cq_recording_id = rec, cq_capture_run_id = so_run_id src, cq_segment_no = segment,
        cq_sequence_base = base, cq_schema_version = 1, cq_run = Some (so_metadata src)\<rparr>)"

definition client_get_recording :: "invocation \<Rightarrow> uuid \<Rightarrow> str \<Rightarrow> remote_recording client" where
  "client_get_recording iv cid rec = call iv [200] (\<lambda>_. GetRecording (session iv cid) rec)"

definition ensure_blob ::
  "('x) upload_codecs_scheme \<Rightarrow> invocation \<Rightarrow> run_source \<Rightarrow> uuid \<Rightarrow> blob_plan \<Rightarrow> bool \<Rightarrow> unit client" where
  "ensure_blob L iv src cid plan force =
     (let put =
        cbind (lift (map_err UIo (read_blob_reference L (so_run_dir src)
          \<lparr>pr_sha256 = ''sha256:'' @ bp_sha256 plan, pr_size = bp_size plan, pr_media_type = bp_media_type plan,
           pr_truncated = False\<rparr> (so_key src) MAX_SINGLE_BLOB_BYTES))) (\<lambda>contents.
        cbind (cguard (header_value_ok L (case bp_media_type plan of Some m \<Rightarrow> m | None \<Rightarrow> ''application/octet-stream''))
          ''failed to parse header value'') (\<lambda>_.
        cbind (call iv [201, 200] (\<lambda>_. PutBlob L (iv_service iv) (session iv cid) (bp_sha256 plan) contents)) (\<lambda>_.
        creturn ()))) in
      if force then put
      else
        cbind (request iv (\<lambda>_. BlobExists L (session iv cid) (bp_sha256 plan))) (\<lambda>head.
        (case head of
           Accepted s n \<Rightarrow>
             if s = 200 then cguard (n = bp_size plan) ''platform blob size conflicts with local evidence''
             else lift (Inl (UHttp s ''platform rejected blob lookup''))
         | Refused s _ \<Rightarrow>
             if s = 404 then put else lift (Inl (UHttp s ''platform rejected blob lookup'')))))"

definition client_upload_batch ::
  "('x) upload_codecs_scheme \<Rightarrow> invocation \<Rightarrow> uuid \<Rightarrow> str \<Rightarrow> bytes \<Rightarrow> batch_ack client" where
  "client_upload_batch L iv cid rec body =
     call iv [200] (\<lambda>_. UploadBatch L (iv_service iv) (iv_platform_now iv) (session iv cid) rec body)"

definition client_seal_recording ::
  "('x) upload_codecs_scheme \<Rightarrow> invocation \<Rightarrow> run_source \<Rightarrow> uuid \<Rightarrow> str \<Rightarrow> nat \<Rightarrow> bool \<Rightarrow> unit client" where
  "client_seal_recording L iv src cid rec final run_final =
     call iv [200] (\<lambda>_. Seal L (iv_platform_now iv) (session iv cid) rec
       \<lparr>sq_final_seq = final, sq_manifest = (if run_final then so_manifest src else []),
        sq_manifest_sha256 = (if run_final then hex_encode L (sha256 L (so_manifest src)) else []),
        sq_run_final = Some run_final\<rparr>)"

text \<open>\<open>config_rejections\<close>: the settings of the platform that the upload does not follow, by name.\<close>

definition is_json_object :: "json \<Rightarrow> bool" where
  "is_json_object v = (case v of JObject _ \<Rightarrow> True | _ \<Rightarrow> False)"

definition upload_section_rejections :: "json \<Rightarrow> upload_error + str list" where
  "upload_section_rejections value =
     and_then (check (is_json_object value) ''upload config is not an object'') (\<lambda>_.
     and_then
       (case json_get value ''batch_max_bytes'' of
          None \<Rightarrow> Inr []
        | Some v \<Rightarrow>
            and_then (ok_or (as_u64 v) (UMessage ''upload.batch_max_bytes is not an unsigned integer'')) (\<lambda>bytes.
            and_then (check (bytes > 0) ''upload.batch_max_bytes is zero'') (\<lambda>_.
            Inr (if bytes \<noteq> DEFAULT_BATCH_BYTES then [''upload.batch_max_bytes''] else [])))) (\<lambda>first.
     Inr (first @ map (\<lambda>field. ''upload.'' @ field)
       (filter (\<lambda>field. json_get value field \<noteq> None) [''batch_max_age_ms'', ''rate_limit_bytes_per_s'']))))"

fun section_rejections :: "(str \<times> json) list \<Rightarrow> upload_error + str list" where
  "section_rejections [] = Inr []"
| "section_rejections ((section, value) # sections) =
     and_then (check (section \<noteq> [] \<and> length section \<le> 128 \<and> list_all (in_byte_range 33 126) section)
       ''platform collector configuration has an invalid section name'') (\<lambda>_.
     and_then
       (if section = ''upload'' then upload_section_rejections value
        else if section \<in> {''content_policy'', ''sensitive_tier_upload'', ''retention_local'', ''egress_classification''}
        then and_then (check (is_json_object value) (section @ '' is not an object'')) (\<lambda>_. Inr [section])
        else Inr [section]) (\<lambda>rejected.
     and_then (section_rejections sections) (\<lambda>more_rejected.
     Inr (rejected @ more_rejected))))"

definition config_rejections :: "('x) upload_codecs_scheme \<Rightarrow> json \<Rightarrow> upload_error + str list" where
  "config_rejections L config =
     and_then (ok_or (config_to_vec L config) UJson) (\<lambda>encoded.
     and_then (map_err UIo (validate_json_complexity encoded)) (\<lambda>_.
     (case config of
        JObject sections \<Rightarrow>
          and_then (check (length sections \<le> 32) ''platform collector configuration has too many sections'') (\<lambda>_.
          section_rejections sections)
      | _ \<Rightarrow> Inl (UMessage ''platform collector configuration is not an object''))))"

section \<open>State files\<close>

text \<open>\<open>write_state\<close>: a failure before the rename leaves the old file, one after it the new file.\<close>

definition write_state :: "('x) upload_codecs_scheme \<Rightarrow> str \<Rightarrow> upload_state \<Rightarrow> unit client" where
  "write_state L path st = (\<lambda>w.
     (case state_to_vec L st of
        None \<Rightarrow> (Inl UJson, w)
      | Some encoded \<Rightarrow>
          let outcome = (case wd_disk w of [] \<Rightarrow> Written | x # _ \<Rightarrow> x);
              rest = w\<lparr>wd_disk := tl (wd_disk w)\<rparr>;
              replaced = rest\<lparr>wd_spool := bt_insert path (encoded @ [newline]) (wd_spool w)\<rparr>;
              failure = UIo (IoError Other ''upload state not written'') in
          (case outcome of
             Written \<Rightarrow> (Inr (), replaced)
           | Not_written \<Rightarrow> (Inl failure, rest)
           | Not_synced \<Rightarrow> (Inl failure, replaced))))"

definition load_or_create_state ::
  "('x) upload_codecs_scheme \<Rightarrow> invocation \<Rightarrow> run_source \<Rightarrow> segment_cursor \<Rightarrow> nat \<Rightarrow> upload_state client" where
  "load_or_create_state L iv src cursor target = (\<lambda>w.
     cbind (lift (loaded_or_new_state L (iv_now iv) (wd_spool w) cursor (so_run_id src) (iv_api_origin iv) target)) (\<lambda>st.
     cbind (write_state L (sc_path cursor) st) (\<lambda>_. creturn st)) w)"

text \<open>A state with the identity of the registered collector, written.\<close>

definition adopt_registration ::
  "('x) upload_codecs_scheme \<Rightarrow> invocation \<Rightarrow> segment_cursor \<Rightarrow> registration \<Rightarrow> upload_state \<Rightarrow> upload_state client" where
  "adopt_registration L iv cursor reg st =
     (let st = st\<lparr>us_collector_id := Some (rg_collector_id reg), us_config_version := rg_config_version reg,
                  us_updated_at := iv_now iv\<rparr> in
      cbind (write_state L (sc_path cursor) st) (\<lambda>_. creturn st))"

section \<open>Upload\<close>

text \<open>The loop that reconciles segment after segment until one is open or ends at the target. The
  segment limit bounds it.\<close>

fun reconcile_segments ::
  "nat \<Rightarrow> ('x) upload_codecs_scheme \<Rightarrow> invocation \<Rightarrow> run_source \<Rightarrow> registration \<Rightarrow> nat \<Rightarrow> segment_cursor \<Rightarrow> upload_state
   \<Rightarrow> (segment_cursor \<times> upload_state) client" where
  "reconcile_segments 0 L iv src reg target cursor st = lift (Inl (UMessage ''upload recording segment limit exceeded''))"
| "reconcile_segments (Suc fuel) L iv src reg target cursor st =
     cbind (client_create_recording iv src (rg_collector_id reg) (sc_recording_id cursor) (sc_segment_no cursor)
              (sc_first_seq cursor - 1)) (\<lambda>_.
     cbind (client_get_recording iv (rg_collector_id reg) (sc_recording_id cursor)) (\<lambda>remote.
     cbind (lift (reconcile_remote (iv_now iv) remote st)) (\<lambda>st.
     cbind (write_state L (sc_path cursor) st) (\<lambda>_.
     if \<not> us_sealed st \<or> planned_sequence st = target then creturn (cursor, st)
     else
       cbind (cguard (planned_sequence st < target) ''sealed upload segment exceeds final local evidence'') (\<lambda>_.
       cbind (lift (next_cursor L (iv_api_origin iv) (so_run_id src) (us_segment_no st) (planned_sequence st))) (\<lambda>cursor.
       cbind (load_or_create_state L iv src cursor target) (\<lambda>st.
       cbind (adopt_registration L iv cursor reg st) (\<lambda>st.
       reconcile_segments fuel L iv src reg target cursor st))))))))"

text \<open>The loop over the blobs of a batch with the digests seen so far.\<close>

fun upload_blobs ::
  "('x) upload_codecs_scheme \<Rightarrow> invocation \<Rightarrow> run_source \<Rightarrow> uuid \<Rightarrow> bool \<Rightarrow> blob_plan list \<Rightarrow> str list \<Rightarrow> (str list) client" where
  "upload_blobs L iv src cid force [] seen = creturn seen"
| "upload_blobs L iv src cid force (p # ps) seen =
     (if bp_sha256 p \<in> set seen then upload_blobs L iv src cid force ps seen
      else
        cbind (ensure_blob L iv src cid p force) (\<lambda>_.
        upload_blobs L iv src cid force ps (bp_sha256 p # seen)))"

text \<open>Thirty seconds have passed since the last heartbeat.\<close>

definition heartbeat_due :: "bool client" where
  "heartbeat_due = (\<lambda>w. (Inr (wd_heartbeat_due w \<noteq> [] \<and> hd (wd_heartbeat_due w)),
                         w\<lparr>wd_heartbeat_due := tl (wd_heartbeat_due w)\<rparr>))"

record upload_progress =
  up_state :: upload_state
  up_reader :: "(storage_error + event_envelope) list"
  up_blobs :: "str list"
  up_batches :: nat

text \<open>The loop over the fixed batches. The upload of a finished run, but not that of an active one,
  takes over from the acknowledgement that the recording is sealed (\<open>track_seal\<close>).\<close>

fun upload_batches ::
  "('x) upload_codecs_scheme \<Rightarrow> invocation \<Rightarrow> run_source \<Rightarrow> registration \<Rightarrow> segment_cursor \<Rightarrow> nat \<Rightarrow> bool \<Rightarrow> batch_plan list
   \<Rightarrow> upload_progress \<Rightarrow> upload_progress client" where
  "upload_batches L iv src reg cursor final track_seal [] up = creturn up"
| "upload_batches L iv src reg cursor final track_seal (b # bs) up =
     cbind heartbeat_due (\<lambda>due.
     cbind (if due then client_heartbeat iv (rg_collector_id reg) (up_state up) else creturn ()) (\<lambda>_.
     cbind (lift (read_batch L (up_reader up) b)) (\<lambda>(body, reader).
     let up = up\<lparr>up_reader := reader\<rparr>; st = up_state up in
     if pl_last_seq b \<le> us_acked_seq st then upload_batches L iv src reg cursor final track_seal bs up
     else
       cbind (upload_blobs L iv src (rg_collector_id reg) False (pl_blobs b) (up_blobs up)) (\<lambda>seen.
       cbind (lift (encode_batch_body L (us_recording_id st) b body)) (\<lambda>wire.
       cbind (client_upload_batch L iv (rg_collector_id reg) (us_recording_id st) wire) (\<lambda>ack.
       cbind (lift (validate_ack st b ack)) (\<lambda>_.
       let st' = st\<lparr>us_acked_seq := ba_durable_seq ack,
                    us_sealed := (if track_seal then ba_state ack = ''sealed'' \<and> ba_durable_seq ack = final else us_sealed st),
                    us_updated_at := iv_now iv\<rparr>;
           up = up\<lparr>up_state := st', up_blobs := seen, up_batches := up_batches up + 1\<rparr> in
       cbind (write_state L (sc_path cursor) st') (\<lambda>_.
       if (case iv_max_batches iv of Some m \<Rightarrow> up_batches up \<ge> m | None \<Rightarrow> False) then creturn up
       else upload_batches L iv src reg cursor final track_seal bs up))))))))"

record upload_report =
  ur_run_id :: str
  ur_recording_id :: str
  ur_api_origin :: str
  ur_events :: nat
  ur_batches :: nat
  ur_blobs_considered :: nat
  ur_acked_seq :: nat
  ur_sealed :: bool
  ur_resumed_from_seq :: nat
  ur_collector_id :: uuid

definition upload_report_of :: "nat \<Rightarrow> registration \<Rightarrow> upload_progress \<Rightarrow> nat \<Rightarrow> bool \<Rightarrow> upload_report" where
  "upload_report_of resumed reg up events sealed =
     \<lparr>ur_run_id = us_run_id (up_state up), ur_recording_id = us_recording_id (up_state up),
      ur_api_origin = us_api_origin (up_state up), ur_events = events,
      ur_batches = length (us_batches (up_state up)), ur_blobs_considered = length (up_blobs up),
      ur_acked_seq = us_acked_seq (up_state up), ur_sealed = sealed, ur_resumed_from_seq = resumed,
      ur_collector_id = rg_collector_id reg\<rparr>"

text \<open>From the selected segment to the state whose fixed plan ends at the target, written.\<close>

definition prepare_upload ::
  "('x) upload_codecs_scheme \<Rightarrow> invocation \<Rightarrow> run_source \<Rightarrow> segment_cursor \<Rightarrow> nat
   \<Rightarrow> (registration \<times> segment_cursor \<times> upload_state) client" where
  "prepare_upload L iv src cursor target =
     cbind (load_or_create_state L iv src cursor target) (\<lambda>st.
     let st = (case iv_collector_id iv of Some c \<Rightarrow> st\<lparr>us_collector_id := Some c\<rparr> | None \<Rightarrow> st) in
     cbind (client_register iv src (us_collector_id st)) (\<lambda>reg.
     cbind (lift (config_rejections L (rg_config reg))) (\<lambda>_.
     cbind (adopt_registration L iv cursor reg st) (\<lambda>st.
     cbind (reconcile_segments (MAX_RECORDING_SEGMENTS - sc_segment_no cursor) L iv src reg target cursor st) (\<lambda>(cursor, st).
     cbind (if us_sealed st
            then cbind (cguard (planned_sequence st = target) ''sealed upload segment does not cover the target'') (\<lambda>_. creturn st)
            else lift (extend_state_to L (iv_now iv) (so_reader src) target st)) (\<lambda>st.
     cbind (lift (validate_state st (so_run_id src) (sc_recording_id cursor) (iv_api_origin iv) target)) (\<lambda>_.
     cbind (write_state L (sc_path cursor) st) (\<lambda>_.
     creturn (reg, cursor, st)))))))))"

text \<open>The seal with its confirmation: the state as it is written at the end.\<close>

definition seal_and_confirm ::
  "('x) upload_codecs_scheme \<Rightarrow> invocation \<Rightarrow> run_source \<Rightarrow> registration \<Rightarrow> segment_cursor \<Rightarrow> nat \<Rightarrow> bool \<Rightarrow> upload_state
   \<Rightarrow> upload_state client" where
  "seal_and_confirm L iv src reg cursor final run_final st =
     cbind (client_seal_recording L iv src (rg_collector_id reg) (us_recording_id st) final run_final) (\<lambda>_.
     cbind (client_get_recording iv (rg_collector_id reg) (us_recording_id st)) (\<lambda>remote.
     cbind (cguard (rr_state remote = ''sealed'' \<and> rr_durable_seq remote = final)
       ''platform did not confirm a fully durable sealed recording'') (\<lambda>_.
     cbind (cguard (rr_final_seq remote = Some final)
       ''platform sealed recording has an unexpected final sequence'') (\<lambda>_.
     let st = st\<lparr>us_acked_seq := rr_durable_seq remote, us_sealed := True, us_updated_at := iv_now iv\<rparr> in
     cbind (write_state L (sc_path cursor) st) (\<lambda>_. creturn st)))))"

definition upload_run :: "('x) upload_codecs_scheme \<Rightarrow> invocation \<Rightarrow> run_source \<Rightarrow> upload_report client" where
  "upload_run L iv src =
     (let final = so_valid_events src in
     cbind (cguard (so_status src \<noteq> ''running'') ''refusing to upload a run that is still being recorded'') (\<lambda>_.
     cbind (cguard (so_discarded_tail_bytes src = 0) ''run has an incomplete event tail; run iorec recover first'') (\<lambda>_.
     cbind (cguard (so_missing_blobs src = []) ''run references missing blobs'') (\<lambda>_.
     cbind (cguard (so_corrupt_blobs src = []) ''run contains corrupt blobs'') (\<lambda>_.
     cbind (cguard (final > 0) ''run contains no events'') (\<lambda>_.
     cbind (cguard (final \<le> MAX_PLATFORM_SEQUENCE) ''run event sequence exceeds the platform protocol limit'') (\<lambda>_.
     cbind (\<lambda>w. lift (select_segment_cursor L (wd_spool w) (iv_api_origin iv) (so_run_id src) final) w) (\<lambda>(_, cursor).
     cbind (prepare_upload L iv src cursor final) (\<lambda>(reg, cursor, st).
     cbind (upload_batches L iv src reg cursor final True (us_batches st)
              \<lparr>up_state = st, up_reader = so_reader src, up_blobs = [], up_batches = 0\<rparr>) (\<lambda>up.
     if us_acked_seq (up_state up) < final then
       cbind (client_heartbeat iv (rg_collector_id reg) (up_state up)) (\<lambda>_.
       creturn (upload_report_of (us_acked_seq st) reg up final False))
     else
       cbind (cguard (up_reader up = []) ''upload batch plan does not consume the full event log'') (\<lambda>_.
       cbind (cguard (us_acked_seq (up_state up) = final) ''platform acknowledged an unexpected sequence'') (\<lambda>_.
       cbind (seal_and_confirm L iv src reg cursor final True (up_state up)) (\<lambda>st'.
       cbind (client_heartbeat iv (rg_collector_id reg) st') (\<lambda>_.
       creturn (upload_report_of (us_acked_seq st) reg (up\<lparr>up_state := st'\<rparr>) final (us_sealed st'))))))))))))))))"

text \<open>\<open>upload_active_segment\<close> with \<open>flush_active_run\<close>, \<open>seal_active_run\<close> and their variants for a
  persisted request as its instances.\<close>

definition upload_active_segment ::
  "('x) upload_codecs_scheme \<Rightarrow> invocation \<Rightarrow> run_source \<Rightarrow> nat \<Rightarrow> bool \<Rightarrow> str option \<Rightarrow> upload_report client" where
  "upload_active_segment L iv src boundary seal_segment expected =
     cbind (cguard (boundary > 0) ''active run has no durable events to flush'') (\<lambda>_.
     cbind (cguard (boundary \<le> MAX_PLATFORM_SEQUENCE) ''active durable boundary exceeds the platform protocol limit'') (\<lambda>_.
     cbind (cguard (so_status src = ''running'' \<or> expected \<noteq> None)
       ''active flush requires a running run or a persisted collector request boundary'') (\<lambda>_.
     cbind (\<lambda>w. lift (case expected of
         Some rec \<Rightarrow> select_expected_segment_cursor L (wd_spool w) (iv_api_origin iv) (so_run_id src) rec boundary (so_valid_events src)
       | None \<Rightarrow> select_segment_cursor L (wd_spool w) (iv_api_origin iv) (so_run_id src) boundary) w) (\<lambda>(_, cursor).
     cbind (prepare_upload L iv src cursor boundary) (\<lambda>(reg, cursor, st).
     cbind (upload_batches L iv src reg cursor boundary False (us_batches st)
              \<lparr>up_state = st, up_reader = so_reader src, up_blobs = [], up_batches = 0\<rparr>) (\<lambda>up.
     cbind (cguard (us_acked_seq (up_state up) \<le> boundary) ''platform durable sequence exceeds the active flush boundary'') (\<lambda>_.
     cbind (if seal_segment \<and> us_acked_seq (up_state up) = boundary
            then seal_and_confirm L iv src reg cursor boundary False (up_state up)
            else creturn (up_state up)) (\<lambda>st'.
     cbind (client_heartbeat iv (rg_collector_id reg) st') (\<lambda>_.
     creturn (upload_report_of (us_acked_seq st) reg (up\<lparr>up_state := st'\<rparr>) boundary (us_sealed st')))))))))))"

definition flush_active_run ::
  "('x) upload_codecs_scheme \<Rightarrow> invocation \<Rightarrow> run_source \<Rightarrow> nat \<Rightarrow> upload_report client" where
  "flush_active_run L iv src boundary = upload_active_segment L iv src boundary False None"

definition flush_active_run_for ::
  "('x) upload_codecs_scheme \<Rightarrow> invocation \<Rightarrow> run_source \<Rightarrow> nat \<Rightarrow> str \<Rightarrow> upload_report client" where
  "flush_active_run_for L iv src boundary expected = upload_active_segment L iv src boundary False (Some expected)"

definition seal_active_run ::
  "('x) upload_codecs_scheme \<Rightarrow> invocation \<Rightarrow> run_source \<Rightarrow> nat \<Rightarrow> upload_report client" where
  "seal_active_run L iv src boundary = upload_active_segment L iv src boundary True None"

definition seal_active_run_for ::
  "('x) upload_codecs_scheme \<Rightarrow> invocation \<Rightarrow> run_source \<Rightarrow> nat \<Rightarrow> str \<Rightarrow> upload_report client" where
  "seal_active_run_for L iv src boundary expected = upload_active_segment L iv src boundary True (Some expected)"

section \<open>Backfill\<close>

record backfill_report =
  bf_run_id :: str
  bf_recording_id :: str
  bf_requested_first_seq :: nat
  bf_requested_last_seq :: nat
  bf_resent_first_seq :: nat
  bf_resent_last_seq :: nat
  bf_batches_resent :: nat
  bf_blobs_repaired :: nat
  bf_collector_id :: uuid

fun resend_batches ::
  "('x) upload_codecs_scheme \<Rightarrow> invocation \<Rightarrow> run_source \<Rightarrow> uuid \<Rightarrow> upload_state \<Rightarrow> (nat \<times> nat) list \<Rightarrow> batch_plan list
   \<Rightarrow> (storage_error + event_envelope) list \<Rightarrow> str list \<Rightarrow> nat \<Rightarrow> (str list \<times> nat) client" where
  "resend_batches L iv src cid st ranges [] reader seen resent = creturn (seen, resent)"
| "resend_batches L iv src cid st ranges (b # bs) reader seen resent =
     cbind (lift (read_batch L reader b)) (\<lambda>(body, reader).
     if (pl_first_seq b, pl_last_seq b) \<notin> set ranges then resend_batches L iv src cid st ranges bs reader seen resent
     else
       cbind (upload_blobs L iv src cid True (pl_blobs b) seen) (\<lambda>seen.
       cbind (lift (encode_batch_body L (us_recording_id st) b body)) (\<lambda>wire.
       cbind (client_upload_batch L iv cid (us_recording_id st) wire) (\<lambda>ack.
       cbind (lift (validate_ack st b ack)) (\<lambda>_.
       resend_batches L iv src cid st ranges bs reader seen (resent + 1))))))"

definition backfill_available :: "run_source \<Rightarrow> nat \<Rightarrow> upload_error + nat" where
  "backfill_available src last_seq =
     (if so_status src = ''running'' then Inr U64_MAX
      else
        and_then (check (so_discarded_tail_bytes src = 0 \<and> so_missing_blobs src = [] \<and> so_corrupt_blobs src = [])
          ''backfill requires complete authenticated local evidence'') (\<lambda>_.
        and_then (check (last_seq \<le> so_valid_events src) ''backfill range exceeds local evidence'') (\<lambda>_.
        Inr (so_valid_events src))))"

definition backfill_run ::
  "('x) upload_codecs_scheme \<Rightarrow> invocation \<Rightarrow> run_source \<Rightarrow> str \<Rightarrow> nat \<Rightarrow> nat \<Rightarrow> backfill_report client" where
  "backfill_run L iv src expected first_seq last_seq =
     cbind (cguard (first_seq > 0 \<and> last_seq \<ge> first_seq \<and> last_seq \<le> MAX_PLATFORM_SEQUENCE)
       ''backfill sequence range is invalid'') (\<lambda>_.
     cbind (lift (backfill_available src last_seq)) (\<lambda>available.
     cbind (\<lambda>w. lift (load_segment_chain L (wd_spool w) (iv_api_origin iv) (so_run_id src) available) w) (\<lambda>segments.
     cbind (lift (ok_or (find (\<lambda>item. us_recording_id (sg_state item) = expected) segments)
       (UMessage ''backfill recording ID has no authenticated local upload state''))) (\<lambda>item.
     let st = sg_state item in
     cbind (cguard (first_seq \<ge> us_first_seq st \<and> last_seq \<le> sg_planned_seq item)
       ''backfill range exceeds the selected recording segment'') (\<lambda>_.
     cbind (client_register iv src (case iv_collector_id iv of Some c \<Rightarrow> Some c | None \<Rightarrow> us_collector_id st)) (\<lambda>reg.
     cbind (lift (config_rejections L (rg_config reg))) (\<lambda>_.
     let cid = rg_collector_id reg;
         st = st\<lparr>us_collector_id := Some cid, us_config_version := rg_config_version reg\<rparr> in
     cbind (client_create_recording iv src cid (us_recording_id st) (us_segment_no st) (us_first_seq st - 1)) (\<lambda>_.
     cbind (client_get_recording iv cid (us_recording_id st)) (\<lambda>remote.
     cbind (lift (reconcile_remote (iv_now iv) remote st)) (\<lambda>st.
     cbind (write_state L (sg_path item) st) (\<lambda>_.
     let selected = filter (\<lambda>b. pl_first_seq b \<le> last_seq \<and> pl_last_seq b \<ge> first_seq) (us_batches st) in
     cbind (cguard (selected \<noteq> []) ''backfill range selects no local batch'') (\<lambda>_.
     cbind (cguard (pl_first_seq (hd selected) \<le> first_seq \<and> pl_last_seq (last selected) \<ge> last_seq)
       ''backfill range is not covered by fixed local batches'') (\<lambda>_.
     cbind (resend_batches L iv src cid st (map (\<lambda>b. (pl_first_seq b, pl_last_seq b)) selected) (us_batches st)
              (so_reader src) [] 0) (\<lambda>(seen, resent).
     cbind (cguard (resent = length selected) ''backfill did not resend every selected batch'') (\<lambda>_.
     cbind (client_heartbeat iv cid st) (\<lambda>_.
     creturn \<lparr>bf_run_id = so_run_id src, bf_recording_id = expected, bf_requested_first_seq = first_seq,
              bf_requested_last_seq = last_seq, bf_resent_first_seq = pl_first_seq (hd selected),
              bf_resent_last_seq = pl_last_seq (last selected), bf_batches_resent = resent,
              bf_blobs_repaired = length seen, bf_collector_id = cid\<rparr>))))))))))))))))"

section \<open>Gates\<close>

definition MAX_UPLOAD_TARGETS :: nat where "MAX_UPLOAD_TARGETS = 128"
definition MAX_TOTAL_UPLOAD_STATES :: nat where "MAX_TOTAL_UPLOAD_STATES = 100000"

text \<open>\<open>list_upload_origins\<close>; \<open>canonical\<close> tells whether a string parses as an acceptable API URL and is
  its canonical origin.\<close>

fun upload_origins ::
  "('x) upload_codecs_scheme \<Rightarrow> (str \<Rightarrow> bool) \<Rightarrow> str \<Rightarrow> str list \<Rightarrow> nat \<Rightarrow> (str \<times> bytes) list \<Rightarrow> upload_error + str list" where
  "upload_origins L canonical rid origins states [] = Inr origins"
| "upload_origins L canonical rid origins states ((name, contents) # entries) =
     (if strip_prefix ''state-'' name = None \<or> strip_suffix ''.json'' name = None
      then upload_origins L canonical rid origins states entries
      else
      and_then (check (states + 1 \<le> MAX_TOTAL_UPLOAD_STATES) ''total upload state limit exceeded'') (\<lambda>_.
      and_then (read_state L contents) (\<lambda>st.
      and_then (check (us_run_id st = rid) ''upload state run ID mismatch'') (\<lambda>_.
      and_then (check (us_segment_no st < MAX_RECORDING_SEGMENTS) ''upload state has an invalid segment number'') (\<lambda>_.
      and_then (check (canonical (us_api_origin st)) ''upload state API origin is not canonical'') (\<lambda>_.
      and_then (check (name = segment_state_path L (us_api_origin st) (us_segment_no st))
        ''upload state path is not canonical'') (\<lambda>_.
      let origins = List.insert (us_api_origin st) origins in
      and_then (check (length origins \<le> MAX_UPLOAD_TARGETS) ''upload target state limit exceeded'') (\<lambda>_.
      upload_origins L canonical rid origins (states + 1) entries))))))))"

definition list_upload_origins ::
  "('x) upload_codecs_scheme \<Rightarrow> (str \<Rightarrow> bool) \<Rightarrow> (str \<times> bytes) list \<Rightarrow> str \<Rightarrow> upload_error + str list" where
  "list_upload_origins L canonical spool rid =
     and_then (upload_origins L canonical rid [] 0 spool) (\<lambda>origins. Inr (sort origins))"

fun check_origins ::
  "('x) upload_codecs_scheme \<Rightarrow> (str \<times> bytes) list \<Rightarrow> str \<Rightarrow> nat \<Rightarrow> str list \<Rightarrow> upload_error + unit" where
  "check_origins L spool rid final [] = Inr ()"
| "check_origins L spool rid final (origin # origins) =
     and_then (load_segment_chain L spool origin rid final) (\<lambda>states.
     and_then (check (segment_chain_complete states final)
       ''upload target has not acknowledged and sealed the full run'') (\<lambda>_.
     check_origins L spool rid final origins))"

text \<open>The spool is \<open>None\<close> when the run has none.\<close>

definition verify_retention_gate ::
  "('x) upload_codecs_scheme \<Rightarrow> (str \<Rightarrow> bool) \<Rightarrow> (str \<times> bytes) list option \<Rightarrow> str \<Rightarrow> nat \<Rightarrow> upload_error + unit" where
  "verify_retention_gate L canonical spool rid final =
     (case spool of
        None \<Rightarrow> Inr ()
      | Some spool \<Rightarrow>
          and_then (list_upload_origins L canonical spool rid) (\<lambda>origins.
          and_then (check (origins \<noteq> []) ''upload spool exists without a durable target state'') (\<lambda>_.
          check_origins L spool rid final origins)))"

definition verify_uploaded_retention_gate ::
  "('x) upload_codecs_scheme \<Rightarrow> (str \<Rightarrow> bool) \<Rightarrow> (str \<times> bytes) list option \<Rightarrow> str \<Rightarrow> nat \<Rightarrow> upload_error + unit" where
  "verify_uploaded_retention_gate L canonical spool rid final =
     and_then (check (spool \<noteq> None) ''remote deletion requires a fully acknowledged upload target'') (\<lambda>_.
     verify_retention_gate L canonical spool rid final)"

definition upload_complete_for ::
  "('x) upload_codecs_scheme \<Rightarrow> run_source \<Rightarrow> (str \<times> bytes) list option \<Rightarrow> str \<Rightarrow> upload_error + bool" where
  "upload_complete_for L src spool origin =
     (if so_status src = ''running'' \<or> so_discarded_tail_bytes src \<noteq> 0 then Inr False
      else
        (case spool of
           None \<Rightarrow> Inr False
         | Some spool \<Rightarrow>
             and_then (load_segment_chain L spool origin (so_run_id src) (so_valid_events src)) (\<lambda>states.
             Inr (states \<noteq> [] \<and> segment_chain_complete states (so_valid_events src)))))"

section \<open>Active segments\<close>

text \<open>The evidence of a segment: the bytes of its batches and each of its blobs once.\<close>

fun add_blob_sizes :: "nat \<Rightarrow> str list \<Rightarrow> blob_plan list \<Rightarrow> upload_error + nat \<times> str list" where
  "add_blob_sizes sum_bytes seen [] = Inr (sum_bytes, seen)"
| "add_blob_sizes sum_bytes seen (p # ps) =
     (if bp_sha256 p \<in> set seen then add_blob_sizes sum_bytes seen ps
      else
        and_then (ok_or (checked_add sum_bytes (bp_size p)) (UMessage ''recording segment size overflow'')) (\<lambda>sum_bytes.
        add_blob_sizes sum_bytes (bp_sha256 p # seen) ps))"

fun logical_bytes :: "nat \<Rightarrow> str list \<Rightarrow> batch_plan list \<Rightarrow> upload_error + nat" where
  "logical_bytes sum_bytes seen [] = Inr sum_bytes"
| "logical_bytes sum_bytes seen (b # bs) =
     and_then (ok_or (checked_add sum_bytes (pl_byte_length b)) (UMessage ''recording segment size overflow'')) (\<lambda>sum_bytes.
     and_then (add_blob_sizes sum_bytes seen (pl_blobs b)) (\<lambda>(sum_bytes, seen).
     logical_bytes sum_bytes seen bs))"

definition segment_logical_bytes :: "batch_plan list \<Rightarrow> upload_error + nat" where
  "segment_logical_bytes plans = logical_bytes 0 [] plans"

text \<open>Where the active segment stands: its first sequence, what is planned, when it was opened, its
  plan. \<open>started_at\<close> is the start of the run.\<close>

definition active_segment :: "int \<Rightarrow> segment_state list \<Rightarrow> upload_error + nat \<times> nat \<times> int \<times> batch_plan list" where
  "active_segment started_at states =
     (if states = [] then Inr (1, 0, started_at, [])
      else let item = last states in
        if us_sealed (sg_state item) then
          and_then (ok_or (checked_add (sg_planned_seq item) 1) (UMessage ''upload sequence overflow'')) (\<lambda>first.
          Inr (first, sg_planned_seq item, us_updated_at (sg_state item), []))
        else Inr (us_first_seq (sg_state item), sg_planned_seq item, us_created_at (sg_state item), us_batches (sg_state item)))"

text \<open>The age limit and the clock in nanoseconds; a negative age counts as zero.\<close>

definition active_segment_roll_due ::
  "('x) upload_codecs_scheme \<Rightarrow> int \<Rightarrow> run_source \<Rightarrow> int \<Rightarrow> (str \<times> bytes) list option \<Rightarrow> str \<Rightarrow> nat \<Rightarrow> nat \<Rightarrow> nat
   \<Rightarrow> upload_error + bool" where
  "active_segment_roll_due L now src started_at spool origin boundary max_logical_bytes max_age =
     and_then (check (max_logical_bytes > 0) ''recording segment byte limit is zero'') (\<lambda>_.
     and_then (check (max_age > 0) ''recording segment age limit is zero'') (\<lambda>_.
     if boundary = 0 then Inr False
     else
     and_then (check (boundary \<le> MAX_PLATFORM_SEQUENCE) ''active durable boundary exceeds the platform protocol limit'') (\<lambda>_.
     and_then (check (so_status src = ''running'') ''recording segment roll check requires an active run'') (\<lambda>_.
     and_then (case spool of None \<Rightarrow> Inr [] | Some spool \<Rightarrow> load_segment_chain L spool origin (so_run_id src) boundary) (\<lambda>states.
     if states \<noteq> [] \<and> us_sealed (sg_state (last states)) \<and> sg_planned_seq (last states) = boundary then Inr False
     else
     and_then (active_segment started_at states) (\<lambda>(first, planned_seq, opened_at, plans).
     and_then (check (first \<le> boundary \<and> planned_seq \<le> boundary)
       ''active recording segment boundary precedes its first event'') (\<lambda>_.
     and_then
       (if planned_seq < boundary then
          and_then (ok_or (checked_add planned_seq 1) (UMessage ''upload sequence overflow'')) (\<lambda>from.
          and_then (build_batch_plans_range L now (so_reader src) from boundary (last_digest None plans)) (\<lambda>additional.
          Inr (plans @ additional)))
        else Inr plans) (\<lambda>plans.
     and_then (check (plans \<noteq> [] \<and> pl_first_seq (hd plans) = first \<and> pl_last_seq (last plans) = boundary)
       ''active recording segment plan does not cover its durable range'') (\<lambda>_.
     and_then (segment_logical_bytes plans) (\<lambda>sum_bytes.
     Inr (sum_bytes \<ge> max_logical_bytes \<or> nat (now - opened_at) \<ge> max_age)))))))))))"

definition active_recording_id_at_boundary ::
  "('x) upload_codecs_scheme \<Rightarrow> run_source \<Rightarrow> (str \<times> bytes) list option \<Rightarrow> str \<Rightarrow> nat \<Rightarrow> upload_error + str" where
  "active_recording_id_at_boundary L src spool origin boundary =
     and_then (check (boundary > 0) ''active durable boundary is empty'') (\<lambda>_.
     and_then (check (boundary \<le> MAX_PLATFORM_SEQUENCE) ''active durable boundary exceeds the platform protocol limit'') (\<lambda>_.
     (case spool of
        None \<Rightarrow> Inr (recording_id_for_segment L (so_run_id src) 0)
      | Some spool \<Rightarrow>
          and_then (select_segment_cursor L spool origin (so_run_id src) boundary) (\<lambda>(_, cursor).
          Inr (sc_recording_id cursor)))))"

end
