(* ===== verification/Spec2Isabelle.thy ===== *)
theory Spec2Isabelle
  imports Json_Input Model Sse Policy Ordered_Maps Crypto Record_Lines Event_Codec Event_Log Event_Writer Run_Sessions Blob_Keys Blob_Store Run_Store Audit_Log Upload_Plan Platform_Ingest Platform_Catalogue Upload_Client
begin

text \<open>
  Verification of \<open>iorec\<close>, a recorder of the model traffic of coding agents, and of the receive path
  of its platform. A recorder process observes an agent (through a recording proxy, hooks, session
  files or packet capture), sanitizes what it sees, and writes a \<^emph>\<open>run directory\<close>: an append-only
  log of event envelopes, content-addressed payload blobs, key envelopes and a manifest. An operator
  audit log beside the run directories records what was done to them. An uploader cuts the events
  into recordings and batches and sends them to the platform, which catalogues them and keeps
  their objects. The recorder is under \<open>src/src\<close> (Rust, named below by file), the platform under
  \<open>src/iorec-platform/internal\<close> (Go).

  \<^bold>\<open>Conventions.\<close> Bytes and UTF-8 strings are character lists; \<open>u64\<close> and \<open>usize\<close> (64 bits) are
  natural numbers with the saturating, checked and wrapping operations of the standard library
  written out; \<open>Result\<close> is a sum whose left side is the error, with \<open>and_then\<close> for the question
  mark operator. Messages keep the literal words of the source without interpolated values.
  Third-party crates (hashes, AEAD, HKDF, zstd, serde) are records of functions passed to the
  definitions, with their documented behaviour as named law predicates; \<open>demo_crates\<close> and its
  extensions are concrete instances on which the witnesses evaluate. JSON values stand for what
  the codec carries exactly: a present \<open>null\<close> in an optional field is identified with its absence
  and a floating-point number with what its decimal form reads back as (the audit log, where this
  matters for the hash, states it as the hypothesis \<open>exact_details\<close>). Clocks, fresh identifiers,
  nonces, and the faults of file system and network are arguments.

  \<^bold>\<open>The recorder.\<close>
  \<^item> \<open>Prelude\<close>, \<open>Ordered_Maps\<close>, \<open>Libraries\<close>, \<open>Record_Lines\<close>: shared vocabulary; \<open>BTreeMap\<close> as sorted
    entry lists (locale \<open>keyed_map\<close>); crate parameters; newline-framed logs (locale
    \<open>framed_log\<close>, interpreted on the frames of the event log).
  \<^item> \<open>Json_Input\<close> (\<open>input.rs\<close>): the byte scanner that bounds nesting and structure; it accepts
    exactly the inputs whose structure outside string literals is within the limits.
  \<^item> \<open>Model\<close> (\<open>model.rs\<close>): event envelopes and their validation.
  \<^item> \<open>Sse\<close> (\<open>sse.rs\<close>): the incremental server-sent-events parser. A successful push loses no byte;
    any chunking that splits no CR LF pair ends in the same parser and error and, without an error,
    the same events; a split pair leaves its LF behind; rendered events parse back.
  \<^item> \<open>Policy\<close> (\<open>policy.rs\<close>, \<open>metadata.rs\<close>): header and JSON sanitization. Credential values do not
    influence the output, exactly the credential fields change, and the redaction record is
    valid.
  \<^item> \<open>Crypto\<close> (\<open>crypto.rs\<close>): keys, associated data and sealed frames (locale \<open>sealed_box\<close>,
    interpreted on blobs, event blocks and the retention state). Every frame opens to what was
    sealed, and in another context only by a forgery of the AEAD tag.
  \<^item> \<open>Event_Codec\<close>, \<open>Event_Log\<close>, \<open>Event_Writer\<close>, \<open>Run_Sessions\<close>, \<open>Run_Store\<close> (\<open>storage.rs\<close>): physical
    records in both formats, recovery and repair, readers, the writer thread with its command
    loop (\<open>writer_loop\<close>), the lifetime of a run over several processes (\<open>run_history\<close>), and the
    store with its client calls (\<open>create_with_encryption\<close>, \<open>append_event\<close>, \<open>durable_boundary\<close>,
    \<open>shutdown\<close>). Each session may meet any write and synchronisation faults and ends in a crash
    that keeps a beginning (a prefix) of the bytes not synchronised. Every acknowledged event is
    recovered, in order and without gaps, at the sequence number its caller received, and each
    admitted call that fails is counted. Event identifiers are arbitrary: whether the log opens
    for a further session depends on their order, and a clock set back closes it
    (\<open>clock_set_back_closes_log\<close>). A repair between the two writes of a record corrupts the log.
  \<^item> \<open>Blob_Keys\<close>, \<open>Blob_Store\<close> (\<open>blob_keys.rs\<close>, \<open>storage.rs\<close>, \<open>secure_fs.rs\<close>): class keys, blob names
    and the concurrent blob store (\<open>blob_step\<close>). Its steps are the critical section of an identity,
    the lookup, and each load and swap of the counters; sealing, writing the temporary file, the
    rename and the settling of the counters after them are one step. Budgets hold under every
    interleaving and every file fault, one store does on each branch what it should, and stored
    blobs read back where the keys agree.
  \<^item> \<open>Audit_Log\<close> (\<open>audit.rs\<close>): the hash-chained audit log. Histories of appends without file faults
    verify, searches are exact, rewriting a prefix under a known head needs a SHA-256 collision,
    and a torn or overfull log stays closed.

  \<^bold>\<open>Upload and platform.\<close>
  \<^item> \<open>Upload_Plan\<close> (\<open>upload.rs\<close>): the upload state and the cutting of an event range into batches; a
    plan covers its range exactly, within the limits.
  \<^item> \<open>Upload_Client\<close> (\<open>upload.rs\<close>): the uploader as a state monad over a world of run directory, state
    file and platform, with scripts for the faults of disk and network: registration, heartbeats,
    creation, adoption and reconciliation of recordings, blobs, batches, sealing, backfill. Requests
    call the handlers of the platform model directly. The theory is a model with its auxiliary lemmas.
  \<^item> \<open>Platform_Ingest\<close> (\<open>ingest/ingest.go\<close>, \<open>protocol/codec.go\<close>, \<open>control/control.go\<close>, \<open>query/query.go\<close>):
    the catalogue and the object store, one handler per request, with the states that a failure
    inside a handler leaves. Objects are found by the text of their key.
  \<^item> \<open>Platform_Catalogue\<close>: the states reached by collector requests and the sweep
    (\<open>platform_reachable\<close>). Every event up to the durable sequence has its evidence in the object
    store, and requests stay in their project.

  \<^bold>\<open>Bounds and fuel.\<close> Loops recurse on the bytes or lists they consume. The one loop with fuel is
  \<open>reconcile_segments\<close> of \<open>Upload_Client\<close>, which walks the segment numbers of a run: its fuel is the
  distance to \<open>MAX_RECORDING_SEGMENTS\<close>, where the source gives up too. Other limits are the constants
  of the source. A list of faults is arbitrary and finite; after its end nothing fails.

  \<^bold>\<open>Not modelled.\<close> Process, network and namespace management, the recording proxy's sockets, eBPF
  probes, packet capture processes, command line handling and report rendering act on the operating
  system and have no counterpart here. Of the platform, the requests of users, authentication,
  processing jobs, notifications, retention, configuration documents, the HTTP layer with the decoding
  of bodies, and the S3 and path handling of the object stores are left out.
\<close>

end
